(* ===== verification/Omnara_Prelude.thy ===== *)
theory Omnara_Prelude
  imports Main
begin

text \<open>
  Shared vocabulary of the development.  It holds the error-sum combinator the operations of every
  component are written with, signed 64-bit wrap-around as Go's \<open>int64\<close> has it, the row operations
  of a table held as a list, and the runs of a store whose operations either fail and leave the
  state alone (a rolled-back transaction) or return a result and a new state.

  The collection \<open>omnara_simps\<close> gathers the generic rewriting facts that component proofs add to
  the simplifier.
\<close>

named_theorems omnara_simps "generic facts about error results, rows and lists"

section \<open>Errors as values\<close>

text \<open>
  A Go function that returns \<open>(T, error)\<close> is a function into \<open>'e + 't\<close>: \<open>Inl\<close> is the error,
  \<open>Inr\<close> the value.  \<open>bindE\<close> is the recurring \<open>if err != nil { return err }\<close>.
\<close>

definition bindE :: "'e + 'a \<Rightarrow> ('a \<Rightarrow> 'e + 'b) \<Rightarrow> 'e + 'b" where
  "bindE m f = (case m of Inl e \<Rightarrow> Inl e | Inr x \<Rightarrow> f x)"

fun checkE :: "('a \<Rightarrow> 'e + unit) \<Rightarrow> 'a list \<Rightarrow> 'e + unit" where
  "checkE f [] = Inr ()"
| "checkE f (x # xs) = bindE (f x) (\<lambda>_. checkE f xs)"

fun mapE :: "('a \<Rightarrow> 'e + 'b) \<Rightarrow> 'a list \<Rightarrow> 'e + 'b list" where
  "mapE f [] = Inr []"
| "mapE f (x # xs) = bindE (f x) (\<lambda>y. bindE (mapE f xs) (\<lambda>ys. Inr (y # ys)))"

definition is_ok :: "'e + 'a \<Rightarrow> bool" where
  "is_ok r = (case r of Inl _ \<Rightarrow> False | Inr _ \<Rightarrow> True)"

lemma bindE_Inl [simp]: "bindE (Inl e) f = Inl e"
  by (simp add: bindE_def)

lemma bindE_Inr [simp]: "bindE (Inr x) f = f x"
  by (simp add: bindE_def)

lemma bindE_eq_Inr [simp]: "bindE m f = Inr y \<longleftrightarrow> (\<exists>x. m = Inr x \<and> f x = Inr y)"
  by (cases m) auto

lemma bindE_InrE:
  assumes "bindE x f = Inr z"
  obtains y where "x = Inr y" "f y = Inr z"
  using assms by (cases x) auto

lemma bindE_eq_Inl: "bindE m f = Inl e \<longleftrightarrow> m = Inl e \<or> (\<exists>x. m = Inr x \<and> f x = Inl e)"
  by (cases m) auto

lemma is_ok_simps [simp]: "\<not> is_ok (Inl e)" "is_ok (Inr x)"
  by (simp_all add: is_ok_def)

lemma is_ok_bindE: "is_ok (bindE m f) \<longleftrightarrow> (\<exists>x. m = Inr x \<and> is_ok (f x))"
  by (cases m) auto

lemma checkE_Inr: "checkE f xs = Inr u \<longleftrightarrow> (\<forall>x \<in> set xs. f x = Inr ())"
  by (induction xs) auto

lemma mapE_Inr: "mapE f xs = Inr ys \<longleftrightarrow> list_all2 (\<lambda>x y. f x = Inr y) xs ys"
proof (induction xs arbitrary: ys)
  case Nil
  then show ?case by auto
next
  case (Cons x xs)
  show ?case by (auto simp: Cons.IH list_all2_Cons1)
qed

lemma mapE_length: "mapE f xs = Inr ys \<Longrightarrow> length ys = length xs"
  by (auto simp: mapE_Inr dest: list_all2_lengthD)

lemma mapE_nth: "mapE f xs = Inr ys \<Longrightarrow> i < length xs \<Longrightarrow> f (xs ! i) = Inr (ys ! i)"
  by (auto simp: mapE_Inr list_all2_conv_all_nth)

section \<open>Signed 64-bit integers\<close>

text \<open>Go's \<open>int64\<close> arithmetic wraps: the mathematical result is reduced into the signed range.\<close>

definition max_int64 :: int where
  "max_int64 = 2 ^ 63 - 1"

definition min_int64 :: int where
  "min_int64 = - (2 ^ 63)"

definition wrap64 :: "int \<Rightarrow> int" where
  "wrap64 n = (n + 2 ^ 63) mod 2 ^ 64 - 2 ^ 63"

definition in_int64 :: "int \<Rightarrow> bool" where
  "in_int64 n \<longleftrightarrow> min_int64 \<le> n \<and> n \<le> max_int64"

lemma wrap64_in_range [simp]: "in_int64 n \<Longrightarrow> wrap64 n = n"
  by (simp add: wrap64_def in_int64_def max_int64_def min_int64_def)

lemma wrap64_bounds: "in_int64 (wrap64 n)"
proof -
  have "0 \<le> (n + 2 ^ 63) mod 2 ^ 64" and "(n + 2 ^ 63) mod 2 ^ 64 < (2 ^ 64 :: int)"
    by simp_all
  then show ?thesis
    by (simp add: wrap64_def in_int64_def max_int64_def min_int64_def)
qed

text \<open>Adding one below a representable bound does not wrap; at the top it wraps to a negative value.\<close>

lemma wrap64_succ_below: "0 \<le> r \<Longrightarrow> r < s \<Longrightarrow> in_int64 s \<Longrightarrow> wrap64 (r + 1) = r + 1"
  by (rule wrap64_in_range) (simp add: in_int64_def min_int64_def)

lemma wrap64_succ_eq_pos:
  assumes "0 \<le> r" "in_int64 r" "0 < s"
  shows "s = wrap64 (r + 1) \<longleftrightarrow> s = r + 1 \<and> r < max_int64"
proof (cases "r < max_int64")
  case True
  with assms show ?thesis
    by (subst wrap64_in_range) (simp_all add: in_int64_def min_int64_def)
next
  case False
  with assms have "r = 2 ^ 63 - 1" by (simp add: in_int64_def max_int64_def)
  with assms show ?thesis by (simp add: wrap64_def max_int64_def)
qed

lemma wrap64_pred: "0 < s \<Longrightarrow> in_int64 s \<Longrightarrow> wrap64 (s - 1) = s - 1"
  by (rule wrap64_in_range) (simp add: in_int64_def min_int64_def)

section \<open>Rows of a table\<close>

text \<open>
  A table is the list of its rows.  \<open>update_where\<close> is SQL's \<open>UPDATE ... WHERE\<close>, \<open>count_where\<close> the
  number of rows a predicate matches, and \<open>find\<close> a \<open>SELECT\<close> that reads one row.
\<close>

definition update_where :: "('r \<Rightarrow> bool) \<Rightarrow> ('r \<Rightarrow> 'r) \<Rightarrow> 'r list \<Rightarrow> 'r list" where
  "update_where P f rows = map (\<lambda>r. if P r then f r else r) rows"

definition count_where :: "('r \<Rightarrow> bool) \<Rightarrow> 'r list \<Rightarrow> nat" where
  "count_where P rows = length (filter P rows)"

lemma set_update_where: "set (update_where P f rows) = (\<lambda>r. if P r then f r else r) ` set rows"
  by (simp add: update_where_def)

lemma map_update_where [simp]:
  "(\<And>r. k (f r) = k r) \<Longrightarrow> map k (update_where P f rows) = map k rows"
  by (simp add: update_where_def)

lemma filter_update_where:
  "(\<And>r. Q (f r) = Q r) \<Longrightarrow> filter Q (update_where P f rows) = update_where P f (filter Q rows)"
  by (induction rows) (auto simp: update_where_def)

lemma update_where_none: "(\<And>r. r \<in> set rows \<Longrightarrow> \<not> P r) \<Longrightarrow> update_where P f rows = rows"
  by (simp add: update_where_def map_idI)

lemma count_where_0 [simp]: "count_where P rows = 0 \<longleftrightarrow> (\<forall>r \<in> set rows. \<not> P r)"
  by (simp add: count_where_def filter_empty_conv)

lemma count_where_pos: "count_where P rows = Suc n \<Longrightarrow> \<exists>r \<in> set rows. P r"
  by (metis count_where_0 nat.distinct(1))

lemma count_where_key:
  assumes "distinct (map k rows)"
  shows "count_where (\<lambda>r. k r = x \<and> P r) rows \<le> 1"
  using assms
proof (induction rows)
  case Nil
  then show ?case by (simp add: count_where_def)
next
  case (Cons r rows)
  have "count_where (\<lambda>r. k r = x \<and> P r) rows = 0" if "k r = x"
    using Cons.prems that by (auto simp: image_iff)
  with Cons show ?case by (auto simp: count_where_def)
qed

lemma find_SomeD: "find P xs = Some x \<Longrightarrow> x \<in> set xs \<and> P x"
  by (induction xs) (auto split: if_splits)

lemma find_NoneD: "find P xs = None \<Longrightarrow> x \<in> set xs \<Longrightarrow> \<not> P x"
  by (auto simp: find_None_iff)

lemma distinct_map_eq:
  "distinct (map k rows) \<Longrightarrow> r \<in> set rows \<Longrightarrow> r' \<in> set rows \<Longrightarrow> k r = k r' \<Longrightarrow> r = r'"
  by (auto simp: distinct_map inj_on_def)

lemma distinct_map_filter_key: "distinct (map k rows) \<Longrightarrow> distinct (map k (filter P rows))"
  by (simp add: distinct_map_filter)

lemma find_key:
  assumes "distinct (map k rows)" and "r \<in> set rows"
  shows "find (\<lambda>q. k q = k r) rows = Some r"
proof (cases "find (\<lambda>q. k q = k r) rows")
  case None
  with assms(2) show ?thesis by (auto dest: find_NoneD)
next
  case (Some q)
  then have "q \<in> set rows" and "k q = k r" by (auto dest: find_SomeD)
  with assms have "q = r" by (auto dest: distinct_map_eq)
  with Some show ?thesis by simp
qed

lemmas row_simps = set_update_where count_where_0 filter_update_where

declare row_simps [omnara_simps]

section \<open>Runs of a transactional store\<close>

text \<open>
  \<open>perform\<close> runs one operation: an error leaves the state as it was.  \<open>run_store\<close> runs a sequence
  and keeps, for each operation, what it answered.
\<close>

definition commit :: "'s \<Rightarrow> 'e + 'r \<times> 's \<Rightarrow> ('e + 'r) \<times> 's" where
  "commit s res = (case res of Inl e \<Rightarrow> (Inl e, s) | Inr (r, s') \<Rightarrow> (Inr r, s'))"

fun run_store :: "('o \<Rightarrow> 's \<Rightarrow> 'e + 'r \<times> 's) \<Rightarrow> 'o list \<Rightarrow> 's \<Rightarrow> ('o \<times> ('e + 'r)) list \<times> 's" where
  "run_store perform [] s = ([], s)"
| "run_store perform (q # qs) s =
     (let (a, s') = commit s (perform q s); (as, s'') = run_store perform qs s'
      in ((q, a) # as, s''))"

lemma commit_simps [simp]:
  "commit s (Inl e) = (Inl e, s)" "commit s (Inr (r, s')) = (Inr r, s')"
  by (simp_all add: commit_def)

lemma snd_run_store_Cons [simp]:
  "snd (run_store f (q # qs) s) = snd (run_store f qs (snd (commit s (f q s))))"
  by (simp add: Let_def split: prod.splits)

lemma fst_run_store_Cons [simp]:
  "fst (run_store f (q # qs) s) =
     (q, fst (commit s (f q s))) # fst (run_store f qs (snd (commit s (f q s))))"
  by (simp add: Let_def split: prod.splits)

declare run_store.simps(2) [simp del]

lemma run_store_append:
  "run_store f (xs @ ys) s =
     (let (as, s') = run_store f xs s; (bs, s'') = run_store f ys s' in (as @ bs, s''))"
  by (induction xs arbitrary: s) (auto simp: run_store.simps(2) Let_def split: prod.splits)

text \<open>
  The contract of a store with an invariant: every operation that succeeds keeps it.  Clients get
  that every run keeps it, and that a relation every successful operation respects holds between
  the ends of a run.
\<close>

locale invariant_store =
  fixes perform :: "'o \<Rightarrow> 's \<Rightarrow> 'e + 'r \<times> 's"
    and admissible :: "'o \<Rightarrow> bool"
    and inv :: "'s \<Rightarrow> bool"
  assumes perform_inv: "inv s \<Longrightarrow> admissible q \<Longrightarrow> perform q s = Inr (r, s') \<Longrightarrow> inv s'"
begin

lemma commit_inv: "inv s \<Longrightarrow> admissible q \<Longrightarrow> inv (snd (commit s (perform q s)))"
  using perform_inv by (cases "perform q s") auto

lemma run_inv: "inv s \<Longrightarrow> list_all admissible qs \<Longrightarrow> inv (snd (run_store perform qs s))"
proof (induction qs arbitrary: s)
  case Nil
  then show ?case by simp
next
  case (Cons q qs)
  then have "inv (snd (commit s (perform q s)))" by (simp add: commit_inv)
  with Cons show ?case by simp
qed

lemma run_relates:
  assumes refl: "\<And>s. R s s"
    and trans: "\<And>a b c. R a b \<Longrightarrow> R b c \<Longrightarrow> R a c"
    and step: "\<And>s q r s'. inv s \<Longrightarrow> admissible q \<Longrightarrow> perform q s = Inr (r, s') \<Longrightarrow> R s s'"
    and "inv s" "list_all admissible qs"
  shows "R s (snd (run_store perform qs s))"
  using assms(4,5)
proof (induction qs arbitrary: s)
  case Nil
  then show ?case by (simp add: refl)
next
  case (Cons q qs)
  define s' where "s' = snd (commit s (perform q s))"
  have "R s s'"
    using Cons.prems step by (cases "perform q s") (auto simp: s'_def refl)
  moreover have "inv s'" using Cons.prems by (simp add: s'_def commit_inv)
  then have "R s' (snd (run_store perform qs s'))" using Cons by simp
  ultimately show ?case by (auto simp: s'_def intro: trans)
qed

end

end
