(* ===== verification/Daemon_Protocol.thy ===== *)
theory Daemon_Protocol
  imports Omnara_Prelude
begin

text \<open>
  The vocabulary the backend and the machine daemon share
  (\<open>src/internal/daemonprotocol/protocol.go\<close>, \<open>src/internal/processaction/processaction.go\<close>):
  phases of a process, kinds of action, reported events and the validity rule for the source
  timestamps of a terminal report.

  A Go \<open>string\<close> and a \<open>[]byte\<close> are both \<open>string\<close>, a list of bytes.  A Go \<open>time.Time\<close> is the
  number of nanoseconds since its zero value, so \<open>IsZero\<close> is \<open>= 0\<close> and \<open>After\<close> is \<open>>\<close>.  A named
  string type of the source whose values are only ever compared is a datatype with a constructor
  per constant and one more for every other string.
\<close>

type_synonym bytes = string
type_synonym time = int

definition time_is_zero :: "time \<Rightarrow> bool" where
  "time_is_zero t \<longleftrightarrow> t = 0"

definition time_after :: "time \<Rightarrow> time \<Rightarrow> bool" where
  "time_after t u \<longleftrightarrow> u < t"

datatype process_phase = ProcessPreparing | ProcessPrepared | ProcessAccepted | ProcessTerminal

datatype process_state =
    ProcessStateQueued | ProcessStateStarting | ProcessStateRunning | ProcessStateExited
  | ProcessStateFailed | ProcessStateKilled | ProcessStateUnknown | ProcessStateOther string

datatype process_action_kind =
    ProcessActionWrite | ProcessActionRead | ProcessActionInterrupt | ProcessActionTerminate
  | ProcessActionOther string

datatype reported_event_type =
    EventProcessStarted | EventProcessFinished | EventProcessActionApplied
  | EventProcessActionFailed | EventProcessActionUnknown | EventOther string

record reported_event =
  event_type :: reported_event_type
  event_process_id :: string
  event_process_action_id :: string
  event_state :: process_state
  event_exit_code :: "int option"
  event_exit_signal :: string
  event_state_reason_code :: string
  event_state_reason_message :: string
  event_result :: bytes
  event_started_at :: time
  event_ended_at :: time
  event_observed_at :: time

definition MaxMessageBytes :: nat where
  "MaxMessageBytes = 1048576"

definition MaxObservationBytes :: nat where
  "MaxObservationBytes = 64 * 1024"

definition action_kind_valid :: "process_action_kind \<Rightarrow> bool" where
  "action_kind_valid kind =
     (case kind of
        ProcessActionWrite \<Rightarrow> True | ProcessActionRead \<Rightarrow> True
      | ProcessActionInterrupt \<Rightarrow> True | ProcessActionTerminate \<Rightarrow> True
      | _ \<Rightarrow> False)"

definition action_kind_mutating :: "process_action_kind \<Rightarrow> bool" where
  "action_kind_mutating kind =
     (case kind of
        ProcessActionWrite \<Rightarrow> True | ProcessActionInterrupt \<Rightarrow> True
      | ProcessActionTerminate \<Rightarrow> True
      | _ \<Rightarrow> False)"

definition ValidProcessTerminalSourceTimes :: "process_state \<Rightarrow> time \<Rightarrow> time \<Rightarrow> bool" where
  "ValidProcessTerminalSourceTimes state startedAt endedAt =
     (if \<not> time_is_zero startedAt \<and> \<not> time_is_zero endedAt \<and> time_after startedAt endedAt
      then False
      else case state of
        ProcessStateExited \<Rightarrow> \<not> time_is_zero endedAt
      | ProcessStateKilled \<Rightarrow> \<not> time_is_zero endedAt
      | ProcessStateFailed \<Rightarrow> time_is_zero startedAt \<or> \<not> time_is_zero endedAt
      | ProcessStateUnknown \<Rightarrow> True
      | _ \<Rightarrow> False)"

lemma mutating_valid: "action_kind_mutating k \<Longrightarrow> action_kind_valid k"
  by (cases k) (simp_all add: action_kind_mutating_def action_kind_valid_def)

lemma mutating_iff:
  "action_kind_mutating k \<longleftrightarrow>
     k \<in> {ProcessActionWrite, ProcessActionInterrupt, ProcessActionTerminate}"
  by (cases k) (simp_all add: action_kind_mutating_def)

lemma valid_terminal_times_ordered:
  assumes "ValidProcessTerminalSourceTimes st b e" and "b \<noteq> 0" and "st \<noteq> ProcessStateUnknown"
  shows "e \<noteq> 0 \<and> b \<le> e"
  using assms
  by (cases st)
    (auto simp: ValidProcessTerminalSourceTimes_def time_is_zero_def time_after_def split: if_splits)

end
