(* ===== verification/StateDB_Schema.thy ===== *)
theory StateDB_Schema
  imports Daemon_Protocol
begin

text \<open>
  The schema of the machine daemon's state database
  (\<open>src/internal/machinedaemon/statedb/migrations/000001_*.sql\<close> as the Go structs of
  \<open>statedb/store.go\<close> and \<open>statedb/internal/dbsqlc/models_gen.go\<close> read it): the three tables as lists
  of rows, the \<open>CHECK\<close>, \<open>UNIQUE\<close>, \<open>PRIMARY KEY\<close> and \<open>FOREIGN KEY\<close> constraints as the executable
  predicate \<open>schema_ok\<close>, and the error values the package returns.

  A column constrained to 0 or 1 is a \<open>bool\<close>, so that \<open>processFromSQLC\<close> and \<open>actionFromSQLC\<close> are
  the identity; a nullable column is an \<open>option\<close>.
\<close>

section \<open>Rows\<close>

record process =
  process_id :: string
  supervisor_instance_id :: string
  supervisor_token :: string
  phase :: process_phase
  resolved_action_seq :: int
  exec_committed :: bool
  containment_kind :: string
  containment_id :: string
  containment_empty :: bool
  action_admission_closed :: bool
  local_closed :: bool
  server_released :: bool

record action =
  action_id :: string
  action_process_id :: string
  action_kind :: process_action_kind
  action_seq :: int
  effect_committed :: bool

datatype report_kind =
    ReportProcessStarted | ReportProcessTerminal | ReportActionTerminal | ReportKindOther string

datatype report_state =
    ReportPending | ReportAcknowledged | ReportRejected | ReportStateOther string

record frozen_report =
  report_id :: string
  report_process_id :: string
  report_action_id :: "string option"
  report_kind :: report_kind
  report_body :: bytes
  report_state :: report_state
  report_error_code :: string
  report_error :: string

text \<open>The Go struct \<open>Report\<close>, whose \<open>ActionID\<close> is the empty string for a process report.\<close>

record report =
  ID :: string
  ProcessID :: string
  ActionID :: string
  Kind :: report_kind
  Body :: bytes
  State :: report_state
  ErrorCode :: string
  Error :: string

record statedb =
  machine_identity :: "(string \<times> string) option"
  processes :: "process list"
  process_actions :: "action list"
  frozen_reports :: "frozen_report list"

definition empty_statedb :: statedb where
  "empty_statedb =
     \<lparr>machine_identity = None, processes = [], process_actions = [], frozen_reports = []\<rparr>"

text \<open>
  The package's error values.  A sentinel wrapped with \<open>%w\<close> is its constructor, a plain
  \<open>errors.New\<close> carries its text, and \<open>ErrDatabase\<close> is \<open>dbError\<close> around a failed statement.
\<close>

datatype statedb_error =
    ErrNew string
  | ErrProcessExists
  | ErrSupervisorIdentityMismatch
  | ErrStateConflict
  | ErrActionBlocked
  | ErrClosureBlocked
  | ErrDatabase

section \<open>Constraints\<close>

definition process_check :: "process \<Rightarrow> bool" where
  "process_check p \<longleftrightarrow>
     process_id p \<noteq> [] \<and> supervisor_instance_id p \<noteq> [] \<and> supervisor_token p \<noteq> []
   \<and> 0 \<le> resolved_action_seq p
   \<and> ((containment_kind p = [] \<and> containment_id p = [])
      \<or> (containment_kind p \<noteq> [] \<and> containment_id p \<noteq> []))
   \<and> (containment_kind p = [] \<or> exec_committed p)
   \<and> (phase p = ProcessAccepted \<or> phase p = ProcessTerminal \<or> \<not> exec_committed p)
   \<and> (phase p \<noteq> ProcessTerminal \<or> action_admission_closed p)
   \<and> (\<not> local_closed p
      \<or> (action_admission_closed p \<and> containment_empty p
         \<and> (\<not> exec_committed p \<or> phase p = ProcessTerminal)))"

definition action_check :: "action \<Rightarrow> bool" where
  "action_check a \<longleftrightarrow>
     action_id a \<noteq> []
   \<and> (action_kind a = ProcessActionWrite \<or> action_kind a = ProcessActionInterrupt
      \<or> action_kind a = ProcessActionTerminate)
   \<and> 0 < action_seq a"

definition report_check :: "frozen_report \<Rightarrow> bool" where
  "report_check r \<longleftrightarrow>
     report_id r \<noteq> [] \<and> report_process_id r \<noteq> []
   \<and> (report_kind r = ReportProcessStarted \<or> report_kind r = ReportProcessTerminal
      \<or> report_kind r = ReportActionTerminal)
   \<and> (report_state r = ReportPending \<or> report_state r = ReportAcknowledged
      \<or> report_state r = ReportRejected)
   \<and> report_body r \<noteq> []
   \<and> ((report_kind r = ReportActionTerminal \<and> report_action_id r \<noteq> None)
      \<or> (report_kind r \<noteq> ReportActionTerminal \<and> report_action_id r = None))
   \<and> (report_state r \<noteq> ReportAcknowledged \<or> report_action_id r = None)
   \<and> ((report_state r = ReportRejected \<and> report_error_code r \<noteq> [])
      \<or> (report_state r \<noteq> ReportRejected \<and> report_error_code r = [] \<and> report_error r = []))"

definition action_key :: "action \<Rightarrow> string \<times> int" where
  "action_key a = (action_process_id a, action_seq a)"

text \<open>
  The two partial unique indexes on \<open>frozen_reports\<close> say which slot a report takes: one per process
  and kind without an action, one per action.
\<close>

definition report_slot :: "frozen_report \<Rightarrow> string \<times> report_kind + string" where
  "report_slot r = (case report_action_id r of
      None \<Rightarrow> Inl (report_process_id r, report_kind r)
    | Some a \<Rightarrow> Inr a)"

definition rows_ok :: "statedb \<Rightarrow> bool" where
  "rows_ok db \<longleftrightarrow>
     list_all process_check (processes db) \<and> list_all action_check (process_actions db)
   \<and> list_all report_check (frozen_reports db)
   \<and> (case machine_identity db of None \<Rightarrow> True | Some (i, m) \<Rightarrow> i \<noteq> [] \<and> m \<noteq> [])"

definition keys_ok :: "statedb \<Rightarrow> bool" where
  "keys_ok db \<longleftrightarrow>
     distinct (map process_id (processes db))
   \<and> distinct (map action_id (process_actions db))
   \<and> distinct (map action_key (process_actions db))
   \<and> distinct (map report_id (frozen_reports db))
   \<and> distinct (map report_slot (frozen_reports db))"

definition references_ok :: "statedb \<Rightarrow> bool" where
  "references_ok db \<longleftrightarrow>
     list_all (\<lambda>a. action_process_id a \<in> set (map process_id (processes db))) (process_actions db)
   \<and> list_all (\<lambda>r. report_process_id r \<in> set (map process_id (processes db))) (frozen_reports db)
   \<and> list_all (\<lambda>r. case report_action_id r of None \<Rightarrow> True
        | Some a \<Rightarrow> (a, report_process_id r)
            \<in> set (map (\<lambda>x. (action_id x, action_process_id x)) (process_actions db)))
      (frozen_reports db)"

definition schema_ok :: "statedb \<Rightarrow> bool" where
  "schema_ok db \<longleftrightarrow> rows_ok db \<and> keys_ok db \<and> references_ok db"

lemmas schema_defs = schema_ok_def rows_ok_def keys_ok_def references_ok_def

lemma schema_ok_empty: "schema_ok empty_statedb"
  by (simp add: schema_defs empty_statedb_def)

lemma schema_okD:
  assumes "schema_ok db"
  shows "p \<in> set (processes db) \<Longrightarrow> process_check p"
    and "a \<in> set (process_actions db) \<Longrightarrow> action_check a"
    and "r \<in> set (frozen_reports db) \<Longrightarrow> report_check r"
    and "distinct (map process_id (processes db))"
    and "distinct (map action_id (process_actions db))"
    and "distinct (map action_key (process_actions db))"
    and "distinct (map report_id (frozen_reports db))"
    and "distinct (map report_slot (frozen_reports db))"
  using assms by (auto simp: schema_defs list_all_iff)

lemma schema_ok_action_process:
  assumes "schema_ok db" "a \<in> set (process_actions db)"
  shows "\<exists>p \<in> set (processes db). process_id p = action_process_id a"
  using assms by (fastforce simp: schema_ok_def references_ok_def list_all_iff)

lemma schema_ok_report_process:
  assumes "schema_ok db" "r \<in> set (frozen_reports db)"
  shows "\<exists>p \<in> set (processes db). process_id p = report_process_id r"
  using assms by (fastforce simp: schema_ok_def references_ok_def list_all_iff)

lemma schema_ok_report_action:
  assumes "schema_ok db" "r \<in> set (frozen_reports db)" "report_action_id r = Some i"
  shows "\<exists>a \<in> set (process_actions db). action_id a = i \<and> action_process_id a = report_process_id r"
  using assms by (fastforce simp: schema_ok_def references_ok_def list_all_iff)

lemma process_unique:
  assumes "schema_ok db" "p \<in> set (processes db)" "q \<in> set (processes db)" "process_id p = process_id q"
  shows "p = q"
  using assms schema_okD(4) distinct_map_eq by metis

lemma action_unique:
  assumes "schema_ok db" "a \<in> set (process_actions db)" "b \<in> set (process_actions db)"
    and "action_id a = action_id b"
  shows "a = b"
  using assms schema_okD(5) distinct_map_eq by metis

lemma report_unique:
  assumes "schema_ok db" "r \<in> set (frozen_reports db)" "q \<in> set (frozen_reports db)"
    and "report_id r = report_id q"
  shows "r = q"
  using assms schema_okD(7) distinct_map_eq by metis

lemma report_slot_unique:
  assumes "schema_ok db" "r \<in> set (frozen_reports db)" "q \<in> set (frozen_reports db)"
    and "report_slot r = report_slot q"
  shows "r = q"
  using assms schema_okD(8) distinct_map_eq by metis

text \<open>A report's kind decides whether it names an action.\<close>

lemma report_check_action:
  "report_check r \<Longrightarrow> report_action_id r \<noteq> None \<longleftrightarrow> report_kind r = ReportActionTerminal"
  by (auto simp: report_check_def)

end
