(* ===== verification/StateDB_Queries.thy ===== *)
theory StateDB_Queries
  imports StateDB_Schema "HOL-Library.List_Lexorder" "HOL-Library.Char_ord"
    "HOL-Library.Product_Lexorder"
begin

text \<open>
  The statements of \<open>statedb/queries/*.sql\<close>, one definition per statement and under its name, as
  \<open>statedb/internal/dbsqlc\<close> carries them.  A statement that writes re-checks every constraint of the
  schema and fails with \<open>ErrDatabase\<close> when one is broken, as SQLite does at the end of a statement;
  an \<open>:execrows\<close> statement also returns the number of rows it matched.  \<open>DELETE\<close> follows the
  \<open>ON DELETE CASCADE\<close> clauses.  Byte strings are ordered as SQLite's \<open>BINARY\<close> collation orders them.
\<close>

section \<open>Writing rows\<close>

definition checked :: "statedb \<Rightarrow> statedb_error + statedb" where
  "checked db = (if schema_ok db then Inr db else Inl ErrDatabase)"

definition update_processes ::
    "(process \<Rightarrow> bool) \<Rightarrow> (process \<Rightarrow> process) \<Rightarrow> statedb \<Rightarrow> statedb_error + nat \<times> statedb" where
  "update_processes P f db =
     bindE (checked (db\<lparr>processes := update_where P f (processes db)\<rparr>))
       (\<lambda>db'. Inr (count_where P (processes db), db'))"

definition update_reports ::
    "(frozen_report \<Rightarrow> bool) \<Rightarrow> (frozen_report \<Rightarrow> frozen_report) \<Rightarrow> statedb
       \<Rightarrow> statedb_error + statedb" where
  "update_reports P f db =
     checked (db\<lparr>frozen_reports := update_where P f (frozen_reports db)\<rparr>)"

definition delete_actions :: "(action \<Rightarrow> bool) \<Rightarrow> statedb \<Rightarrow> statedb" where
  "delete_actions P db =
     db\<lparr>process_actions := filter (\<lambda>a. \<not> P a) (process_actions db),
        frozen_reports := filter (\<lambda>r. \<not> list_ex (\<lambda>a. P a \<and> report_action_id r = Some (action_id a)
            \<and> report_process_id r = action_process_id a) (process_actions db)) (frozen_reports db)\<rparr>"

definition delete_processes :: "(process \<Rightarrow> bool) \<Rightarrow> statedb \<Rightarrow> statedb" where
  "delete_processes P db =
     (let gone = (\<lambda>i. list_ex (\<lambda>p. P p \<and> process_id p = i) (processes db));
          db1 = delete_actions (\<lambda>a. gone (action_process_id a)) db
      in db1\<lparr>processes := filter (\<lambda>p. \<not> P p) (processes db),
             frozen_reports := filter (\<lambda>r. \<not> gone (report_process_id r)) (frozen_reports db1)\<rparr>)"

definition owned :: "string \<Rightarrow> string \<Rightarrow> process \<Rightarrow> bool" where
  "owned pid sid p \<longleftrightarrow> process_id p = pid \<and> supervisor_instance_id p = sid"

section \<open>Identity statements\<close>

definition GetMachineIdentity :: "statedb \<Rightarrow> (string \<times> string) option" where
  "GetMachineIdentity db = machine_identity db"

definition BindMachineIdentity :: "string \<Rightarrow> string \<Rightarrow> statedb \<Rightarrow> statedb_error + statedb" where
  "BindMachineIdentity installationID machineID db =
     (if machine_identity db \<noteq> None then Inl ErrDatabase
      else checked (db\<lparr>machine_identity := Some (installationID, machineID)\<rparr>))"

section \<open>Process statements\<close>

definition GetProcessSupervisorIdentity :: "string \<Rightarrow> statedb \<Rightarrow> (string \<times> string) option" where
  "GetProcessSupervisorIdentity pid db =
     map_option (\<lambda>p. (supervisor_instance_id p, supervisor_token p))
       (find (\<lambda>p. process_id p = pid) (processes db))"

definition InsertProcess :: "string \<Rightarrow> string \<Rightarrow> string \<Rightarrow> statedb \<Rightarrow> statedb_error + statedb" where
  "InsertProcess pid sid token db =
     checked (db\<lparr>processes := processes db @
       [\<lparr>process_id = pid, supervisor_instance_id = sid, supervisor_token = token,
         phase = ProcessPreparing, resolved_action_seq = 0, exec_committed = False,
         containment_kind = [], containment_id = [], containment_empty = False,
         action_admission_closed = False, local_closed = False, server_released = False\<rparr>]\<rparr>)"

definition MarkProcessPrepared :: "string \<Rightarrow> string \<Rightarrow> statedb \<Rightarrow> statedb_error + nat \<times> statedb" where
  "MarkProcessPrepared pid sid =
     update_processes
       (\<lambda>p. owned pid sid p \<and> (phase p = ProcessPreparing \<or> phase p = ProcessPrepared)
          \<and> \<not> local_closed p)
       (\<lambda>p. p\<lparr>phase := ProcessPrepared\<rparr>)"

definition MarkProcessAccepted :: "string \<Rightarrow> string \<Rightarrow> statedb \<Rightarrow> statedb_error + nat \<times> statedb" where
  "MarkProcessAccepted pid sid =
     update_processes
       (\<lambda>p. owned pid sid p \<and> (phase p = ProcessPrepared \<or> phase p = ProcessAccepted)
          \<and> \<not> local_closed p \<and> \<not> server_released p)
       (\<lambda>p. p\<lparr>phase := ProcessAccepted\<rparr>)"

definition DeleteProcess :: "string \<Rightarrow> string \<Rightarrow> statedb \<Rightarrow> statedb" where
  "DeleteProcess pid sid = delete_processes (owned pid sid)"

definition AuthorizeProcessSpawn :: "string \<Rightarrow> string \<Rightarrow> statedb \<Rightarrow> statedb_error + nat \<times> statedb" where
  "AuthorizeProcessSpawn pid sid =
     update_processes
       (\<lambda>p. owned pid sid p \<and> phase p = ProcessAccepted \<and> \<not> exec_committed p \<and> \<not> local_closed p)
       (\<lambda>p. p\<lparr>exec_committed := True\<rparr>)"

definition RecordProcessSpawned ::
    "string \<Rightarrow> string \<Rightarrow> string \<Rightarrow> string \<Rightarrow> statedb \<Rightarrow> statedb_error + nat \<times> statedb" where
  "RecordProcessSpawned kind cid pid sid =
     update_processes
       (\<lambda>p. owned pid sid p \<and> (phase p = ProcessAccepted \<or> phase p = ProcessTerminal)
          \<and> exec_committed p \<and> \<not> local_closed p
          \<and> (containment_kind p = [] \<or> containment_kind p = kind)
          \<and> (containment_id p = [] \<or> containment_id p = cid))
       (\<lambda>p. p\<lparr>containment_kind := kind, containment_id := cid\<rparr>)"

definition CloseProcessActionAdmission ::
    "string \<Rightarrow> string \<Rightarrow> statedb \<Rightarrow> statedb_error + nat \<times> statedb" where
  "CloseProcessActionAdmission pid sid =
     update_processes
       (\<lambda>p. owned pid sid p \<and> (phase p = ProcessAccepted \<or> phase p = ProcessTerminal))
       (\<lambda>p. p\<lparr>action_admission_closed := True\<rparr>)"

definition MarkProcessContainmentEmpty ::
    "string \<Rightarrow> string \<Rightarrow> statedb \<Rightarrow> statedb_error + nat \<times> statedb" where
  "MarkProcessContainmentEmpty pid sid =
     update_processes
       (\<lambda>p. owned pid sid p \<and> (phase p = ProcessAccepted \<or> phase p = ProcessTerminal))
       (\<lambda>p. p\<lparr>containment_empty := True\<rparr>)"

definition GetProcess :: "string \<Rightarrow> statedb \<Rightarrow> process option" where
  "GetProcess pid db = find (\<lambda>p. process_id p = pid) (processes db)"

definition ListProcesses :: "statedb \<Rightarrow> process list" where
  "ListProcesses db = sort_key process_id (processes db)"

definition CountTerminalProcessReports :: "string \<Rightarrow> statedb \<Rightarrow> nat" where
  "CountTerminalProcessReports pid db =
     count_where (\<lambda>r. report_process_id r = pid \<and> report_action_id r = None
         \<and> report_kind r = ReportProcessTerminal) (frozen_reports db)"

definition CountUnresolvedProcessActions :: "string \<Rightarrow> statedb \<Rightarrow> nat" where
  "CountUnresolvedProcessActions pid db =
     count_where (\<lambda>a. action_process_id a = pid
         \<and> \<not> list_ex (\<lambda>r. report_action_id r = Some (action_id a)) (frozen_reports db))
       (process_actions db)"

definition MarkProcessLocalClosed :: "string \<Rightarrow> string \<Rightarrow> statedb \<Rightarrow> statedb_error + statedb" where
  "MarkProcessLocalClosed pid sid db =
     bindE (update_processes (owned pid sid) (\<lambda>p. p\<lparr>local_closed := True\<rparr>) db) (\<lambda>(_, db'). Inr db')"

definition MarkProcessServerReleased ::
    "string \<Rightarrow> string \<Rightarrow> statedb \<Rightarrow> statedb_error + nat \<times> statedb" where
  "MarkProcessServerReleased pid sid =
     update_processes (owned pid sid) (\<lambda>p. p\<lparr>server_released := True\<rparr>)"

definition MarkTerminalProcessServerReleased :: "string \<Rightarrow> statedb \<Rightarrow> statedb_error + statedb" where
  "MarkTerminalProcessServerReleased pid db =
     bindE (update_processes (\<lambda>p. process_id p = pid) (\<lambda>p. p\<lparr>server_released := True\<rparr>) db)
       (\<lambda>(_, db'). Inr db')"

definition CountProcessActions :: "string \<Rightarrow> statedb \<Rightarrow> nat" where
  "CountProcessActions pid db = count_where (\<lambda>a. action_process_id a = pid) (process_actions db)"

definition CountUnsettledProcessReports :: "string \<Rightarrow> statedb \<Rightarrow> nat" where
  "CountUnsettledProcessReports pid db =
     count_where (\<lambda>r. report_process_id r = pid \<and> report_state r \<noteq> ReportAcknowledged)
       (frozen_reports db)"

definition SetProcessTerminal :: "string \<Rightarrow> string \<Rightarrow> statedb \<Rightarrow> statedb_error + statedb" where
  "SetProcessTerminal pid sid db =
     bindE (update_processes (owned pid sid)
         (\<lambda>p. p\<lparr>phase := ProcessTerminal, action_admission_closed := True\<rparr>) db)
       (\<lambda>(_, db'). Inr db')"

definition AdvanceResolvedActionSequence :: "int \<Rightarrow> string \<Rightarrow> statedb \<Rightarrow> statedb_error + statedb" where
  "AdvanceResolvedActionSequence n pid db =
     bindE (update_processes (\<lambda>p. process_id p = pid) (\<lambda>p. p\<lparr>resolved_action_seq := n\<rparr>) db)
       (\<lambda>(_, db'). Inr db')"

definition AdvanceReleasedActionSequence ::
    "int \<Rightarrow> string \<Rightarrow> string \<Rightarrow> statedb \<Rightarrow> statedb_error + statedb" where
  "AdvanceReleasedActionSequence n pid sid db =
     bindE (update_processes (owned pid sid) (\<lambda>p. p\<lparr>resolved_action_seq := n\<rparr>) db)
       (\<lambda>(_, db'). Inr db')"

definition CompactMissingActionPrefix ::
    "int \<Rightarrow> string \<Rightarrow> string \<Rightarrow> int \<Rightarrow> statedb \<Rightarrow> statedb_error + statedb" where
  "CompactMissingActionPrefix n pid sid previous db =
     bindE (update_processes (\<lambda>p. owned pid sid p \<and> resolved_action_seq p = previous)
         (\<lambda>p. p\<lparr>resolved_action_seq := n\<rparr>) db)
       (\<lambda>(_, db'). Inr db')"

section \<open>Action statements\<close>

definition InsertProcessAction ::
    "string \<Rightarrow> string \<Rightarrow> process_action_kind \<Rightarrow> int \<Rightarrow> bool \<Rightarrow> statedb \<Rightarrow> statedb_error + statedb" where
  "InsertProcessAction aid pid kind seq effect db =
     checked (db\<lparr>process_actions := process_actions db @
       [\<lparr>action_id = aid, action_process_id = pid, action_kind = kind, action_seq = seq,
         effect_committed = effect\<rparr>]\<rparr>)"

definition GetProcessAction :: "string \<Rightarrow> statedb \<Rightarrow> action option" where
  "GetProcessAction aid db = find (\<lambda>a. action_id a = aid) (process_actions db)"

definition ListProcessActions :: "string \<Rightarrow> statedb \<Rightarrow> action list" where
  "ListProcessActions pid db =
     sort_key action_seq (filter (\<lambda>a. action_process_id a = pid) (process_actions db))"

definition GetProcessActionIDBySequence :: "string \<Rightarrow> int \<Rightarrow> statedb \<Rightarrow> string option" where
  "GetProcessActionIDBySequence pid seq db =
     map_option action_id
       (find (\<lambda>a. action_process_id a = pid \<and> action_seq a = seq) (process_actions db))"

definition CountProcessActionsBetween :: "string \<Rightarrow> int \<Rightarrow> int \<Rightarrow> statedb \<Rightarrow> nat" where
  "CountProcessActionsBetween pid after before db =
     count_where (\<lambda>a. action_process_id a = pid \<and> after < action_seq a \<and> action_seq a < before)
       (process_actions db)"

definition DeleteProcessAction :: "string \<Rightarrow> string \<Rightarrow> statedb \<Rightarrow> statedb" where
  "DeleteProcessAction aid pid = delete_actions (\<lambda>a. action_id a = aid \<and> action_process_id a = pid)"

section \<open>Report statements\<close>

definition InsertFrozenReport ::
    "string \<Rightarrow> string \<Rightarrow> string option \<Rightarrow> report_kind \<Rightarrow> bytes \<Rightarrow> statedb
       \<Rightarrow> statedb_error + statedb" where
  "InsertFrozenReport rid pid aid kind body db =
     checked (db\<lparr>frozen_reports := frozen_reports db @
       [\<lparr>report_id = rid, report_process_id = pid, report_action_id = aid, report_kind = kind,
         report_body = body, report_state = ReportPending, report_error_code = [],
         report_error = []\<rparr>]\<rparr>)"

definition GetFrozenProcessReportBySlot :: "string \<Rightarrow> report_kind \<Rightarrow> statedb \<Rightarrow> frozen_report option" where
  "GetFrozenProcessReportBySlot pid kind db =
     find (\<lambda>r. report_process_id r = pid \<and> report_action_id r = None \<and> report_kind r = kind)
       (frozen_reports db)"

definition GetFrozenActionReportBySlot ::
    "string \<Rightarrow> string \<Rightarrow> report_kind \<Rightarrow> statedb \<Rightarrow> frozen_report option" where
  "GetFrozenActionReportBySlot pid aid kind db =
     find (\<lambda>r. report_process_id r = pid \<and> report_action_id r = Some aid \<and> report_kind r = kind)
       (frozen_reports db)"

definition GetFrozenReportByAction :: "string \<Rightarrow> statedb \<Rightarrow> frozen_report option" where
  "GetFrozenReportByAction aid db = find (\<lambda>r. report_action_id r = Some aid) (frozen_reports db)"

definition GetFrozenReportByID :: "string \<Rightarrow> statedb \<Rightarrow> frozen_report option" where
  "GetFrozenReportByID rid db = find (\<lambda>r. report_id r = rid) (frozen_reports db)"

definition kind_rank :: "report_kind \<Rightarrow> nat" where
  "kind_rank k =
     (case k of ReportProcessStarted \<Rightarrow> 0 | ReportActionTerminal \<Rightarrow> 1 | _ \<Rightarrow> 2)"

definition joined_seq :: "statedb \<Rightarrow> frozen_report \<Rightarrow> int" where
  "joined_seq db r =
     (case report_action_id r of None \<Rightarrow> 0
      | Some aid \<Rightarrow> (case GetProcessAction aid db of None \<Rightarrow> 0 | Some a \<Rightarrow> action_seq a))"

definition action_rejected :: "statedb \<Rightarrow> action \<Rightarrow> bool" where
  "action_rejected db a \<longleftrightarrow>
     list_ex (\<lambda>q. report_action_id q = Some (action_id a) \<and> report_kind q = ReportActionTerminal
        \<and> report_state q = ReportRejected) (frozen_reports db)"

definition deliverable :: "statedb \<Rightarrow> frozen_report \<Rightarrow> bool" where
  "deliverable db r \<longleftrightarrow>
     (report_state r = ReportPending \<or> report_state r = ReportRejected)
   \<and> (report_kind r \<noteq> ReportProcessTerminal
      \<or> \<not> list_ex (\<lambda>a. action_process_id a = report_process_id r \<and> \<not> action_rejected db a)
          (process_actions db))"

definition ListFrozenReportDeliveryCandidates :: "statedb \<Rightarrow> frozen_report list" where
  "ListFrozenReportDeliveryCandidates db =
     sort_key (\<lambda>r. (report_process_id r, kind_rank (report_kind r), joined_seq db r, report_id r))
       (filter (deliverable db) (frozen_reports db))"

definition ListFrozenReportsForProcess :: "string \<Rightarrow> statedb \<Rightarrow> frozen_report list" where
  "ListFrozenReportsForProcess pid db =
     sort_key (\<lambda>r. (kind_rank (report_kind r), joined_seq db r, report_id r))
       (filter (\<lambda>r. report_process_id r = pid) (frozen_reports db))"

definition ListFrozenReports :: "statedb \<Rightarrow> frozen_report list" where
  "ListFrozenReports db = frozen_reports db"

definition AcknowledgeProcessReport :: "string \<Rightarrow> statedb \<Rightarrow> statedb_error + statedb" where
  "AcknowledgeProcessReport rid =
     update_reports
       (\<lambda>r. report_id r = rid \<and> (report_state r = ReportPending \<or> report_state r = ReportRejected))
       (\<lambda>r. r\<lparr>report_state := ReportAcknowledged, report_error_code := [], report_error := []\<rparr>)"

definition RejectFrozenReport :: "string \<Rightarrow> string \<Rightarrow> string \<Rightarrow> statedb \<Rightarrow> statedb_error + statedb" where
  "RejectFrozenReport code err rid =
     update_reports
       (\<lambda>r. report_id r = rid \<and> report_state r = ReportPending)
       (\<lambda>r. r\<lparr>report_state := ReportRejected, report_error_code := code, report_error := err\<rparr>)"

section \<open>Snapshot and audit statements\<close>

definition ListProcessActionSnapshots :: "statedb \<Rightarrow> (action \<times> frozen_report option) list" where
  "ListProcessActionSnapshots db =
     concat (map (\<lambda>a.
        (case filter (\<lambda>r. report_action_id r = Some (action_id a)) (frozen_reports db) of
           [] \<Rightarrow> [(a, None)]
         | rs \<Rightarrow> map (\<lambda>r. (a, Some r)) rs))
       (sort_key action_key (process_actions db)))"

definition ListRejectedProcessReportIDs :: "statedb \<Rightarrow> (string \<times> string) list" where
  "ListRejectedProcessReportIDs db =
     sort (map (\<lambda>r. (report_process_id r, report_id r))
       (filter (\<lambda>r. report_action_id r = None \<and> report_state r = ReportRejected)
         (frozen_reports db)))"

record invariant_violations =
  TerminalProcessMissingReport :: bool
  TerminalReportOnNonterminalProcess :: bool
  LocallyClosedProcessNotTerminal :: bool
  LocallyClosedProcessActionMissingReport :: bool
  NoEffectActionMissingReport :: bool
  ActionBehindResolvedFrontier :: bool

definition GetInvariantViolations :: "statedb \<Rightarrow> invariant_violations" where
  "GetInvariantViolations db =
     \<lparr>TerminalProcessMissingReport =
        list_ex (\<lambda>p. phase p = ProcessTerminal
          \<and> \<not> list_ex (\<lambda>r. report_process_id r = process_id p \<and> report_action_id r = None
               \<and> report_kind r = ReportProcessTerminal) (frozen_reports db)) (processes db),
      TerminalReportOnNonterminalProcess =
        list_ex (\<lambda>r. list_ex (\<lambda>p. process_id p = report_process_id r
          \<and> report_kind r = ReportProcessTerminal \<and> phase p \<noteq> ProcessTerminal) (processes db))
          (frozen_reports db),
      LocallyClosedProcessNotTerminal =
        list_ex (\<lambda>p. local_closed p \<and> phase p \<noteq> ProcessTerminal) (processes db),
      LocallyClosedProcessActionMissingReport =
        list_ex (\<lambda>p. list_ex (\<lambda>a. action_process_id a = process_id p \<and> local_closed p
          \<and> \<not> list_ex (\<lambda>r. report_action_id r = Some (action_id a)) (frozen_reports db))
          (process_actions db)) (processes db),
      NoEffectActionMissingReport =
        list_ex (\<lambda>a. \<not> effect_committed a
          \<and> \<not> list_ex (\<lambda>r. report_action_id r = Some (action_id a)) (frozen_reports db))
          (process_actions db),
      ActionBehindResolvedFrontier =
        list_ex (\<lambda>a. list_ex (\<lambda>p. process_id p = action_process_id a
          \<and> action_seq a \<le> resolved_action_seq p) (processes db)) (process_actions db)\<rparr>"

section \<open>Facts about the statements\<close>

lemma checked_Inr [simp]: "checked db = Inr db' \<longleftrightarrow> schema_ok db \<and> db' = db"
  by (auto simp: checked_def)

lemma checked_Inl [simp]: "checked db = Inl e \<longleftrightarrow> \<not> schema_ok db \<and> e = ErrDatabase"
  by (auto simp: checked_def)

lemma update_processes_Inr:
  "update_processes P f db = Inr (n, db') \<longleftrightarrow>
     db' = db\<lparr>processes := update_where P f (processes db)\<rparr> \<and> schema_ok db'
   \<and> n = count_where P (processes db)"
  by (auto simp: update_processes_def)

lemma GetProcess_SomeD: "GetProcess pid db = Some p \<Longrightarrow> p \<in> set (processes db) \<and> process_id p = pid"
  by (auto simp: GetProcess_def dest: find_SomeD)

lemma GetProcess_iff:
  "schema_ok db \<Longrightarrow> GetProcess pid db = Some p \<longleftrightarrow> p \<in> set (processes db) \<and> process_id p = pid"
  by (metis GetProcess_SomeD GetProcess_def find_key schema_okD(4))

lemma GetProcess_None: "GetProcess pid db = None \<longleftrightarrow> pid \<notin> process_id ` set (processes db)"
  by (auto simp: GetProcess_def find_None_iff)

lemma GetProcessAction_SomeD:
  "GetProcessAction aid db = Some a \<Longrightarrow> a \<in> set (process_actions db) \<and> action_id a = aid"
  by (auto simp: GetProcessAction_def dest: find_SomeD)

lemma GetProcessAction_iff:
  "schema_ok db \<Longrightarrow>
     GetProcessAction aid db = Some a \<longleftrightarrow> a \<in> set (process_actions db) \<and> action_id a = aid"
  by (metis GetProcessAction_SomeD GetProcessAction_def find_key schema_okD(5))

lemma GetProcessAction_None:
  "GetProcessAction aid db = None \<longleftrightarrow> aid \<notin> action_id ` set (process_actions db)"
  by (auto simp: GetProcessAction_def find_None_iff)

lemma GetProcessActionIDBySequence_None:
  "GetProcessActionIDBySequence pid n db = None \<longleftrightarrow>
     (\<forall>a \<in> set (process_actions db). \<not> (action_process_id a = pid \<and> action_seq a = n))"
  by (auto simp: GetProcessActionIDBySequence_def find_None_iff)

lemma GetFrozenReportByID_SomeD:
  "GetFrozenReportByID rid db = Some r \<Longrightarrow> r \<in> set (frozen_reports db) \<and> report_id r = rid"
  by (auto simp: GetFrozenReportByID_def dest: find_SomeD)

lemma GetFrozenReportByID_iff:
  "schema_ok db \<Longrightarrow>
     GetFrozenReportByID rid db = Some r \<longleftrightarrow> r \<in> set (frozen_reports db) \<and> report_id r = rid"
  by (metis GetFrozenReportByID_SomeD GetFrozenReportByID_def find_key schema_okD(7))

lemma GetFrozenReportByAction_SomeD:
  "GetFrozenReportByAction aid db = Some r \<Longrightarrow>
     r \<in> set (frozen_reports db) \<and> report_action_id r = Some aid"
  by (auto simp: GetFrozenReportByAction_def dest: find_SomeD)

lemma GetFrozenReportByAction_None:
  "GetFrozenReportByAction aid db = None \<longleftrightarrow>
     (\<forall>r \<in> set (frozen_reports db). report_action_id r \<noteq> Some aid)"
  by (auto simp: GetFrozenReportByAction_def find_None_iff)

lemma count_owned_le: "schema_ok db \<Longrightarrow> count_where (\<lambda>p. owned pid sid p \<and> Q p) (processes db) \<le> 1"
  using count_where_key [of process_id "processes db" pid "\<lambda>p. supervisor_instance_id p = sid \<and> Q p"]
  by (simp add: schema_okD(4) owned_def conj_assoc)

lemma sets_delete_actions [simp]:
  "processes (delete_actions P db) = processes db"
  "machine_identity (delete_actions P db) = machine_identity db"
  "set (process_actions (delete_actions P db)) = {a \<in> set (process_actions db). \<not> P a}"
  by (auto simp: delete_actions_def)

lemma reports_delete_actions:
  "set (frozen_reports (delete_actions P db)) =
     {r \<in> set (frozen_reports db). \<not> (\<exists>a \<in> set (process_actions db). P a
        \<and> report_action_id r = Some (action_id a) \<and> report_process_id r = action_process_id a)}"
  by (auto simp: delete_actions_def list_ex_iff)

lemma delete_processes_sets:
  shows "set (processes (delete_processes P db)) = {p \<in> set (processes db). \<not> P p}"
    and "machine_identity (delete_processes P db) = machine_identity db"
    and "set (process_actions (delete_processes P db)) =
       {a \<in> set (process_actions db). \<not> (\<exists>p \<in> set (processes db). P p \<and> process_id p = action_process_id a)}"
  by (auto simp: delete_processes_def Let_def list_ex_iff)

lemma delete_processes_reports:
  assumes "schema_ok db"
  shows "set (frozen_reports (delete_processes P db)) =
       {r \<in> set (frozen_reports db). \<not> (\<exists>p \<in> set (processes db). P p \<and> process_id p = report_process_id r)}"
  by (auto simp: delete_processes_def Let_def list_ex_iff reports_delete_actions)

lemma schema_ok_delete_actions:
  assumes "schema_ok db"
  shows "schema_ok (delete_actions P db)"
proof -
  let ?db = "delete_actions P db"
  have "rows_ok ?db"
    using assms by (auto simp: schema_ok_def rows_ok_def list_all_iff reports_delete_actions)
  moreover have "keys_ok ?db"
    using assms by (simp add: schema_ok_def keys_ok_def delete_actions_def distinct_map_filter_key)
  moreover have "references_ok ?db"
    unfolding references_ok_def list_all_iff
  proof (intro conjI ballI)
    fix a assume "a \<in> set (process_actions ?db)"
    then have "\<exists>p \<in> set (processes db). process_id p = action_process_id a"
      by (intro schema_ok_action_process [OF assms]) simp
    then show "action_process_id a \<in> set (map process_id (processes ?db))"
      by (auto simp: image_iff intro: sym)
  next
    fix r assume "r \<in> set (frozen_reports ?db)"
    then have "\<exists>p \<in> set (processes db). process_id p = report_process_id r"
      by (intro schema_ok_report_process [OF assms]) (simp add: reports_delete_actions)
    then show "report_process_id r \<in> set (map process_id (processes ?db))"
      by (auto simp: image_iff intro: sym)
  next
    fix r assume r: "r \<in> set (frozen_reports ?db)"
    show "case report_action_id r of None \<Rightarrow> True
        | Some a \<Rightarrow> (a, report_process_id r)
            \<in> set (map (\<lambda>x. (action_id x, action_process_id x)) (process_actions ?db))"
    proof (cases "report_action_id r")
      case (Some i)
      with r obtain a where a: "a \<in> set (process_actions db)" "action_id a = i"
        "action_process_id a = report_process_id r"
        using schema_ok_report_action [OF assms, of r i] by (auto simp: reports_delete_actions)
      with r Some have "a \<in> set (process_actions ?db)" by (auto simp: reports_delete_actions)
      with a Some show ?thesis by (auto simp: image_iff)
    qed simp
  qed
  ultimately show ?thesis by (simp add: schema_ok_def)
qed

lemma schema_ok_delete_processes:
  assumes "schema_ok db"
  shows "schema_ok (delete_processes P db)"
proof -
  let ?db = "delete_processes P db"
  note sets = delete_processes_sets delete_processes_reports [OF assms]
  have "rows_ok ?db"
    using assms by (auto simp: schema_ok_def rows_ok_def list_all_iff sets)
  moreover have "keys_ok ?db"
    using assms
    by (simp add: schema_ok_def keys_ok_def delete_processes_def delete_actions_def Let_def
        distinct_map_filter_key)
  moreover have "references_ok ?db"
    unfolding references_ok_def list_all_iff
  proof (intro conjI ballI)
    fix a assume a: "a \<in> set (process_actions ?db)"
    then obtain p where "p \<in> set (processes db)" "process_id p = action_process_id a"
      using schema_ok_action_process [OF assms, of a] by (auto simp: sets)
    with a have "p \<in> set (processes ?db)" by (auto simp: sets)
    with \<open>process_id p = action_process_id a\<close>
    show "action_process_id a \<in> set (map process_id (processes ?db))"
      by (auto simp: image_iff intro: sym)
  next
    fix r assume r: "r \<in> set (frozen_reports ?db)"
    then obtain p where "p \<in> set (processes db)" "process_id p = report_process_id r"
      using schema_ok_report_process [OF assms, of r] by (auto simp: sets)
    with r have "p \<in> set (processes ?db)" by (auto simp: sets)
    with \<open>process_id p = report_process_id r\<close>
    show "report_process_id r \<in> set (map process_id (processes ?db))"
      by (auto simp: image_iff intro: sym)
  next
    fix r assume r: "r \<in> set (frozen_reports ?db)"
    show "case report_action_id r of None \<Rightarrow> True
        | Some a \<Rightarrow> (a, report_process_id r)
            \<in> set (map (\<lambda>x. (action_id x, action_process_id x)) (process_actions ?db))"
    proof (cases "report_action_id r")
      case (Some i)
      with r obtain a where a: "a \<in> set (process_actions db)" "action_id a = i"
        "action_process_id a = report_process_id r"
        using schema_ok_report_action [OF assms, of r i] by (auto simp: sets)
      with r have "a \<in> set (process_actions ?db)" by (auto simp: sets)
      with a Some show ?thesis by (auto simp: image_iff)
    qed simp
  qed
  ultimately show ?thesis by (simp add: schema_ok_def)
qed

end
