(* ===== verification/StateDB_Process.thy ===== *)
theory StateDB_Process
  imports StateDB_Queries
begin

text \<open>
  The process operations of the state database (\<open>statedb/process.go\<close>) and the identity checks of
  \<open>statedb/store.go\<close>.  Each operation is one write transaction: it returns \<open>Inl\<close> and the caller
  keeps the old database when the Go code returns an error (the deferred rollback), and \<open>Inr\<close> with
  the new database when it commits.
\<close>

section \<open>Identity of the database\<close>

definition readIdentity :: "statedb \<Rightarrow> (string \<times> string) option" where
  "readIdentity db = GetMachineIdentity db"

definition verifyIdentityValues ::
    "string \<Rightarrow> string \<Rightarrow> string \<Rightarrow> string \<Rightarrow> statedb_error + unit" where
  "verifyIdentityValues storedInstallation storedMachine installationID machineID =
     (if storedInstallation = installationID \<and> storedMachine = machineID then Inr ()
      else Inl (ErrNew ''state database identity mismatch''))"

definition bindOrVerifyIdentity :: "string \<Rightarrow> string \<Rightarrow> statedb \<Rightarrow> statedb_error + statedb" where
  "bindOrVerifyIdentity installationID machineID db =
     (case readIdentity db of
        None \<Rightarrow> BindMachineIdentity installationID machineID db
      | Some (storedInstallation, storedMachine) \<Rightarrow>
          bindE (verifyIdentityValues storedInstallation storedMachine installationID machineID)
            (\<lambda>_. Inr db))"

definition verifyIdentity :: "string \<Rightarrow> string \<Rightarrow> statedb \<Rightarrow> statedb_error + unit" where
  "verifyIdentity installationID machineID db =
     (case readIdentity db of
        None \<Rightarrow> Inl (ErrNew ''state database has no identity binding'')
      | Some (storedInstallation, storedMachine) \<Rightarrow>
          verifyIdentityValues storedInstallation storedMachine installationID machineID)"

section \<open>Reading and updating one process\<close>

definition Store_Process :: "string \<Rightarrow> statedb \<Rightarrow> process option" where
  "Store_Process processID db = GetProcess processID db"

definition Store_Processes :: "statedb \<Rightarrow> process list" where
  "Store_Processes db = ListProcesses db"

definition processTx :: "string \<Rightarrow> statedb \<Rightarrow> process option" where
  "processTx processID db = GetProcess processID db"

definition Supervisor_Process :: "string \<Rightarrow> string \<Rightarrow> statedb \<Rightarrow> statedb_error + process" where
  "Supervisor_Process processID supervisorInstanceID db =
     (case Store_Process processID db of
        None \<Rightarrow> Inl ErrSupervisorIdentityMismatch
      | Some process \<Rightarrow>
          if supervisor_instance_id process \<noteq> supervisorInstanceID
          then Inl ErrSupervisorIdentityMismatch else Inr process)"

text \<open>The database part of \<open>OpenSupervisor\<close>: whose tokens open a supervisor on a process.\<close>

definition OpenSupervisor ::
    "string \<Rightarrow> string \<Rightarrow> string \<Rightarrow> string \<Rightarrow> string \<Rightarrow> statedb \<Rightarrow> statedb_error + string \<times> string" where
  "OpenSupervisor installationID machineID processID supervisorInstanceID supervisorToken db =
     (if processID = [] \<or> supervisorInstanceID = [] \<or> supervisorToken = []
      then Inl (ErrNew ''process, supervisor instance ID, and supervisor token are required'')
      else bindE (verifyIdentity installationID machineID db) (\<lambda>_.
        case Store_Process processID db of
          None \<Rightarrow> Inl ErrSupervisorIdentityMismatch
        | Some process \<Rightarrow>
            if supervisor_instance_id process \<noteq> supervisorInstanceID
               \<or> supervisor_token process \<noteq> supervisorToken
            then Inl ErrSupervisorIdentityMismatch
            else Inr (processID, supervisorInstanceID)))"

definition updateProcess ::
    "string \<Rightarrow> (statedb \<Rightarrow> statedb_error + nat \<times> statedb) \<Rightarrow> statedb \<Rightarrow> statedb_error + statedb" where
  "updateProcess operation update db =
     (if operation = [] then Inl (ErrNew ''process state update requires an operation label'')
      else bindE (update db)
        (\<lambda>(count, db'). if count \<noteq> 1 then Inl ErrStateConflict else Inr db'))"

section \<open>The life of a process\<close>

definition ReserveProcess :: "process \<Rightarrow> statedb \<Rightarrow> statedb_error + statedb" where
  "ReserveProcess process db =
     (if process_id process = [] \<or> supervisor_instance_id process = [] \<or> supervisor_token process = []
      then Inl (ErrNew ''process, supervisor instance ID, and supervisor token are required'')
      else case GetProcessSupervisorIdentity (process_id process) db of
        Some (sid, token) \<Rightarrow>
          if sid = supervisor_instance_id process \<and> token = supervisor_token process
          then Inr db else Inl ErrProcessExists
      | None \<Rightarrow>
          InsertProcess (process_id process) (supervisor_instance_id process)
            (supervisor_token process) db)"

definition MarkPrepared :: "string \<Rightarrow> string \<Rightarrow> statedb \<Rightarrow> statedb_error + statedb" where
  "MarkPrepared processID supervisorInstanceID =
     updateProcess ''mark process prepared'' (MarkProcessPrepared processID supervisorInstanceID)"

definition MarkAccepted :: "string \<Rightarrow> string \<Rightarrow> statedb \<Rightarrow> statedb_error + statedb" where
  "MarkAccepted processID supervisorInstanceID =
     updateProcess ''mark process accepted'' (MarkProcessAccepted processID supervisorInstanceID)"

definition deleteProcessAfterArtifacts ::
    "string \<Rightarrow> string \<Rightarrow> bool \<Rightarrow> statedb \<Rightarrow> statedb_error + statedb" where
  "deleteProcessAfterArtifacts processID supervisorInstanceID accepted db =
     (case processTx processID db of
        None \<Rightarrow> Inr db
      | Some process \<Rightarrow>
          if supervisor_instance_id process \<noteq> supervisorInstanceID
          then Inl ErrSupervisorIdentityMismatch
          else
            let validPhase =
              (if accepted then phase process = ProcessAccepted \<or> phase process = ProcessTerminal
               else phase process = ProcessPreparing \<or> phase process = ProcessPrepared)
            in if \<not> validPhase then Inl ErrStateConflict
               else if \<not> accepted \<and> exec_committed process then Inl ErrStateConflict
               else Inr (DeleteProcess processID supervisorInstanceID db))"

definition DeleteRejectedPreparationAfterArtifacts ::
    "string \<Rightarrow> string \<Rightarrow> statedb \<Rightarrow> statedb_error + statedb" where
  "DeleteRejectedPreparationAfterArtifacts processID supervisorInstanceID =
     deleteProcessAfterArtifacts processID supervisorInstanceID False"

definition DeleteStorageExhaustedAfterArtifacts ::
    "string \<Rightarrow> string \<Rightarrow> statedb \<Rightarrow> statedb_error + statedb" where
  "DeleteStorageExhaustedAfterArtifacts processID supervisorInstanceID =
     deleteProcessAfterArtifacts processID supervisorInstanceID True"

definition AuthorizeSpawnOnce :: "string \<Rightarrow> string \<Rightarrow> statedb \<Rightarrow> statedb_error + bool \<times> statedb" where
  "AuthorizeSpawnOnce processID supervisorInstanceID db =
     bindE (AuthorizeProcessSpawn processID supervisorInstanceID db) (\<lambda>(count, db').
       if count = 1 then Inr (True, db')
       else case processTx processID db' of
         None \<Rightarrow> Inl ErrSupervisorIdentityMismatch
       | Some process \<Rightarrow>
           if supervisor_instance_id process \<noteq> supervisorInstanceID
           then Inl ErrSupervisorIdentityMismatch
           else if exec_committed process
                \<and> (phase process = ProcessAccepted \<or> phase process = ProcessTerminal)
           then Inr (False, db')
           else Inl ErrStateConflict)"

definition RecordSpawned ::
    "string \<Rightarrow> string \<Rightarrow> string \<Rightarrow> string \<Rightarrow> statedb \<Rightarrow> statedb_error + statedb" where
  "RecordSpawned processID supervisorInstanceID containmentKind containmentID db =
     (if containmentKind = [] \<or> containmentID = []
      then Inl (ErrNew ''spawned process containment identity is required'')
      else updateProcess ''record spawned process''
        (RecordProcessSpawned containmentKind containmentID processID supervisorInstanceID) db)"

definition closeActionAdmission :: "string \<Rightarrow> string \<Rightarrow> statedb \<Rightarrow> statedb_error + statedb" where
  "closeActionAdmission processID supervisorInstanceID =
     updateProcess ''close process action admission''
       (CloseProcessActionAdmission processID supervisorInstanceID)"

definition markContainmentEmpty :: "string \<Rightarrow> string \<Rightarrow> statedb \<Rightarrow> statedb_error + statedb" where
  "markContainmentEmpty processID supervisorInstanceID =
     updateProcess ''mark process containment empty''
       (MarkProcessContainmentEmpty processID supervisorInstanceID)"

definition markLocalClosed :: "string \<Rightarrow> string \<Rightarrow> statedb \<Rightarrow> statedb_error + statedb" where
  "markLocalClosed processID supervisorInstanceID db =
     (case processTx processID db of
        None \<Rightarrow> Inl ErrSupervisorIdentityMismatch
      | Some process \<Rightarrow>
          if supervisor_instance_id process \<noteq> supervisorInstanceID
          then Inl ErrSupervisorIdentityMismatch
          else if local_closed process then Inr db
          else if phase process \<noteq> ProcessTerminal \<or> \<not> action_admission_closed process
                  \<or> \<not> containment_empty process
          then Inl ErrClosureBlocked
          else if CountTerminalProcessReports processID db \<noteq> 1 then Inl ErrClosureBlocked
          else if CountUnresolvedProcessActions processID db \<noteq> 0 then Inl ErrClosureBlocked
          else MarkProcessLocalClosed processID supervisorInstanceID db)"

definition MarkServerReleased :: "string \<Rightarrow> string \<Rightarrow> statedb \<Rightarrow> statedb_error + statedb" where
  "MarkServerReleased processID supervisorInstanceID =
     updateProcess ''mark process server released''
       (MarkProcessServerReleased processID supervisorInstanceID)"

definition DeleteClosedAfterArtifacts :: "string \<Rightarrow> string \<Rightarrow> statedb \<Rightarrow> statedb_error + statedb" where
  "DeleteClosedAfterArtifacts processID supervisorInstanceID db =
     (case processTx processID db of
        None \<Rightarrow> Inr db
      | Some process \<Rightarrow>
          if supervisor_instance_id process \<noteq> supervisorInstanceID
          then Inl ErrSupervisorIdentityMismatch
          else if \<not> local_closed process \<or> \<not> server_released process then Inl ErrClosureBlocked
          else if CountProcessActions processID db \<noteq> 0 then Inl ErrClosureBlocked
          else if CountUnsettledProcessReports processID db \<noteq> 0 then Inl ErrClosureBlocked
          else Inr (DeleteProcess processID supervisorInstanceID db))"

section \<open>What an operation changes\<close>

text \<open>
  Every update of a single process row is \<open>touch\<close> for some function on the row: the row of one
  process under one supervisor changes, and nothing else does.
\<close>

definition touch :: "string \<Rightarrow> string \<Rightarrow> (process \<Rightarrow> process) \<Rightarrow> statedb \<Rightarrow> statedb" where
  "touch pid sid f db = db\<lparr>processes := update_where (owned pid sid) f (processes db)\<rparr>"

lemma touch_simps [simp]:
  "process_actions (touch pid sid f db) = process_actions db"
  "frozen_reports (touch pid sid f db) = frozen_reports db"
  "machine_identity (touch pid sid f db) = machine_identity db"
  "processes (touch pid sid f db) = update_where (owned pid sid) f (processes db)"
  by (simp_all add: touch_def)

lemma update_where_guard:
  assumes "schema_ok db" "p \<in> set (processes db)" "owned pid sid p" "Q p"
  shows "update_where (\<lambda>p. owned pid sid p \<and> Q p) f (processes db)
       = update_where (owned pid sid) f (processes db)"
  unfolding update_where_def
proof (rule map_cong)
  fix q assume "q \<in> set (processes db)"
  with assms have "owned pid sid q \<Longrightarrow> q = p" by (auto simp: owned_def intro: process_unique)
  with assms show "(if owned pid sid q \<and> Q q then f q else q) = (if owned pid sid q then f q else q)"
    by auto
qed simp

text \<open>A guarded single-row update either fails or touches the one row that met its guard.\<close>

lemma updateProcess_touch:
  assumes "schema_ok db"
    and upd: "updateProcess lbl (update_processes (\<lambda>p. owned pid sid p \<and> Q p) f) db = Inr db'"
  shows "\<exists>p \<in> set (processes db). owned pid sid p \<and> Q p \<and> db' = touch pid sid f db \<and> schema_ok db'"
proof -
  let ?P = "\<lambda>p. owned pid sid p \<and> Q p"
  from upd have db': "db' = db\<lparr>processes := update_where ?P f (processes db)\<rparr>" "schema_ok db'"
    and one: "count_where ?P (processes db) = Suc 0"
    by (auto simp: updateProcess_def update_processes_Inr split: if_splits prod.splits)
  from count_where_pos [OF one] obtain p where "p \<in> set (processes db)" "owned pid sid p" "Q p" by auto
  with db' update_where_guard [OF assms(1)] show ?thesis by (auto simp: touch_def)
qed

lemma update_processes_owned:
  "update_processes (owned pid sid) f db = Inr (n, db') \<longleftrightarrow>
     db' = touch pid sid f db \<and> schema_ok db' \<and> n = count_where (owned pid sid) (processes db)"
  by (auto simp: update_processes_Inr touch_def)

lemmas process_update_defs =
  MarkPrepared_def MarkProcessPrepared_def MarkAccepted_def MarkProcessAccepted_def
  RecordSpawned_def RecordProcessSpawned_def closeActionAdmission_def
  CloseProcessActionAdmission_def markContainmentEmpty_def MarkProcessContainmentEmpty_def

lemma MarkPreparedE:
  assumes "schema_ok db" "MarkPrepared pid sid db = Inr db'"
  obtains p where "p \<in> set (processes db)" "owned pid sid p"
    "phase p = ProcessPreparing \<or> phase p = ProcessPrepared" "\<not> local_closed p"
    "db' = touch pid sid (\<lambda>p. p\<lparr>phase := ProcessPrepared\<rparr>) db" "schema_ok db'"
  using updateProcess_touch [OF assms(1) assms(2) [unfolded MarkPrepared_def MarkProcessPrepared_def]]
  by blast

lemma MarkAcceptedE:
  assumes "schema_ok db" "MarkAccepted pid sid db = Inr db'"
  obtains p where "p \<in> set (processes db)" "owned pid sid p"
    "phase p = ProcessPrepared \<or> phase p = ProcessAccepted" "\<not> local_closed p" "\<not> server_released p"
    "db' = touch pid sid (\<lambda>p. p\<lparr>phase := ProcessAccepted\<rparr>) db" "schema_ok db'"
  using updateProcess_touch [OF assms(1) assms(2) [unfolded MarkAccepted_def MarkProcessAccepted_def]]
  by blast

lemma RecordSpawnedE:
  assumes "schema_ok db" "RecordSpawned pid sid k c db = Inr db'"
  obtains p where "k \<noteq> []" "c \<noteq> []" "p \<in> set (processes db)" "owned pid sid p"
    "phase p = ProcessAccepted \<or> phase p = ProcessTerminal" "exec_committed p" "\<not> local_closed p"
    "containment_kind p = [] \<or> containment_kind p = k" "containment_id p = [] \<or> containment_id p = c"
    "db' = touch pid sid (\<lambda>p. p\<lparr>containment_kind := k, containment_id := c\<rparr>) db" "schema_ok db'"
proof -
  from assms(2) have kc: "k \<noteq> []" "c \<noteq> []"
    and upd: "updateProcess ''record spawned process'' (RecordProcessSpawned k c pid sid) db = Inr db'"
    by (auto simp: RecordSpawned_def split: if_splits)
  show thesis
    using kc updateProcess_touch [OF assms(1) upd [unfolded RecordProcessSpawned_def]] that by blast
qed

lemma closeActionAdmissionE:
  assumes "schema_ok db" "closeActionAdmission pid sid db = Inr db'"
  obtains p where "p \<in> set (processes db)" "owned pid sid p"
    "phase p = ProcessAccepted \<or> phase p = ProcessTerminal"
    "db' = touch pid sid (\<lambda>p. p\<lparr>action_admission_closed := True\<rparr>) db" "schema_ok db'"
  using updateProcess_touch
    [OF assms(1) assms(2) [unfolded closeActionAdmission_def CloseProcessActionAdmission_def]]
  by blast

lemma markContainmentEmptyE:
  assumes "schema_ok db" "markContainmentEmpty pid sid db = Inr db'"
  obtains p where "p \<in> set (processes db)" "owned pid sid p"
    "phase p = ProcessAccepted \<or> phase p = ProcessTerminal"
    "db' = touch pid sid (\<lambda>p. p\<lparr>containment_empty := True\<rparr>) db" "schema_ok db'"
  using updateProcess_touch
    [OF assms(1) assms(2) [unfolded markContainmentEmpty_def MarkProcessContainmentEmpty_def]]
  by blast

lemma MarkServerReleasedE:
  assumes "schema_ok db" "MarkServerReleased pid sid db = Inr db'"
  obtains p where "p \<in> set (processes db)" "owned pid sid p"
    "db' = touch pid sid (\<lambda>p. p\<lparr>server_released := True\<rparr>) db" "schema_ok db'"
proof -
  from assms(2) have db': "db' = touch pid sid (\<lambda>p. p\<lparr>server_released := True\<rparr>) db" "schema_ok db'"
    and one: "count_where (owned pid sid) (processes db) = Suc 0"
    by (auto simp: MarkServerReleased_def MarkProcessServerReleased_def updateProcess_def
        update_processes_owned split: if_splits prod.splits)
  from count_where_pos [OF one] db' show thesis by (auto intro: that)
qed

lemma AuthorizeSpawnOnceE:
  assumes "schema_ok db" "AuthorizeSpawnOnce pid sid db = Inr (b, db')"
  obtains (first) p where "b" "p \<in> set (processes db)" "owned pid sid p" "phase p = ProcessAccepted"
      "\<not> exec_committed p" "\<not> local_closed p"
      "db' = touch pid sid (\<lambda>p. p\<lparr>exec_committed := True\<rparr>) db" "schema_ok db'"
  | (again) p where "\<not> b" "p \<in> set (processes db)" "owned pid sid p" "exec_committed p" "db' = db"
proof -
  let ?Q = "\<lambda>p. phase p = ProcessAccepted \<and> \<not> exec_committed p \<and> \<not> local_closed p"
  let ?P = "\<lambda>p. owned pid sid p \<and> ?Q p"
  let ?f = "\<lambda>p. p\<lparr>exec_committed := True\<rparr>"
  from assms(2) obtain n db1 where
      auth: "update_processes ?P ?f db = Inr (n, db1)"
    and rest: "(if n = 1 then Inr (True, db1)
       else case processTx pid db1 of
         None \<Rightarrow> Inl ErrSupervisorIdentityMismatch
       | Some process \<Rightarrow>
           if supervisor_instance_id process \<noteq> sid then Inl ErrSupervisorIdentityMismatch
           else if exec_committed process
                \<and> (phase process = ProcessAccepted \<or> phase process = ProcessTerminal)
           then Inr (False, db1) else Inl ErrStateConflict) = Inr (b, db')"
    by (auto simp: AuthorizeSpawnOnce_def AuthorizeProcessSpawn_def split: prod.splits)
  have n: "n = count_where ?P (processes db)"
    and db1: "db1 = db\<lparr>processes := update_where ?P ?f (processes db)\<rparr>" "schema_ok db1"
    using auth by (auto simp: update_processes_Inr)
  show thesis
  proof (cases "n = 1")
    case True
    then have one: "count_where ?P (processes db) = Suc 0" using n by simp
    from count_where_pos [OF one] obtain p where p: "p \<in> set (processes db)" "owned pid sid p" "?Q p"
      by blast
    then have "update_where ?P ?f (processes db) = update_where (owned pid sid) ?f (processes db)"
      by (rule update_where_guard [OF assms(1)])
    then have "db1 = touch pid sid ?f db" using db1(1) by (simp only: touch_def)
    moreover have "b" "db' = db1" using True rest by simp_all
    ultimately show thesis using p db1(2) by (intro first [of p]) simp_all
  next
    case False
    moreover have "n \<le> 1" using n count_owned_le [OF assms(1), of pid sid ?Q] by (simp only:)
    ultimately have "n = 0" by linarith
    then have none: "\<forall>p \<in> set (processes db). \<not> ?P p" using n by simp
    then have "update_where ?P ?f (processes db) = processes db" by (intro update_where_none) auto
    with db1 have "db1 = db" by simp
    with False rest show thesis
      by (auto simp: processTx_def owned_def dest!: GetProcess_SomeD split: option.splits if_splits
          intro: again)
  qed
qed

lemma markLocalClosedE:
  assumes "schema_ok db" "markLocalClosed pid sid db = Inr db'"
  obtains (already) p where "p \<in> set (processes db)" "owned pid sid p" "local_closed p" "db' = db"
  | (closes) p where "p \<in> set (processes db)" "owned pid sid p" "\<not> local_closed p"
      "phase p = ProcessTerminal" "action_admission_closed p" "containment_empty p"
      "\<exists>r \<in> set (frozen_reports db). report_process_id r = pid \<and> report_action_id r = None
         \<and> report_kind r = ReportProcessTerminal"
      "\<forall>a \<in> set (process_actions db). action_process_id a = pid \<longrightarrow>
         (\<exists>r \<in> set (frozen_reports db). report_action_id r = Some (action_id a))"
      "db' = touch pid sid (\<lambda>p. p\<lparr>local_closed := True\<rparr>) db" "schema_ok db'"
proof -
  from assms(2) obtain p where p: "processTx pid db = Some p" "supervisor_instance_id p = sid"
    by (auto simp: markLocalClosed_def split: option.splits if_splits)
  then have mem: "p \<in> set (processes db)" "owned pid sid p"
    by (auto simp: processTx_def owned_def dest: GetProcess_SomeD)
  show thesis
  proof (cases "local_closed p")
    case True
    with p assms(2) have "db' = db" by (simp add: markLocalClosed_def)
    with True mem show thesis by (intro already)
  next
    case False
    with p assms(2) have
      one: "CountTerminalProcessReports pid db = Suc 0" and
      none: "CountUnresolvedProcessActions pid db = 0" and
      ok: "phase p = ProcessTerminal" "action_admission_closed p" "containment_empty p" and
      upd: "MarkProcessLocalClosed pid sid db = Inr db'"
      by (auto simp: markLocalClosed_def split: if_splits)
    have "\<exists>r \<in> set (frozen_reports db). report_process_id r = pid \<and> report_action_id r = None
         \<and> report_kind r = ReportProcessTerminal"
      using count_where_pos [OF one [unfolded CountTerminalProcessReports_def]] by auto
    moreover have "\<forall>a \<in> set (process_actions db). action_process_id a = pid \<longrightarrow>
         (\<exists>r \<in> set (frozen_reports db). report_action_id r = Some (action_id a))"
      using none by (auto simp: CountUnresolvedProcessActions_def list_ex_iff)
    moreover have "db' = touch pid sid (\<lambda>p. p\<lparr>local_closed := True\<rparr>) db" "schema_ok db'"
      using upd by (auto simp: MarkProcessLocalClosed_def update_processes_owned)
    ultimately show thesis using False mem ok by (intro closes)
  qed
qed

lemma ReserveProcessE:
  assumes "ReserveProcess q db = Inr db'"
  obtains (same) "db' = db"
  | (fresh) "process_id q \<notin> process_id ` set (processes db)"
      "db' = db\<lparr>processes := processes db @
         [\<lparr>process_id = process_id q, supervisor_instance_id = supervisor_instance_id q,
           supervisor_token = supervisor_token q, phase = ProcessPreparing,
           resolved_action_seq = 0, exec_committed = False, containment_kind = [],
           containment_id = [], containment_empty = False, action_admission_closed = False,
           local_closed = False, server_released = False\<rparr>]\<rparr>" "schema_ok db'"
proof (cases "GetProcessSupervisorIdentity (process_id q) db")
  case None
  then have "process_id q \<notin> process_id ` set (processes db)"
    by (auto simp: GetProcessSupervisorIdentity_def find_None_iff)
  with None assms show thesis
    by (intro fresh) (auto simp: ReserveProcess_def InsertProcess_def split: if_splits)
next
  case (Some i)
  with assms show thesis by (intro same) (auto simp: ReserveProcess_def split: if_splits prod.splits)
qed

lemma deleteProcessAfterArtifactsE:
  assumes "deleteProcessAfterArtifacts pid sid acc db = Inr db'"
  obtains (absent) "GetProcess pid db = None" "db' = db"
  | (deleted) p where "p \<in> set (processes db)" "owned pid sid p"
      "if acc then phase p \<in> {ProcessAccepted, ProcessTerminal}
       else phase p \<in> {ProcessPreparing, ProcessPrepared} \<and> \<not> exec_committed p"
      "db' = delete_processes (owned pid sid) db"
proof (cases "GetProcess pid db")
  case None
  with assms show thesis by (intro absent) (auto simp: deleteProcessAfterArtifacts_def processTx_def)
next
  case (Some p)
  with assms show thesis
    by (intro deleted [of p])
      (auto simp: deleteProcessAfterArtifacts_def processTx_def owned_def DeleteProcess_def Let_def
        dest: GetProcess_SomeD split: if_splits)
qed

lemma DeleteClosedAfterArtifactsE:
  assumes "DeleteClosedAfterArtifacts pid sid db = Inr db'"
  obtains (absent) "GetProcess pid db = None" "db' = db"
  | (deleted) p where "p \<in> set (processes db)" "owned pid sid p" "local_closed p" "server_released p"
      "\<forall>a \<in> set (process_actions db). action_process_id a \<noteq> pid"
      "\<forall>r \<in> set (frozen_reports db). report_process_id r = pid \<longrightarrow> report_state r = ReportAcknowledged"
      "db' = delete_processes (owned pid sid) db"
proof (cases "GetProcess pid db")
  case None
  with assms show thesis by (intro absent) (auto simp: DeleteClosedAfterArtifacts_def processTx_def)
next
  case (Some p)
  with assms show thesis
    by (intro deleted [of p])
      (auto simp: DeleteClosedAfterArtifacts_def processTx_def owned_def DeleteProcess_def
        CountProcessActions_def CountUnsettledProcessReports_def
        dest: GetProcess_SomeD split: if_splits)
qed

end
