(* ===== verification/StateDB_Freeze.thy ===== *)
theory StateDB_Freeze
  imports StateDB_Process
begin

text \<open>
  Freezing evidence (\<open>statedb/report.go\<close>): validation of a report's body, the lookup of the slot a
  report takes, and \<open>freezeReportTx\<close>, which stores a report in its slot or recognises that the slot
  already holds the same bytes.

  The JSON encoding of a reported event is a parameter, the record \<open>report_codec\<close>: what
  \<open>json.Unmarshal\<close> reads from a body and from the \<open>result\<close> member, and the bytes \<open>json.Marshal\<close>
  gives for the wire message.  \<open>None\<close> is an error of the codec.  No law about the codec is assumed.
  \<open>newReportID\<close> draws a random identifier, so the drawn value is an argument.
\<close>

section \<open>Codec and validation\<close>

record report_codec =
  unmarshal_event :: "bytes \<Rightarrow> reported_event option"
  unmarshal_observation :: "bytes \<Rightarrow> string option option"
  marshal_report :: "string \<Rightarrow> reported_event \<Rightarrow> bytes option"

definition maxFrozenReportBytes :: nat where
  "maxFrozenReportBytes = MaxMessageBytes"

definition validTerminalActionEvent :: "reported_event_type \<Rightarrow> bool" where
  "validTerminalActionEvent eventType =
     (case eventType of
        EventProcessActionApplied \<Rightarrow> True
      | EventProcessActionFailed \<Rightarrow> True
      | EventProcessActionUnknown \<Rightarrow> True
      | _ \<Rightarrow> False)"

text \<open>The \<open>switch report.Kind\<close> of \<open>validateReport\<close>.\<close>

definition validateReportKind :: "report_kind \<Rightarrow> reported_event \<Rightarrow> statedb_error + unit" where
  "validateReportKind kind event =
     (case kind of
        ReportProcessStarted \<Rightarrow>
          if event_type event \<noteq> EventProcessStarted \<or> time_is_zero (event_started_at event)
             \<or> time_is_zero (event_observed_at event)
             \<or> time_after (event_started_at event) (event_observed_at event)
          then Inl (ErrNew ''process-started report requires ordered started_at and observed_at'')
          else Inr ()
      | ReportProcessTerminal \<Rightarrow>
          if event_type event \<noteq> EventProcessFinished \<or> \<not> time_is_zero (event_observed_at event)
             \<or> \<not> ValidProcessTerminalSourceTimes (event_state event) (event_started_at event)
                   (event_ended_at event)
          then Inl (ErrNew ''process-terminal report has invalid terminal source evidence'')
          else if (event_state event = ProcessStateFailed \<or> event_state event = ProcessStateUnknown)
             \<and> event_state_reason_code event = []
          then Inl (ErrNew ''failed or unknown process report requires a reason'')
          else Inr ()
      | ReportActionTerminal \<Rightarrow>
          if \<not> validTerminalActionEvent (event_type event) \<or> \<not> time_is_zero (event_observed_at event)
          then Inl (ErrNew ''action-terminal report requires a terminal event'')
          else if event_type event \<noteq> EventProcessActionApplied \<and> event_state_reason_code event = []
          then Inl (ErrNew ''non-applied action report requires a reason'')
          else Inr ()
      | ReportKindOther _ \<Rightarrow> Inl (ErrNew ''unsupported frozen report kind''))"

text \<open>The check of the optional observation in \<open>event.Result\<close>, the end of \<open>validateReport\<close>.\<close>

definition validateReportResult :: "report_codec \<Rightarrow> bytes \<Rightarrow> statedb_error + unit" where
  "validateReportResult codec result =
     (if result = [] \<or> result = ''null'' then Inr ()
      else case unmarshal_observation codec result of
        None \<Rightarrow> Inl (ErrNew ''decode frozen report result'')
      | Some None \<Rightarrow> Inr ()
      | Some (Some output) \<Rightarrow>
          if MaxObservationBytes < length output
          then Inl (ErrNew ''frozen process output exceeds maximum'') else Inr ())"

definition validateReport :: "report_codec \<Rightarrow> report \<Rightarrow> statedb_error + unit" where
  "validateReport codec report =
     (if ProcessID report = [] \<or> Kind report = ReportKindOther [] \<or> Body report = []
      then Inl (ErrNew ''report process, kind, and body are required'')
      else if maxFrozenReportBytes < length (Body report)
      then Inl (ErrNew ''frozen report exceeds maximum'')
      else if Kind report = ReportActionTerminal \<and> ActionID report = []
      then Inl (ErrNew ''action-terminal report requires an action'')
      else if Kind report \<noteq> ReportActionTerminal \<and> ActionID report \<noteq> []
      then Inl (ErrNew ''process report cannot name an action'')
      else case unmarshal_event codec (Body report) of
        None \<Rightarrow> Inl (ErrNew ''decode frozen report body'')
      | Some event \<Rightarrow>
          if event_process_id event \<noteq> ProcessID report
             \<or> event_process_action_id event \<noteq> ActionID report
          then Inl (ErrNew ''frozen report body identity does not match its slot'')
          else bindE (validateReportKind (Kind report) event) (\<lambda>_.
            validateReportResult codec (event_result event)))"

definition validateReportWireEnvelope :: "report_codec \<Rightarrow> report \<Rightarrow> statedb_error + unit" where
  "validateReportWireEnvelope codec report =
     (case unmarshal_event codec (Body report) of
        None \<Rightarrow> Inl (ErrNew ''decode frozen report for wire validation'')
      | Some event \<Rightarrow>
          (case marshal_report codec (ID report) event of
             None \<Rightarrow> Inl (ErrNew ''encode frozen report for wire validation'')
           | Some body \<Rightarrow>
               if MaxMessageBytes < length body
               then Inl (ErrNew ''frozen report envelope exceeds maximum'') else Inr ()))"

section \<open>Slots\<close>

definition reportFromSQLC :: "frozen_report \<Rightarrow> report" where
  "reportFromSQLC row =
     \<lparr>ID = report_id row, ProcessID = report_process_id row,
      ActionID = (case report_action_id row of None \<Rightarrow> [] | Some a \<Rightarrow> a),
      Kind = report_kind row, Body = report_body row, State = report_state row,
      ErrorCode = report_error_code row, Error = report_error row\<rparr>"

definition sameReportContent :: "report \<Rightarrow> report \<Rightarrow> bool" where
  "sameReportContent left right \<longleftrightarrow>
     ProcessID left = ProcessID right \<and> ActionID left = ActionID right
   \<and> Kind left = Kind right \<and> Body left = Body right"

definition reportBySlotTx :: "report_kind \<Rightarrow> string \<Rightarrow> string \<Rightarrow> statedb \<Rightarrow> report option" where
  "reportBySlotTx kind processID actionID db =
     map_option reportFromSQLC
       (if actionID = [] then GetFrozenProcessReportBySlot processID kind db
        else GetFrozenActionReportBySlot processID actionID kind db)"

definition ReportBySlot :: "report_kind \<Rightarrow> string \<Rightarrow> string \<Rightarrow> statedb \<Rightarrow> report option" where
  "ReportBySlot kind processID actionID db =
     (if actionID = [] then map_option reportFromSQLC (GetFrozenProcessReportBySlot processID kind db)
      else map_option reportFromSQLC (GetFrozenActionReportBySlot processID actionID kind db))"

definition reportByActionTx :: "string \<Rightarrow> statedb \<Rightarrow> report option" where
  "reportByActionTx actionID db = map_option reportFromSQLC (GetFrozenReportByAction actionID db)"

definition null_string :: "string \<Rightarrow> string option" where
  "null_string s = (if s = [] then None else Some s)"

definition empty_report :: report where
  "empty_report =
     \<lparr>ID = [], ProcessID = [], ActionID = [], Kind = ReportKindOther [], Body = [],
      State = ReportStateOther [], ErrorCode = [], Error = []\<rparr>"

section \<open>Freezing\<close>

definition freezeReportTx ::
    "report_codec \<Rightarrow> string \<Rightarrow> report \<Rightarrow> statedb \<Rightarrow> statedb_error + report \<times> statedb" where
  "freezeReportTx codec newID report db =
     bindE (validateReport codec report) (\<lambda>_.
       case reportBySlotTx (Kind report) (ProcessID report) (ActionID report) db of
         Some existing \<Rightarrow>
           if sameReportContent existing report then Inr (existing, db) else Inl ErrStateConflict
       | None \<Rightarrow>
           if ID report \<noteq> [] \<or> State report \<noteq> ReportStateOther [] \<or> ErrorCode report \<noteq> []
              \<or> Error report \<noteq> []
           then Inl (ErrNew ''a new frozen report cannot supply local persistence state'')
           else
             let frozen = report\<lparr>ID := newID, State := ReportPending\<rparr>
             in if \<not> is_ok (validateReportWireEnvelope codec frozen) then Inl ErrStateConflict
                else bindE (InsertFrozenReport (ID frozen) (ProcessID frozen)
                       (null_string (ActionID frozen)) (Kind frozen) (Body frozen) db)
                     (\<lambda>db'. Inr (frozen, db')))"

definition FreezeStartedReport ::
    "report_codec \<Rightarrow> string \<Rightarrow> string \<Rightarrow> string \<Rightarrow> report \<Rightarrow> statedb \<Rightarrow> statedb_error + report \<times> statedb" where
  "FreezeStartedReport codec newID processID supervisorInstanceID report db =
     (if Kind report \<noteq> ReportProcessStarted \<or> ProcessID report \<noteq> processID \<or> ActionID report \<noteq> []
      then Inl (ErrNew ''invalid process-started report'')
      else case processTx processID db of
        None \<Rightarrow> Inl ErrSupervisorIdentityMismatch
      | Some process \<Rightarrow>
          if supervisor_instance_id process \<noteq> supervisorInstanceID
          then Inl ErrSupervisorIdentityMismatch
          else if (phase process \<noteq> ProcessAccepted \<and> phase process \<noteq> ProcessTerminal)
               \<or> \<not> exec_committed process \<or> containment_kind process = []
          then Inl ErrStateConflict
          else freezeReportTx codec newID report db)"

definition freezeTerminalReport ::
    "report_codec \<Rightarrow> string \<Rightarrow> string \<Rightarrow> string \<Rightarrow> report \<Rightarrow> statedb \<Rightarrow> statedb_error + report \<times> statedb" where
  "freezeTerminalReport codec newID processID supervisorInstanceID report db =
     (if Kind report \<noteq> ReportProcessTerminal \<or> ProcessID report \<noteq> processID \<or> ActionID report \<noteq> []
      then Inl (ErrNew ''invalid process-terminal report'')
      else case processTx processID db of
        None \<Rightarrow> Inl ErrSupervisorIdentityMismatch
      | Some process \<Rightarrow>
          if supervisor_instance_id process \<noteq> supervisorInstanceID
          then Inl ErrSupervisorIdentityMismatch
          else if phase process \<noteq> ProcessAccepted \<and> phase process \<noteq> ProcessTerminal
          then Inl ErrStateConflict
          else bindE (freezeReportTx codec newID report db) (\<lambda>(frozen, db1).
            bindE (SetProcessTerminal processID supervisorInstanceID db1) (\<lambda>db2.
              Inr (frozen, db2))))"

section \<open>What freezing does\<close>

text \<open>The row a frozen report becomes.\<close>

definition frozen_row :: "string \<Rightarrow> report \<Rightarrow> frozen_report" where
  "frozen_row rid report =
     \<lparr>report_id = rid, report_process_id = ProcessID report,
      report_action_id = null_string (ActionID report), report_kind = Kind report,
      report_body = Body report, report_state = ReportPending, report_error_code = [],
      report_error = []\<rparr>"

definition with_report :: "frozen_report \<Rightarrow> statedb \<Rightarrow> statedb" where
  "with_report r db = db\<lparr>frozen_reports := frozen_reports db @ [r]\<rparr>"

lemma with_report_simps [simp]:
  "processes (with_report r db) = processes db"
  "process_actions (with_report r db) = process_actions db"
  "machine_identity (with_report r db) = machine_identity db"
  "set (frozen_reports (with_report r db)) = insert r (set (frozen_reports db))"
  by (auto simp: with_report_def)

lemma frozen_row_simps [simp]:
  "report_id (frozen_row rid q) = rid" "report_process_id (frozen_row rid q) = ProcessID q"
  "report_action_id (frozen_row rid q) = null_string (ActionID q)"
  "report_kind (frozen_row rid q) = Kind q" "report_body (frozen_row rid q) = Body q"
  "report_state (frozen_row rid q) = ReportPending"
  by (simp_all add: frozen_row_def)

lemma null_string_simps [simp]:
  "null_string s = None \<longleftrightarrow> s = []" "null_string s = Some t \<longleftrightarrow> t = s \<and> s \<noteq> []"
  by (auto simp: null_string_def)

lemma validateReport_action:
  "validateReport codec q = Inr u \<Longrightarrow> Kind q = ReportActionTerminal \<longleftrightarrow> ActionID q \<noteq> []"
  by (auto simp: validateReport_def split: if_splits)

lemma validateReport_fields:
  "validateReport codec q = Inr u \<Longrightarrow>
     ProcessID q \<noteq> [] \<and> Body q \<noteq> [] \<and> length (Body q) \<le> MaxMessageBytes
   \<and> Kind q \<in> {ReportProcessStarted, ReportProcessTerminal, ReportActionTerminal}"
  by (cases "Kind q")
    (auto simp: validateReport_def validateReportKind_def maxFrozenReportBytes_def
      split: if_splits option.splits)

text \<open>
  A freeze that succeeds either found the same evidence in the slot and changed nothing, or found
  the slot empty and appended exactly one pending row carrying the report's bytes.
\<close>

lemma freezeReportTxE:
  assumes "schema_ok db" "freezeReportTx codec rid q db = Inr (res, db')"
  obtains (existing) r where "validateReport codec q = Inr ()" "r \<in> set (frozen_reports db)"
      "res = reportFromSQLC r" "report_process_id r = ProcessID q"
      "report_action_id r = null_string (ActionID q)" "report_kind r = Kind q"
      "report_body r = Body q" "db' = db"
  | (stored) "validateReport codec q = Inr ()"
      "reportBySlotTx (Kind q) (ProcessID q) (ActionID q) db = None"
      "res = q\<lparr>ID := rid, State := ReportPending\<rparr>" "ErrorCode q = []" "Error q = []"
      "db' = with_report (frozen_row rid q) db" "schema_ok db'"
proof (cases "reportBySlotTx (Kind q) (ProcessID q) (ActionID q) db")
  case None
  with assms show thesis
    by (intro stored)
      (auto simp: freezeReportTx_def InsertFrozenReport_def with_report_def frozen_row_def Let_def
        split: if_splits)
next
  case (Some e)
  with assms have same: "sameReportContent e q" "res = e" "db' = db" "validateReport codec q = Inr ()"
    by (auto simp: freezeReportTx_def split: if_splits)
  from Some obtain r where "r \<in> set (frozen_reports db)" "e = reportFromSQLC r"
    "report_process_id r = ProcessID q" "report_action_id r = null_string (ActionID q)"
    "report_kind r = Kind q"
    by (auto simp: reportBySlotTx_def GetFrozenProcessReportBySlot_def
        GetFrozenActionReportBySlot_def null_string_def dest!: find_SomeD split: if_splits)
  with same show thesis by (intro existing) (auto simp: sameReportContent_def reportFromSQLC_def)
qed

lemma freezeReportTx_has_report:
  assumes "schema_ok db" "freezeReportTx codec rid q db = Inr (res, db')"
  shows "\<exists>r \<in> set (frozen_reports db'). report_process_id r = ProcessID q
      \<and> report_action_id r = null_string (ActionID q) \<and> report_kind r = Kind q
      \<and> report_body r = Body q"
  using assms by (cases rule: freezeReportTxE) auto

lemma freezeReportTx_frame:
  assumes "schema_ok db" "freezeReportTx codec rid q db = Inr (res, db')"
  shows "processes db' = processes db" "process_actions db' = process_actions db"
    and "machine_identity db' = machine_identity db" "schema_ok db'"
    and "set (frozen_reports db) \<subseteq> set (frozen_reports db')"
  using assms by (cases rule: freezeReportTxE; auto)+

lemma SetProcessTerminal_Inr:
  "SetProcessTerminal pid sid db = Inr db' \<longleftrightarrow>
     db' = touch pid sid (\<lambda>p. p\<lparr>phase := ProcessTerminal, action_admission_closed := True\<rparr>) db
   \<and> schema_ok db'"
  by (auto simp: SetProcessTerminal_def update_processes_owned)

lemma FreezeStartedReportE:
  assumes "FreezeStartedReport codec rid pid sid q db = Inr (res, db')"
  obtains p where "p \<in> set (processes db)" "owned pid sid p" "Kind q = ReportProcessStarted"
    "ProcessID q = pid" "ActionID q = []" "phase p = ProcessAccepted \<or> phase p = ProcessTerminal"
    "exec_committed p" "containment_kind p \<noteq> []" "freezeReportTx codec rid q db = Inr (res, db')"
  using assms
  by (auto simp: FreezeStartedReport_def processTx_def owned_def dest: GetProcess_SomeD
      split: if_splits option.splits)

lemma freezeTerminalReportE:
  assumes "freezeTerminalReport codec rid pid sid q db = Inr (res, db')"
  obtains p db1 where "p \<in> set (processes db)" "owned pid sid p" "Kind q = ReportProcessTerminal"
    "ProcessID q = pid" "ActionID q = []" "phase p = ProcessAccepted \<or> phase p = ProcessTerminal"
    "freezeReportTx codec rid q db = Inr (res, db1)"
    "db' = touch pid sid (\<lambda>p. p\<lparr>phase := ProcessTerminal, action_admission_closed := True\<rparr>) db1"
    "schema_ok db'"
  using assms
  by (auto simp: freezeTerminalReport_def processTx_def owned_def SetProcessTerminal_Inr
      dest: GetProcess_SomeD split: if_splits option.splits)

end
