(* ===== verification/StateDB_Action.thy ===== *)
theory StateDB_Action
  imports StateDB_Freeze
begin

text \<open>
  The action operations of the state database (\<open>statedb/action.go\<close>): \<open>ApplyOnce\<close>, which decides
  whether an action's effect may be carried out now, \<open>RecordActionWithoutEffect\<close>, which settles an
  action that will never be carried out, and the freezing of an action's evidence.  Sequence
  arithmetic is \<open>int64\<close> arithmetic with its wrap-around.
\<close>

section \<open>Decisions\<close>

datatype apply_decision =
    ApplyExecute | ApplyAlreadyReported | ApplyOutcomeUnknown | ApplyAlreadyResolved
  | ApplyBlocked | ApplyAdmissionClosed

datatype no_effect_decision =
    NoEffectRecorded | NoEffectAlreadyReported | NoEffectLostToApply | NoEffectAlreadyResolved
  | NoEffectBlocked | NoEffectAdmissionClosed

section \<open>Reading and checking\<close>

definition Store_Action :: "string \<Rightarrow> statedb \<Rightarrow> action option" where
  "Store_Action actionID db = GetProcessAction actionID db"

definition Store_Actions :: "string \<Rightarrow> statedb \<Rightarrow> action list" where
  "Store_Actions processID db = ListProcessActions processID db"

definition actionTx :: "string \<Rightarrow> statedb \<Rightarrow> action option" where
  "actionTx actionID db = GetProcessAction actionID db"

definition validateAction :: "action \<Rightarrow> string \<Rightarrow> statedb_error + unit" where
  "validateAction action processID =
     (if action_id action = [] \<or> action_process_id action \<noteq> processID \<or> action_seq action \<le> 0
      then Inl (ErrNew ''complete action identity is required'')
      else case action_kind action of
        ProcessActionWrite \<Rightarrow> Inr ()
      | ProcessActionInterrupt \<Rightarrow> Inr ()
      | ProcessActionTerminate \<Rightarrow> Inr ()
      | _ \<Rightarrow> Inl (ErrNew ''unsupported process action kind''))"

definition validateActionReportInput :: "report \<Rightarrow> string \<Rightarrow> string \<Rightarrow> statedb_error + unit" where
  "validateActionReportInput report processID actionID =
     (if ProcessID report \<noteq> processID \<or> ActionID report \<noteq> actionID
         \<or> Kind report \<noteq> ReportActionTerminal
      then Inl (ErrNew ''invalid action-terminal report'') else Inr ())"

definition sameActionIdentity :: "action \<Rightarrow> action \<Rightarrow> bool" where
  "sameActionIdentity left right \<longleftrightarrow>
     action_id left = action_id right \<and> action_process_id left = action_process_id right
   \<and> action_kind left = action_kind right \<and> action_seq left = action_seq right"

definition loadActionTransitionTx ::
    "string \<Rightarrow> string \<Rightarrow> action \<Rightarrow> statedb \<Rightarrow> statedb_error + process \<times> action option" where
  "loadActionTransitionTx processID supervisorInstanceID action db =
     (case processTx processID db of
        None \<Rightarrow> Inl ErrSupervisorIdentityMismatch
      | Some process \<Rightarrow>
          if supervisor_instance_id process \<noteq> supervisorInstanceID
          then Inl ErrSupervisorIdentityMismatch
          else case actionTx (action_id action) db of
            None \<Rightarrow> Inr (process, None)
          | Some existing \<Rightarrow>
              if \<not> sameActionIdentity existing action then Inl ErrStateConflict
              else Inr (process, Some existing))"

definition ensureActionSequenceUnused :: "string \<Rightarrow> int \<Rightarrow> statedb \<Rightarrow> statedb_error + unit" where
  "ensureActionSequenceUnused processID seq db =
     (case GetProcessActionIDBySequence processID seq db of
        None \<Rightarrow> Inr ()
      | Some _ \<Rightarrow> Inl ErrStateConflict)"

definition compactMissingActionPrefixTx ::
    "process \<Rightarrow> int \<Rightarrow> statedb \<Rightarrow> statedb_error + process \<times> statedb" where
  "compactMissingActionPrefixTx process nextSeq db =
     (if nextSeq \<le> wrap64 (resolved_action_seq process + 1) then Inr (process, db)
      else if CountProcessActionsBetween (process_id process) (resolved_action_seq process) nextSeq db \<noteq> 0
      then Inl ErrActionBlocked
      else bindE (CompactMissingActionPrefix (wrap64 (nextSeq - 1)) (process_id process)
             (supervisor_instance_id process) (resolved_action_seq process) db)
           (\<lambda>db'. Inr (process\<lparr>resolved_action_seq := wrap64 (nextSeq - 1)\<rparr>, db')))"

section \<open>Deciding an action\<close>

definition ApplyOnce ::
    "string \<Rightarrow> string \<Rightarrow> action \<Rightarrow> statedb \<Rightarrow> statedb_error + (apply_decision \<times> report) \<times> statedb" where
  "ApplyOnce processID supervisorInstanceID action db =
     bindE (validateAction action processID) (\<lambda>_.
     bindE (loadActionTransitionTx processID supervisorInstanceID action db) (\<lambda>(process, found).
       case found of
         Some existing \<Rightarrow>
           (case reportByActionTx (action_id action) db of
              Some report \<Rightarrow> Inr ((ApplyAlreadyReported, report), db)
            | None \<Rightarrow>
                if effect_committed existing then Inr ((ApplyOutcomeUnknown, empty_report), db)
                else Inl ErrStateConflict)
       | None \<Rightarrow>
           if action_seq action \<le> resolved_action_seq process
           then Inr ((ApplyAlreadyResolved, empty_report), db)
           else case compactMissingActionPrefixTx process (action_seq action) db of
             Inl e \<Rightarrow> if e = ErrActionBlocked then Inr ((ApplyBlocked, empty_report), db) else Inl e
           | Inr (process1, db1) \<Rightarrow>
               if action_seq action \<noteq> wrap64 (resolved_action_seq process1 + 1)
               then Inr ((ApplyBlocked, empty_report), db1)
               else if local_closed process1 \<or> action_admission_closed process1
                 \<or> phase process1 \<noteq> ProcessAccepted \<or> \<not> exec_committed process1
                 \<or> containment_kind process1 = []
               then Inr ((ApplyAdmissionClosed, empty_report), db1)
               else bindE (ensureActionSequenceUnused (action_process_id action)
                      (action_seq action) db1) (\<lambda>_.
                    bindE (InsertProcessAction (action_id action) (action_process_id action)
                      (action_kind action) (action_seq action) True db1) (\<lambda>db2.
                    Inr ((ApplyExecute, empty_report), db2)))))"

definition RecordActionWithoutEffect ::
    "report_codec \<Rightarrow> string \<Rightarrow> string \<Rightarrow> string \<Rightarrow> action \<Rightarrow> report \<Rightarrow> statedb
       \<Rightarrow> statedb_error + (no_effect_decision \<times> report) \<times> statedb" where
  "RecordActionWithoutEffect codec newID processID supervisorInstanceID action report db =
     bindE (validateAction action processID) (\<lambda>_.
     bindE (validateActionReportInput report processID (action_id action)) (\<lambda>_.
     bindE (loadActionTransitionTx processID supervisorInstanceID action db) (\<lambda>(process, found).
       case found of
         Some existing \<Rightarrow>
           (case reportByActionTx (action_id action) db of
              Some existingReport \<Rightarrow> Inr ((NoEffectAlreadyReported, existingReport), db)
            | None \<Rightarrow>
                if effect_committed existing then Inr ((NoEffectLostToApply, empty_report), db)
                else Inl ErrStateConflict)
       | None \<Rightarrow>
           if action_seq action \<le> resolved_action_seq process
           then Inr ((NoEffectAlreadyResolved, empty_report), db)
           else case compactMissingActionPrefixTx process (action_seq action) db of
             Inl e \<Rightarrow> if e = ErrActionBlocked then Inr ((NoEffectBlocked, empty_report), db) else Inl e
           | Inr (process1, db1) \<Rightarrow>
               if action_seq action \<noteq> wrap64 (resolved_action_seq process1 + 1)
               then Inr ((NoEffectBlocked, empty_report), db1)
               else if local_closed process1
                 \<or> (phase process1 \<noteq> ProcessAccepted \<and> phase process1 \<noteq> ProcessTerminal)
               then Inr ((NoEffectAdmissionClosed, empty_report), db1)
               else bindE (ensureActionSequenceUnused (action_process_id action)
                      (action_seq action) db1) (\<lambda>_.
                    bindE (InsertProcessAction (action_id action) (action_process_id action)
                      (action_kind action) (action_seq action) False db1) (\<lambda>db2.
                    bindE (freezeReportTx codec newID report db2) (\<lambda>(frozen, db3).
                    Inr ((NoEffectRecorded, frozen), db3)))))))"

definition freezeActionReport ::
    "report_codec \<Rightarrow> string \<Rightarrow> string \<Rightarrow> string \<Rightarrow> string \<Rightarrow> report \<Rightarrow> statedb
       \<Rightarrow> statedb_error + report \<times> statedb" where
  "freezeActionReport codec newID processID supervisorInstanceID actionID report db =
     bindE (validateActionReportInput report processID actionID) (\<lambda>_.
       case processTx processID db of
         None \<Rightarrow> Inl ErrSupervisorIdentityMismatch
       | Some process \<Rightarrow>
           if supervisor_instance_id process \<noteq> supervisorInstanceID
           then Inl ErrSupervisorIdentityMismatch
           else case actionTx actionID db of
             None \<Rightarrow> Inl ErrSupervisorIdentityMismatch
           | Some action \<Rightarrow>
               if action_process_id action \<noteq> processID then Inl ErrSupervisorIdentityMismatch
               else if \<not> effect_committed action
               then (case reportByActionTx actionID db of
                       None \<Rightarrow> Inl ErrStateConflict
                     | Some existing \<Rightarrow>
                         if sameReportContent existing report then Inr (existing, db)
                         else Inl ErrStateConflict)
               else freezeReportTx codec newID report db)"

section \<open>What the operations change\<close>

definition with_action :: "action \<Rightarrow> statedb \<Rightarrow> statedb" where
  "with_action a db = db\<lparr>process_actions := process_actions db @ [a]\<rparr>"

lemma with_action_simps [simp]:
  "processes (with_action a db) = processes db"
  "frozen_reports (with_action a db) = frozen_reports db"
  "machine_identity (with_action a db) = machine_identity db"
  "set (process_actions (with_action a db)) = insert a (set (process_actions db))"
  by (auto simp: with_action_def)

lemma InsertProcessAction_Inr:
  "InsertProcessAction (action_id a) (action_process_id a) (action_kind a) (action_seq a) e db = Inr db'
     \<longleftrightarrow> db' = with_action (a\<lparr>effect_committed := e\<rparr>) db \<and> schema_ok db'"
  by (cases a) (auto simp: InsertProcessAction_def with_action_def)

lemma validateAction_Inr:
  "validateAction a pid = Inr u \<longleftrightarrow>
     action_id a \<noteq> [] \<and> action_process_id a = pid \<and> 0 < action_seq a \<and> action_kind_mutating (action_kind a)"
  by (cases "action_kind a") (auto simp: validateAction_def mutating_iff)

lemma loadActionTransitionTx_Inr:
  assumes "loadActionTransitionTx pid sid a db = Inr (p, found)"
  shows "p \<in> set (processes db)" "owned pid sid p" "found = GetProcessAction (action_id a) db"
  using assms
  by (auto simp: loadActionTransitionTx_def processTx_def actionTx_def owned_def
      dest: GetProcess_SomeD split: option.splits if_splits)

text \<open>
  Reaching sequence \<open>n\<close> sets the frontier to \<open>n - 1\<close>.  Both ways \<open>compactMissingActionPrefixTx\<close> can
  succeed are this one update: when nothing is missing the frontier already is \<open>n - 1\<close>.
\<close>

definition frontier :: "string \<Rightarrow> string \<Rightarrow> int \<Rightarrow> statedb \<Rightarrow> statedb" where
  "frontier pid sid n db = touch pid sid (\<lambda>p. p\<lparr>resolved_action_seq := n\<rparr>) db"

lemma frontier_simps [simp]:
  "process_actions (frontier pid sid n db) = process_actions db"
  "frozen_reports (frontier pid sid n db) = frozen_reports db"
  "machine_identity (frontier pid sid n db) = machine_identity db"
  by (simp_all add: frontier_def)

lemma update_where_same:
  "(\<And>r. r \<in> set rows \<Longrightarrow> P r \<Longrightarrow> f r = r) \<Longrightarrow> update_where P f rows = rows"
  by (auto simp: update_where_def intro: map_idI)

lemma frontier_same:
  assumes "schema_ok db" "p \<in> set (processes db)" "owned pid sid p" "resolved_action_seq p = n"
  shows "frontier pid sid n db = db"
proof -
  have "q\<lparr>resolved_action_seq := n\<rparr> = q" if "q \<in> set (processes db)" "owned pid sid q" for q
  proof -
    have "q = p" using assms that by (auto simp: owned_def intro: process_unique)
    with assms show ?thesis by simp
  qed
  then have "update_where (owned pid sid) (\<lambda>p. p\<lparr>resolved_action_seq := n\<rparr>) (processes db) = processes db"
    by (intro update_where_same)
  then show ?thesis by (simp add: frontier_def touch_def)
qed

lemma compactMissing_Inr:
  assumes "schema_ok db" "p \<in> set (processes db)" "in_int64 n" "resolved_action_seq p < n"
    and "compactMissingActionPrefixTx p n db = Inr (p', db')"
  shows "p' = p\<lparr>resolved_action_seq := n - 1\<rparr>"
    and "db' = frontier (process_id p) (supervisor_instance_id p) (n - 1) db" "schema_ok db'"
    and "\<forall>a \<in> set (process_actions db). action_process_id a = process_id p \<longrightarrow>
           action_seq a \<le> resolved_action_seq p \<or> n \<le> action_seq a"
proof -
  let ?Q = "\<lambda>q. resolved_action_seq q = resolved_action_seq p"
  have nonneg: "0 \<le> resolved_action_seq p"
    using schema_okD(1) [OF assms(1,2)] by (simp add: process_check_def)
  have w: "wrap64 (resolved_action_seq p + 1) = resolved_action_seq p + 1" "wrap64 (n - 1) = n - 1"
    using nonneg assms(3,4) by (auto intro: wrap64_succ_below wrap64_pred)
  have own: "owned (process_id p) (supervisor_instance_id p) p" by (simp add: owned_def)
  have guard: "update_where (\<lambda>q. owned (process_id p) (supervisor_instance_id p) q \<and> ?Q q) f (processes db)
      = update_where (owned (process_id p) (supervisor_instance_id p)) f (processes db)" for f
    by (rule update_where_guard [OF assms(1,2) own]) simp
  have all: "p' = p\<lparr>resolved_action_seq := n - 1\<rparr> \<and>
      db' = frontier (process_id p) (supervisor_instance_id p) (n - 1) db \<and> schema_ok db' \<and>
      (\<forall>a \<in> set (process_actions db). action_process_id a = process_id p \<longrightarrow>
           action_seq a \<le> resolved_action_seq p \<or> n \<le> action_seq a)"
  proof (cases "n \<le> resolved_action_seq p + 1")
    case True
    with assms(4) have "n = resolved_action_seq p + 1" by simp
    with assms(1,2,5) own w show ?thesis
      by (auto simp: compactMissingActionPrefixTx_def frontier_same)
  next
    case False
    with assms(5) w guard show ?thesis
      by (auto simp: compactMissingActionPrefixTx_def CompactMissingActionPrefix_def
          CountProcessActionsBetween_def update_processes_Inr frontier_def touch_def
          split: if_splits)
  qed
  then show "p' = p\<lparr>resolved_action_seq := n - 1\<rparr>"
    and "db' = frontier (process_id p) (supervisor_instance_id p) (n - 1) db" "schema_ok db'"
    and "\<forall>a \<in> set (process_actions db). action_process_id a = process_id p \<longrightarrow>
           action_seq a \<le> resolved_action_seq p \<or> n \<le> action_seq a"
    by blast+
qed

lemma frontier_next [simp]: "in_int64 n \<Longrightarrow> wrap64 (n - 1 + 1) = n"
  by simp

text \<open>
  The three things a successful \<open>ApplyOnce\<close> can do: leave the database alone, move only the
  frontier because admission is closed, or admit the action.  The facts the last two share are
  \<open>reaches\<close>: the action is new, the frontier is below it and no local row stands between.
\<close>

definition reaches :: "string \<Rightarrow> string \<Rightarrow> action \<Rightarrow> process \<Rightarrow> statedb \<Rightarrow> bool" where
  "reaches pid sid a p db \<longleftrightarrow>
     p \<in> set (processes db) \<and> owned pid sid p \<and> action_process_id a = pid \<and> 0 < action_seq a
   \<and> action_id a \<notin> action_id ` set (process_actions db)
   \<and> resolved_action_seq p < action_seq a
   \<and> (\<forall>b \<in> set (process_actions db). action_process_id b = pid \<longrightarrow>
        action_seq b \<le> resolved_action_seq p \<or> action_seq a \<le> action_seq b)
   \<and> schema_ok (frontier pid sid (action_seq a - 1) db)"

lemma reachesI:
  assumes "schema_ok db" "in_int64 (action_seq a)" "validateAction a pid = Inr u"
    and "loadActionTransitionTx pid sid a db = Inr (p, None)" "resolved_action_seq p < action_seq a"
    and "compactMissingActionPrefixTx p (action_seq a) db = Inr (p1, db1)"
  shows "reaches pid sid a p db" "p1 = p\<lparr>resolved_action_seq := action_seq a - 1\<rparr>"
    and "db1 = frontier pid sid (action_seq a - 1) db"
proof -
  note load = loadActionTransitionTx_Inr [OF assms(4)]
  note c = compactMissing_Inr [OF assms(1) load(1) assms(2,5,6)]
  have own: "process_id p = pid" "supervisor_instance_id p = sid" using load(2) by (auto simp: owned_def)
  show "p1 = p\<lparr>resolved_action_seq := action_seq a - 1\<rparr>" by (rule c(1))
  show "db1 = frontier pid sid (action_seq a - 1) db" using c(2) own by simp
  show "reaches pid sid a p db"
    unfolding reaches_def using load assms(3,5) c own
    by (auto simp: validateAction_Inr GetProcessAction_None dest: sym)
qed

lemma ApplyOnceE:
  assumes "schema_ok db" "in_int64 (action_seq a)" "ApplyOnce pid sid a db = Inr ((d, rep), db')"
  obtains (unchanged) "d \<noteq> ApplyExecute" "db' = db"
  | (closed) p where "d = ApplyAdmissionClosed" "reaches pid sid a p db"
      "db' = frontier pid sid (action_seq a - 1) db"
  | (execute) p where "d = ApplyExecute" "reaches pid sid a p db" "\<not> local_closed p"
      "\<not> action_admission_closed p" "phase p = ProcessAccepted" "exec_committed p"
      "containment_kind p \<noteq> []" "schema_ok db'"
      "db' = with_action (a\<lparr>effect_committed := True\<rparr>) (frontier pid sid (action_seq a - 1) db)"
proof -
  from assms(3) obtain u p found where v: "validateAction a pid = Inr u"
    and l: "loadActionTransitionTx pid sid a db = Inr (p, found)"
    by (auto simp: ApplyOnce_def)
  show thesis
  proof (cases "found = None \<and> resolved_action_seq p < action_seq a \<and>
      (\<exists>p1 db1. compactMissingActionPrefixTx p (action_seq a) db = Inr (p1, db1))")
    case False
    with assms(3) v l show thesis
      by (intro unchanged)
        (auto simp: ApplyOnce_def split: option.splits if_splits sum.splits prod.splits)
  next
    case True
    then obtain p1 db1 where found: "found = None" and lt: "resolved_action_seq p < action_seq a"
      and c: "compactMissingActionPrefixTx p (action_seq a) db = Inr (p1, db1)" by auto
    note r = reachesI [OF assms(1,2) v l [unfolded found] lt c]
    let ?shut = "local_closed p \<or> action_admission_closed p \<or> phase p \<noteq> ProcessAccepted
      \<or> \<not> exec_committed p \<or> containment_kind p = []"
    show thesis
    proof (cases ?shut)
      case True
      with assms(2,3) v l found lt c r(2,3) have "d = ApplyAdmissionClosed \<and> db' = db1"
        by (auto simp: ApplyOnce_def)
      with r show thesis by (intro closed) simp_all
    next
      case False
      with assms(2,3) v l found lt c r(2,3)
      have "d = ApplyExecute \<and> db' = with_action (a\<lparr>effect_committed := True\<rparr>) db1 \<and> schema_ok db'"
        by (auto simp: ApplyOnce_def InsertProcessAction_Inr)
      with r False show thesis by (intro execute [of p]) auto
    qed
  qed
qed

lemma RecordActionWithoutEffectE:
  assumes "schema_ok db" "in_int64 (action_seq a)"
    and "RecordActionWithoutEffect codec rid pid sid a q db = Inr ((d, rep), db')"
  obtains (unchanged) "d \<noteq> NoEffectRecorded" "db' = db"
  | (closed) p where "d = NoEffectAdmissionClosed" "reaches pid sid a p db"
      "db' = frontier pid sid (action_seq a - 1) db"
  | (recorded) p db2 where "d = NoEffectRecorded" "reaches pid sid a p db" "\<not> local_closed p"
      "phase p = ProcessAccepted \<or> phase p = ProcessTerminal" "schema_ok db2"
      "db2 = with_action (a\<lparr>effect_committed := False\<rparr>) (frontier pid sid (action_seq a - 1) db)"
      "ProcessID q = pid" "ActionID q = action_id a" "Kind q = ReportActionTerminal"
      "freezeReportTx codec rid q db2 = Inr (rep, db')"
proof -
  from assms(3) obtain u p found where v: "validateAction a pid = Inr u"
    and i: "validateActionReportInput q pid (action_id a) = Inr u"
    and l: "loadActionTransitionTx pid sid a db = Inr (p, found)"
    by (auto simp: RecordActionWithoutEffect_def)
  from i have q: "ProcessID q = pid" "ActionID q = action_id a" "Kind q = ReportActionTerminal"
    by (auto simp: validateActionReportInput_def split: if_splits)
  show thesis
  proof (cases "found = None \<and> resolved_action_seq p < action_seq a \<and>
      (\<exists>p1 db1. compactMissingActionPrefixTx p (action_seq a) db = Inr (p1, db1))")
    case False
    with assms(3) v i l show thesis
      by (intro unchanged)
        (auto simp: RecordActionWithoutEffect_def split: option.splits if_splits sum.splits prod.splits)
  next
    case True
    then obtain p1 db1 where found: "found = None" and lt: "resolved_action_seq p < action_seq a"
      and c: "compactMissingActionPrefixTx p (action_seq a) db = Inr (p1, db1)" by auto
    note r = reachesI [OF assms(1,2) v l [unfolded found] lt c]
    let ?shut = "local_closed p \<or> (phase p \<noteq> ProcessAccepted \<and> phase p \<noteq> ProcessTerminal)"
    show thesis
    proof (cases ?shut)
      case True
      with assms(2,3) v i l found lt c r(2,3) have "d = NoEffectAdmissionClosed \<and> db' = db1"
        by (auto simp: RecordActionWithoutEffect_def)
      with r show thesis by (intro closed) simp_all
    next
      case False
      with assms(2,3) v i l found lt c r(2,3)
      obtain db2 where "d = NoEffectRecorded" "schema_ok db2"
        "db2 = with_action (a\<lparr>effect_committed := False\<rparr>) db1"
        "freezeReportTx codec rid q db2 = Inr (rep, db')"
        by (auto simp: RecordActionWithoutEffect_def InsertProcessAction_Inr)
      with r q False show thesis by (intro recorded [of p db2]) auto
    qed
  qed
qed

lemma freezeActionReportE:
  assumes "freezeActionReport codec rid pid sid aid q db = Inr (res, db')"
  obtains (existing) "db' = db"
  | (froze) p a where "p \<in> set (processes db)" "owned pid sid p" "a \<in> set (process_actions db)"
      "action_id a = aid" "action_process_id a = pid" "effect_committed a"
      "ProcessID q = pid" "ActionID q = aid" "Kind q = ReportActionTerminal"
      "freezeReportTx codec rid q db = Inr (res, db')"
proof (cases "db' = db")
  case False
  with assms show thesis
    using froze
    by (auto simp: freezeActionReport_def processTx_def actionTx_def owned_def
        validateActionReportInput_def dest!: GetProcess_SomeD GetProcessAction_SomeD
        split: if_splits option.splits)
qed (rule existing)

end
