(* ===== verification/StateDB_Report.thy ===== *)
theory StateDB_Report
  imports StateDB_Action
begin

text \<open>
  Delivery and settlement of frozen reports (\<open>statedb/report.go\<close>): the candidates for delivery, the
  server's acknowledgement or rejection of one report, and the release of an action the server has
  resolved without local evidence.
\<close>

section \<open>Reading reports\<close>

definition DeliveryCandidates :: "statedb \<Rightarrow> report list" where
  "DeliveryCandidates db = map reportFromSQLC (ListFrozenReportDeliveryCandidates db)"

definition ReportsForProcess :: "string \<Rightarrow> statedb \<Rightarrow> report list" where
  "ReportsForProcess processID db = map reportFromSQLC (ListFrozenReportsForProcess processID db)"

section \<open>Settling reports\<close>

text \<open>The case \<open>ReportActionTerminal\<close> of \<open>AcknowledgeReport\<close>.\<close>

definition acknowledgeActionReport :: "report \<Rightarrow> statedb \<Rightarrow> statedb_error + statedb" where
  "acknowledgeActionReport report db =
     (if State report \<noteq> ReportPending \<and> State report \<noteq> ReportRejected then Inl ErrStateConflict
      else case actionTx (ActionID report) db of
        None \<Rightarrow> Inl ErrStateConflict
      | Some action \<Rightarrow>
          if action_process_id action \<noteq> ProcessID report then Inl ErrStateConflict
          else case processTx (ProcessID report) db of
            None \<Rightarrow> Inl ErrStateConflict
          | Some process \<Rightarrow>
              if action_seq action \<noteq> wrap64 (resolved_action_seq process + 1)
              then Inl ErrActionBlocked
              else bindE (AdvanceResolvedActionSequence (action_seq action)
                     (action_process_id action) db) (\<lambda>db1.
                   Inr (DeleteProcessAction (action_id action) (action_process_id action) db1)))"

text \<open>The case \<open>ReportProcessStarted, ReportProcessTerminal\<close>.\<close>

definition acknowledgeProcessReport :: "report \<Rightarrow> statedb \<Rightarrow> statedb_error + statedb" where
  "acknowledgeProcessReport report db =
     bindE (if State report = ReportPending \<or> State report = ReportRejected
            then AcknowledgeProcessReport (ID report) db
            else if State report \<noteq> ReportAcknowledged then Inl ErrStateConflict
            else Inr db)
       (\<lambda>db1. if Kind report = ReportProcessTerminal
              then MarkTerminalProcessServerReleased (ProcessID report) db1 else Inr db1)"

definition AcknowledgeReport :: "string \<Rightarrow> statedb \<Rightarrow> statedb_error + statedb" where
  "AcknowledgeReport reportID db =
     (case GetFrozenReportByID reportID db of
        None \<Rightarrow> Inl ErrStateConflict
      | Some row \<Rightarrow>
          let report = reportFromSQLC row
          in case Kind report of
            ReportActionTerminal \<Rightarrow> acknowledgeActionReport report db
          | ReportProcessStarted \<Rightarrow> acknowledgeProcessReport report db
          | ReportProcessTerminal \<Rightarrow> acknowledgeProcessReport report db
          | ReportKindOther _ \<Rightarrow> Inl (ErrNew ''unsupported report kind''))"

definition releaseAction ::
    "string \<Rightarrow> string \<Rightarrow> string \<Rightarrow> int \<Rightarrow> bool \<Rightarrow> statedb \<Rightarrow> statedb_error + statedb" where
  "releaseAction processID supervisorInstanceID actionID seq requireAbsent db =
     (if processID = [] \<or> supervisorInstanceID = [] \<or> actionID = [] \<or> seq \<le> 0
      then Inl (ErrNew ''complete process action release identity is required'')
      else case processTx processID db of
        None \<Rightarrow> Inl ErrSupervisorIdentityMismatch
      | Some process \<Rightarrow>
          if supervisor_instance_id process \<noteq> supervisorInstanceID
          then Inl ErrSupervisorIdentityMismatch
          else
            let found = actionTx actionID db; actionFound = (found \<noteq> None)
            in if (case found of None \<Rightarrow> False
                   | Some action \<Rightarrow> action_process_id action \<noteq> processID \<or> action_seq action \<noteq> seq)
               then Inl ErrStateConflict
               else if requireAbsent \<and> actionFound then Inl ErrStateConflict
               else bindE (if \<not> actionFound then ensureActionSequenceUnused processID seq db else Inr ())
                 (\<lambda>_.
                   if seq \<le> resolved_action_seq process
                   then (if actionFound then Inl ErrStateConflict else Inr db)
                   else case (if wrap64 (resolved_action_seq process + 1) < seq
                              then compactMissingActionPrefixTx process seq db
                              else Inr (process, db)) of
                     Inl e \<Rightarrow> if e = ErrActionBlocked \<and> \<not> actionFound then Inr db else Inl e
                   | Inr (process1, db1) \<Rightarrow>
                       if seq \<noteq> wrap64 (resolved_action_seq process1 + 1) then Inl ErrActionBlocked
                       else if actionFound \<and> reportByActionTx actionID db1 \<noteq> None
                       then Inl ErrStateConflict
                       else AdvanceReleasedActionSequence seq processID supervisorInstanceID
                              (if actionFound then DeleteProcessAction actionID processID db1 else db1)))"

definition ReleaseAction ::
    "string \<Rightarrow> string \<Rightarrow> string \<Rightarrow> int \<Rightarrow> statedb \<Rightarrow> statedb_error + statedb" where
  "ReleaseAction processID supervisorInstanceID actionID seq =
     releaseAction processID supervisorInstanceID actionID seq False"

definition ResolveAbsentAction ::
    "string \<Rightarrow> string \<Rightarrow> string \<Rightarrow> int \<Rightarrow> statedb \<Rightarrow> statedb_error + statedb" where
  "ResolveAbsentAction processID supervisorInstanceID actionID seq =
     releaseAction processID supervisorInstanceID actionID seq True"

definition RejectReport :: "string \<Rightarrow> string \<Rightarrow> string \<Rightarrow> statedb \<Rightarrow> statedb_error + statedb" where
  "RejectReport reportID code msg db =
     (if reportID = [] \<or> code = [] then Inl (ErrNew ''report and rejection code are required'')
      else case GetFrozenReportByID reportID db of
        None \<Rightarrow> Inl ErrStateConflict
      | Some row \<Rightarrow>
          let report = reportFromSQLC row
          in if State report = ReportRejected
             then (if ErrorCode report = code \<and> Error report = msg then Inr db
                   else Inl ErrStateConflict)
             else if State report \<noteq> ReportPending then Inl ErrStateConflict
             else RejectFrozenReport code msg reportID db)"

section \<open>What the operations change\<close>

text \<open>Settling one report changes its state and error columns, and no other row.\<close>

definition settle :: "string \<Rightarrow> (frozen_report \<Rightarrow> frozen_report) \<Rightarrow> statedb \<Rightarrow> statedb" where
  "settle rid f db = db\<lparr>frozen_reports := update_where (\<lambda>r. report_id r = rid) f (frozen_reports db)\<rparr>"

lemma settle_simps [simp]:
  "processes (settle rid f db) = processes db"
  "process_actions (settle rid f db) = process_actions db"
  "machine_identity (settle rid f db) = machine_identity db"
  by (simp_all add: settle_def)

lemma set_settle:
  "set (frozen_reports (settle rid f db)) =
     (\<lambda>r. if report_id r = rid then f r else r) ` set (frozen_reports db)"
  by (simp add: settle_def set_update_where)

lemma update_where_report:
  assumes "schema_ok db" "r \<in> set (frozen_reports db)" "report_id r = rid" "Q r"
  shows "update_where (\<lambda>r. report_id r = rid \<and> Q r) f (frozen_reports db)
       = update_where (\<lambda>r. report_id r = rid) f (frozen_reports db)"
  unfolding update_where_def
proof (rule map_cong)
  fix q assume "q \<in> set (frozen_reports db)"
  with assms have "report_id q = rid \<Longrightarrow> q = r" by (auto intro: report_unique)
  with assms show "(if report_id q = rid \<and> Q q then f q else q) = (if report_id q = rid then f q else q)"
    by auto
qed simp

definition acknowledged :: "frozen_report \<Rightarrow> frozen_report" where
  "acknowledged r = r\<lparr>report_state := ReportAcknowledged, report_error_code := [], report_error := []\<rparr>"

definition rejected :: "string \<Rightarrow> string \<Rightarrow> frozen_report \<Rightarrow> frozen_report" where
  "rejected code err r = r\<lparr>report_state := ReportRejected, report_error_code := code, report_error := err\<rparr>"

lemma AcknowledgeProcessReport_Inr:
  assumes "schema_ok db" "r \<in> set (frozen_reports db)" "report_id r = rid"
    and "report_state r = ReportPending \<or> report_state r = ReportRejected"
  shows "AcknowledgeProcessReport rid db = Inr db' \<longleftrightarrow> db' = settle rid acknowledged db \<and> schema_ok db'"
  using update_where_report [OF assms(1-3), where Q = "\<lambda>r. report_state r = ReportPending
      \<or> report_state r = ReportRejected", OF assms(4), of acknowledged]
  by (auto simp: AcknowledgeProcessReport_def update_reports_def settle_def acknowledged_def [abs_def])

lemma RejectReportE:
  assumes "schema_ok db" "RejectReport rid code msg db = Inr db'"
  obtains (same) "db' = db"
  | (rejects) r where "r \<in> set (frozen_reports db)" "report_id r = rid" "report_state r = ReportPending"
      "code \<noteq> []" "db' = settle rid (rejected code msg) db" "schema_ok db'"
proof (cases "db' = db")
  case False
  from assms(2) False obtain r where r: "r \<in> set (frozen_reports db)" "report_id r = rid" "code \<noteq> []"
    "report_state r = ReportPending" and q: "RejectFrozenReport code msg rid db = Inr db'"
    by (auto simp: RejectReport_def Let_def reportFromSQLC_def dest: GetFrozenReportByID_SomeD
        split: option.splits if_splits)
  have "db' = settle rid (rejected code msg) db \<and> schema_ok db'"
    using q update_where_report [OF assms(1) r(1,2), where Q = "\<lambda>r. report_state r = ReportPending",
        OF r(4), of "rejected code msg"]
    by (auto simp: RejectFrozenReport_def update_reports_def settle_def rejected_def [abs_def])
  with r show thesis by (intro rejects [of r]) auto
qed (rule same)

lemma resolve_all_owned:
  assumes "schema_ok db" "p \<in> set (processes db)" "process_id p = pid"
  shows "update_where (\<lambda>p. process_id p = pid) f (processes db)
       = update_where (owned pid (supervisor_instance_id p)) f (processes db)"
  unfolding update_where_def
proof (rule map_cong)
  fix q assume "q \<in> set (processes db)"
  with assms have "process_id q = pid \<Longrightarrow> q = p" by (auto intro: process_unique)
  with assms show "(if process_id q = pid then f q else q)
      = (if owned pid (supervisor_instance_id p) q then f q else q)"
    by (auto simp: owned_def)
qed simp

text \<open>
  An acknowledgement has four outcomes: the action behind an action report is resolved and both
  rows go; a started report is marked; a terminal report is marked and its process released by the
  server; or the started report had been acknowledged before and nothing changes.
\<close>

definition resolve :: "action \<Rightarrow> string \<Rightarrow> statedb \<Rightarrow> statedb" where
  "resolve a sid db =
     delete_actions (\<lambda>b. action_id b = action_id a \<and> action_process_id b = action_process_id a)
       (frontier (action_process_id a) sid (action_seq a) db)"

definition released :: "string \<Rightarrow> string \<Rightarrow> statedb \<Rightarrow> statedb" where
  "released pid sid db = touch pid sid (\<lambda>p. p\<lparr>server_released := True\<rparr>) db"

lemma acknowledgeActionReport_Inr:
  assumes "schema_ok db" "acknowledgeActionReport q db = Inr db'"
  shows "\<exists>a p. a \<in> set (process_actions db) \<and> action_id a = ActionID q
     \<and> action_process_id a = ProcessID q \<and> p \<in> set (processes db) \<and> process_id p = ProcessID q
     \<and> action_seq a = wrap64 (resolved_action_seq p + 1)
     \<and> db' = resolve a (supervisor_instance_id p) db
     \<and> schema_ok (frontier (ProcessID q) (supervisor_instance_id p) (action_seq a) db)"
proof -
  from assms(2) obtain a p db1 where
    a: "actionTx (ActionID q) db = Some a" "action_process_id a = ProcessID q"
    and p: "processTx (ProcessID q) db = Some p"
    and seq: "action_seq a = wrap64 (resolved_action_seq p + 1)"
    and adv: "AdvanceResolvedActionSequence (action_seq a) (ProcessID q) db = Inr db1"
    and db': "db' = DeleteProcessAction (action_id a) (action_process_id a) db1"
    by (auto simp: acknowledgeActionReport_def split: option.splits if_splits)
  have p': "p \<in> set (processes db)" "process_id p = ProcessID q"
    using p by (auto simp: processTx_def dest: GetProcess_SomeD)
  have "db1 = frontier (ProcessID q) (supervisor_instance_id p) (action_seq a) db \<and> schema_ok db1"
    using adv resolve_all_owned [OF assms(1) p'(1,2)]
    by (auto simp: AdvanceResolvedActionSequence_def update_processes_Inr frontier_def touch_def)
  with a p' seq db' show ?thesis
    by (intro exI [of _ a] exI [of _ p])
      (auto simp: resolve_def DeleteProcessAction_def actionTx_def dest: GetProcessAction_SomeD)
qed

lemma AcknowledgeReportE:
  assumes "schema_ok db" "AcknowledgeReport rid db = Inr db'"
  obtains (action) r a p where "r \<in> set (frozen_reports db)" "report_id r = rid"
      "report_action_id r = Some (action_id a)" "a \<in> set (process_actions db)"
      "action_process_id a = report_process_id r" "p \<in> set (processes db)"
      "process_id p = report_process_id r" "action_seq a = wrap64 (resolved_action_seq p + 1)"
      "db' = resolve a (supervisor_instance_id p) db"
      "schema_ok (frontier (report_process_id r) (supervisor_instance_id p) (action_seq a) db)"
  | (process) r db1 p where "r \<in> set (frozen_reports db)" "report_id r = rid" "report_action_id r = None"
      "report_kind r = ReportProcessStarted \<or> report_kind r = ReportProcessTerminal"
      "p \<in> set (processes db)" "process_id p = report_process_id r"
      "db1 = db \<and> report_state r = ReportAcknowledged
       \<or> db1 = settle rid acknowledged db \<and> report_state r \<noteq> ReportAcknowledged" "schema_ok db1"
      "db' = (if report_kind r = ReportProcessTerminal
              then released (report_process_id r) (supervisor_instance_id p) db1 else db1)" "schema_ok db'"
proof -
  from assms(2) obtain r where g: "GetFrozenReportByID rid db = Some r"
    by (auto simp: AcknowledgeReport_def split: option.splits)
  then have r: "r \<in> set (frozen_reports db)" "report_id r = rid" by (auto dest: GetFrozenReportByID_SomeD)
  have chk: "report_check r" using schema_okD(3) [OF assms(1) r(1)] .
  let ?q = "reportFromSQLC r"
  have q: "ID ?q = rid" "Kind ?q = report_kind r" "ProcessID ?q = report_process_id r"
      "State ?q = report_state r" using r by (simp_all add: reportFromSQLC_def)
  show thesis
  proof (cases "report_kind r = ReportActionTerminal")
    case True
    with chk obtain i where i: "report_action_id r = Some i" by (auto simp: report_check_def)
    then have "ActionID ?q = i" by (simp add: reportFromSQLC_def)
    with assms(2) g True have "acknowledgeActionReport ?q db = Inr db'"
      by (simp add: AcknowledgeReport_def q)
    from acknowledgeActionReport_Inr [OF assms(1) this] obtain a p where
      "a \<in> set (process_actions db)" "action_id a = i" "action_process_id a = report_process_id r"
      "p \<in> set (processes db)" "process_id p = report_process_id r"
      "action_seq a = wrap64 (resolved_action_seq p + 1)" "db' = resolve a (supervisor_instance_id p) db"
      "schema_ok (frontier (report_process_id r) (supervisor_instance_id p) (action_seq a) db)"
      unfolding q \<open>ActionID ?q = i\<close> by blast
    with r i show thesis by (intro action [of r a p]) simp_all
  next
    case False
    with chk have kind: "report_kind r = ReportProcessStarted \<or> report_kind r = ReportProcessTerminal"
      and none: "report_action_id r = None" by (auto simp: report_check_def)
    obtain p where p: "p \<in> set (processes db)" "process_id p = report_process_id r"
      using schema_ok_report_process [OF assms(1) r(1)] by blast
    from kind have ack: "acknowledgeProcessReport ?q db = Inr db'"
      using assms(2) g by (elim disjE) (simp_all add: AcknowledgeReport_def q)
    then obtain db1 where mid: "(if report_state r = ReportPending \<or> report_state r = ReportRejected
          then AcknowledgeProcessReport rid db
          else if report_state r \<noteq> ReportAcknowledged then Inl ErrStateConflict else Inr db) = Inr db1"
      and rest: "(if report_kind r = ReportProcessTerminal
         then MarkTerminalProcessServerReleased (report_process_id r) db1 else Inr db1) = Inr db'"
      unfolding acknowledgeProcessReport_def q by (elim bindE_InrE)
    have db1: "(db1 = db \<and> report_state r = ReportAcknowledged
        \<or> db1 = settle rid acknowledged db \<and> report_state r \<noteq> ReportAcknowledged) \<and> schema_ok db1"
    proof (cases "report_state r = ReportPending \<or> report_state r = ReportRejected")
      case True
      with mid have "AcknowledgeProcessReport rid db = Inr db1" by simp
      then have "db1 = settle rid acknowledged db \<and> schema_ok db1"
        unfolding AcknowledgeProcessReport_Inr [OF assms(1) r True] .
      with True show ?thesis by auto
    next
      case False
      with mid assms(1) show ?thesis by (simp split: if_splits)
    qed
    from db1 have "processes db1 = processes db" by auto
    then have rel: "MarkTerminalProcessServerReleased (report_process_id r) db1 = Inr db' \<Longrightarrow>
       db' = released (report_process_id r) (supervisor_instance_id p) db1 \<and> schema_ok db'"
      unfolding MarkTerminalProcessServerReleased_def update_processes_def released_def touch_def
      by (auto simp: resolve_all_owned [OF assms(1) p])
    have "db' = (if report_kind r = ReportProcessTerminal
              then released (report_process_id r) (supervisor_instance_id p) db1 else db1) \<and> schema_ok db'"
    proof (cases "report_kind r = ReportProcessTerminal")
      case True
      with rest rel show ?thesis by auto
    next
      case False
      with rest db1 show ?thesis by simp
    qed
    with r none kind p db1 show thesis by (intro process [of r p db1]) blast+
  qed
qed

text \<open>
  A release either changes nothing, or moves the frontier to the released sequence and deletes the
  action if it is recorded and has no evidence.
\<close>

definition unrecorded :: "string \<Rightarrow> string \<Rightarrow> statedb \<Rightarrow> statedb" where
  "unrecorded pid aid db = delete_actions (\<lambda>b. action_id b = aid \<and> action_process_id b = pid) db"

lemma frontier_twice:
  "frontier pid sid m (frontier pid sid n db) = frontier pid sid m db"
  by (auto simp: frontier_def touch_def update_where_def owned_def)

lemma frontier_delete:
  "frontier pid sid n (delete_actions P db) = delete_actions P (frontier pid sid n db)"
  by (simp add: frontier_def touch_def delete_actions_def)

lemma delete_actions_none:
  "(\<And>a. a \<in> set (process_actions db) \<Longrightarrow> \<not> P a) \<Longrightarrow> delete_actions P db = db"
  by (auto simp: delete_actions_def list_ex_iff intro!: filter_True)

lemma AdvanceReleased_Inr:
  "AdvanceReleasedActionSequence n pid sid db = Inr db' \<longleftrightarrow> db' = frontier pid sid n db \<and> schema_ok db'"
  by (auto simp: AdvanceReleasedActionSequence_def update_processes_owned frontier_def)

lemma releaseActionE:
  assumes "schema_ok db" "in_int64 seq" "releaseAction pid sid aid seq ab db = Inr db'"
  obtains (same) "db' = db"
  | (moves) p where "p \<in> set (processes db)" "owned pid sid p" "resolved_action_seq p < seq"
      "\<forall>b \<in> set (process_actions db). action_process_id b = pid \<longrightarrow>
         action_seq b \<le> resolved_action_seq p \<or> seq \<le> action_seq b"
      "\<forall>b \<in> set (process_actions db). action_process_id b = pid \<and> action_seq b = seq \<longrightarrow> action_id b = aid"
      "\<forall>a \<in> set (process_actions db). action_id a = aid \<longrightarrow>
         \<not> ab \<and> action_process_id a = pid \<and> action_seq a = seq
         \<and> (\<forall>r \<in> set (frozen_reports db). report_action_id r \<noteq> Some aid)"
      "db' = unrecorded pid aid (frontier pid sid seq db)" "schema_ok db'"
proof (cases "db' = db")
  case False
  let ?found = "actionTx aid db"
  from assms(3) False obtain p p1 db1 where p: "processTx pid db = Some p" "supervisor_instance_id p = sid"
    and ident: "\<And>a. ?found = Some a \<Longrightarrow> action_process_id a = pid \<and> action_seq a = seq"
    and absent: "ab \<Longrightarrow> ?found = None"
    and unused: "?found = None \<Longrightarrow> ensureActionSequenceUnused pid seq db = Inr ()"
    and lt: "resolved_action_seq p < seq"
    and c: "(if wrap64 (resolved_action_seq p + 1) < seq then compactMissingActionPrefixTx p seq db
             else Inr (p, db)) = Inr (p1, db1)"
    and evid: "?found \<noteq> None \<Longrightarrow> reportByActionTx aid db1 = None"
    and adv: "AdvanceReleasedActionSequence seq pid sid
       (if ?found \<noteq> None then DeleteProcessAction aid pid db1 else db1) = Inr db'"
    by (auto simp: releaseAction_def Let_def split: option.splits if_splits sum.splits)
  from p have mem: "p \<in> set (processes db)" "owned pid sid p" "process_id p = pid"
    by (auto simp: processTx_def owned_def dest: GetProcess_SomeD)
  have "compactMissingActionPrefixTx p seq db = Inr (p1, db1)"
    using c by (auto simp: compactMissingActionPrefixTx_def split: if_splits)
  note c' = compactMissing_Inr [OF assms(1) mem(1) assms(2) lt this]
  have db1: "db1 = frontier pid sid (seq - 1) db" using c'(2) p mem by simp
  have db': "db' = unrecorded pid aid (frontier pid sid seq db)" "schema_ok db'"
  proof -
    have "(if ?found \<noteq> None then DeleteProcessAction aid pid db1 else db1) = unrecorded pid aid db1"
      by (auto simp: unrecorded_def DeleteProcessAction_def actionTx_def GetProcessAction_None db1
          image_iff intro!: delete_actions_none [symmetric])
    with adv show "db' = unrecorded pid aid (frontier pid sid seq db)" "schema_ok db'"
      by (auto simp: AdvanceReleased_Inr db1 unrecorded_def frontier_delete frontier_twice)
  qed
  have rec: "\<forall>a \<in> set (process_actions db). action_id a = aid \<longrightarrow> ?found = Some a"
    using GetProcessAction_iff [OF assms(1)] by (auto simp: actionTx_def)
  have gone: "\<forall>b \<in> set (process_actions db). action_process_id b = pid \<and> action_seq b = seq \<longrightarrow> action_id b = aid"
  proof (cases ?found)
    case None
    with unused show ?thesis
      by (auto simp: ensureActionSequenceUnused_def GetProcessActionIDBySequence_None split: option.splits)
  next
    case (Some a)
    then have "a \<in> set (process_actions db)" "action_id a = aid" "action_key a = (pid, seq)"
      using ident by (auto simp: actionTx_def action_key_def dest: GetProcessAction_SomeD)
    then show ?thesis
      by (auto simp: action_key_def intro: distinct_map_eq [OF schema_okD(6) [OF assms(1)], THEN arg_cong])
  qed
  have evid': "\<forall>a \<in> set (process_actions db). action_id a = aid \<longrightarrow>
         \<not> ab \<and> action_process_id a = pid \<and> action_seq a = seq
         \<and> (\<forall>r \<in> set (frozen_reports db). report_action_id r \<noteq> Some aid)"
  proof (intro ballI impI)
    fix a assume "a \<in> set (process_actions db)" "action_id a = aid"
    with rec have "?found = Some a" by blast
    with ident [of a] absent evid show "\<not> ab \<and> action_process_id a = pid \<and> action_seq a = seq
         \<and> (\<forall>r \<in> set (frozen_reports db). report_action_id r \<noteq> Some aid)"
      by (auto simp: reportByActionTx_def GetFrozenReportByAction_None db1)
  qed
  show thesis
    using mem(1,2) lt c'(4) [unfolded mem(3)] gone evid' db' by (rule moves)
qed (rule same)

end
