(* ===== verification/StateDB_Invariant.thy ===== *)
theory StateDB_Invariant
  imports StateDB_Report
begin

text \<open>
  The invariant of the state database, and that each change an operation makes keeps it.

  \<open>proc_inv p As Rs\<close> is the condition on one process \<open>p\<close> with its local actions \<open>As\<close> and its frozen
  reports \<open>Rs\<close>; the database invariant \<open>db_inv\<close> asks it of every process, together with the schema's
  constraints and with the validity of every frozen body.  An operation changes the rows of one
  process only (\<open>elsewhere_same\<close>), so keeping the invariant is a matter of that process's three
  components.
\<close>

section \<open>The invariant\<close>

definition actions_of :: "string \<Rightarrow> statedb \<Rightarrow> action set" where
  "actions_of pid db = {a \<in> set (process_actions db). action_process_id a = pid}"

definition reports_of :: "string \<Rightarrow> statedb \<Rightarrow> frozen_report set" where
  "reports_of pid db = {r \<in> set (frozen_reports db). report_process_id r = pid}"

definition reported :: "frozen_report set \<Rightarrow> action \<Rightarrow> bool" where
  "reported Rs a \<longleftrightarrow> (\<exists>r \<in> Rs. report_action_id r = Some (action_id a))"

definition proc_inv :: "process \<Rightarrow> action set \<Rightarrow> frozen_report set \<Rightarrow> bool" where
  "proc_inv p As Rs \<longleftrightarrow>
     resolved_action_seq p \<le> max_int64
   \<and> (phase p = ProcessTerminal \<longleftrightarrow> (\<exists>r \<in> Rs. report_kind r = ReportProcessTerminal))
   \<and> (local_closed p \<longrightarrow> phase p = ProcessTerminal \<and> (\<forall>a \<in> As. reported Rs a))
   \<and> (As \<noteq> {} \<or> Rs \<noteq> {} \<longrightarrow> phase p = ProcessAccepted \<or> phase p = ProcessTerminal)
   \<and> (\<forall>a \<in> As. action_seq a = resolved_action_seq p + 1 \<and> action_seq a \<le> max_int64
        \<and> (if effect_committed a then exec_committed p \<and> containment_kind p \<noteq> [] else reported Rs a))"

definition body_ok :: "report_codec \<Rightarrow> frozen_report \<Rightarrow> bool" where
  "body_ok codec r \<longleftrightarrow>
     validateReport codec (reportFromSQLC r) = Inr ()
   \<and> validateReportWireEnvelope codec (reportFromSQLC r) = Inr ()"

definition db_inv :: "report_codec \<Rightarrow> statedb \<Rightarrow> bool" where
  "db_inv codec db \<longleftrightarrow>
     schema_ok db
   \<and> (\<forall>p \<in> set (processes db). proc_inv p (actions_of (process_id p) db) (reports_of (process_id p) db))
   \<and> (\<forall>r \<in> set (frozen_reports db). body_ok codec r)"

lemma db_invD:
  assumes "db_inv codec db"
  shows "schema_ok db"
    and "p \<in> set (processes db) \<Longrightarrow> process_id p = pid \<Longrightarrow> proc_inv p (actions_of pid db) (reports_of pid db)"
    and "r \<in> set (frozen_reports db) \<Longrightarrow> body_ok codec r"
  using assms by (auto simp: db_inv_def)

lemma db_inv_empty: "db_inv codec empty_statedb"
  by (simp add: db_inv_def schema_ok_empty) (simp add: empty_statedb_def)

section \<open>One process at a time\<close>

definition elsewhere_same :: "string \<Rightarrow> statedb \<Rightarrow> statedb \<Rightarrow> bool" where
  "elsewhere_same pid db db' \<longleftrightarrow>
     machine_identity db' = machine_identity db
   \<and> {p \<in> set (processes db'). process_id p \<noteq> pid} = {p \<in> set (processes db). process_id p \<noteq> pid}
   \<and> (\<forall>q. q \<noteq> pid \<longrightarrow> actions_of q db' = actions_of q db \<and> reports_of q db' = reports_of q db)"

lemma elsewhere_refl [simp]: "elsewhere_same pid db db"
  by (simp add: elsewhere_same_def)

lemma elsewhere_trans: "elsewhere_same pid a b \<Longrightarrow> elsewhere_same pid b c \<Longrightarrow> elsewhere_same pid a c"
  by (simp add: elsewhere_same_def)

lemma elsewhere_touch:
  "(\<And>p. process_id (f p) = process_id p) \<Longrightarrow> elsewhere_same pid db (touch pid sid f db)"
  by (auto simp: elsewhere_same_def actions_of_def reports_of_def set_update_where owned_def image_iff)

lemma elsewhere_frontier: "elsewhere_same pid db (frontier pid sid n db)"
  unfolding frontier_def by (rule elsewhere_touch) simp

lemma elsewhere_with_action: "action_process_id a = pid \<Longrightarrow> elsewhere_same pid db (with_action a db)"
  by (auto simp: elsewhere_same_def actions_of_def reports_of_def)

lemma elsewhere_with_report: "report_process_id r = pid \<Longrightarrow> elsewhere_same pid db (with_report r db)"
  by (auto simp: elsewhere_same_def actions_of_def reports_of_def)

lemma reports_of_settle:
  "(\<And>q. report_process_id (f q) = report_process_id q) \<Longrightarrow>
     reports_of pid (settle rid f db) = (\<lambda>r. if report_id r = rid then f r else r) ` reports_of pid db"
  by (auto simp: reports_of_def set_settle)

lemma elsewhere_settle:
  assumes "schema_ok db" "r \<in> set (frozen_reports db)" "report_id r = rid"
    and "\<And>q. report_process_id (f q) = report_process_id q"
  shows "elsewhere_same (report_process_id r) db (settle rid f db)"
proof -
  have "reports_of pid (settle rid f db) = reports_of pid db" if "pid \<noteq> report_process_id r" for pid
  proof -
    have "report_id q \<noteq> rid" if "q \<in> reports_of pid db" for q
    proof
      assume "report_id q = rid"
      with that assms(3) have "r = q" by (intro report_unique [OF assms(1,2)]) (simp_all add: reports_of_def)
      with that \<open>pid \<noteq> report_process_id r\<close> show False by (simp add: reports_of_def)
    qed
    then have "(\<lambda>q. if report_id q = rid then f q else q) ` reports_of pid db = id ` reports_of pid db"
      by (intro image_cong) auto
    then show ?thesis by (simp add: reports_of_settle [OF assms(4)])
  qed
  then show ?thesis by (simp add: elsewhere_same_def actions_of_def)
qed

lemma elsewhere_delete_actions:
  "(\<And>a. P a \<Longrightarrow> action_process_id a = pid) \<Longrightarrow> elsewhere_same pid db (delete_actions P db)"
  by (auto simp: elsewhere_same_def actions_of_def reports_of_def reports_delete_actions)

lemma elsewhere_delete_processes:
  "schema_ok db \<Longrightarrow> elsewhere_same pid db (delete_processes (owned pid sid) db)"
  by (auto simp: elsewhere_same_def actions_of_def reports_of_def delete_processes_sets
      delete_processes_reports owned_def)

lemma db_inv_step:
  assumes "db_inv codec db" "schema_ok db'" "elsewhere_same pid db db'"
    and self: "\<And>p. p \<in> set (processes db') \<Longrightarrow> process_id p = pid \<Longrightarrow>
           proc_inv p (actions_of pid db') (reports_of pid db')"
    and bodies: "\<And>r. r \<in> set (frozen_reports db') \<Longrightarrow> report_process_id r = pid \<Longrightarrow> body_ok codec r"
  shows "db_inv codec db'"
  unfolding db_inv_def
proof (intro conjI ballI)
  fix p assume p: "p \<in> set (processes db')"
  show "proc_inv p (actions_of (process_id p) db') (reports_of (process_id p) db')"
  proof (cases "process_id p = pid")
    case False
    with p assms(3) have "p \<in> {p \<in> set (processes db). process_id p \<noteq> pid}"
      by (simp only: elsewhere_same_def mem_Collect_eq) blast
    with False assms(1,3) show ?thesis by (simp add: elsewhere_same_def db_inv_def)
  qed (use p self in simp)
next
  fix r assume r: "r \<in> set (frozen_reports db')"
  show "body_ok codec r"
  proof (cases "report_process_id r = pid")
    case False
    with r have "r \<in> reports_of (report_process_id r) db'" by (simp add: reports_of_def)
    with False assms(3) have "r \<in> reports_of (report_process_id r) db" by (simp add: elsewhere_same_def)
    with assms(1) show ?thesis by (simp add: reports_of_def db_inv_def)
  qed (use r bodies in simp)
qed (rule assms(2))

lemma actions_of_simps [simp]:
  "actions_of pid (touch q sid f db) = actions_of pid db"
  "actions_of pid (frontier q sid n db) = actions_of pid db"
  "actions_of pid (with_report r db) = actions_of pid db"
  "actions_of pid (settle rid g db) = actions_of pid db"
  "actions_of pid (with_action a db) =
     (if action_process_id a = pid then insert a (actions_of pid db) else actions_of pid db)"
  "actions_of pid (delete_actions P db) = {a \<in> actions_of pid db. \<not> P a}"
  by (auto simp: actions_of_def)

lemma reports_of_simps [simp]:
  "reports_of pid (touch q sid f db) = reports_of pid db"
  "reports_of pid (frontier q sid n db) = reports_of pid db"
  "reports_of pid (with_action a db) = reports_of pid db"
  "reports_of pid (with_report r db) =
     (if report_process_id r = pid then insert r (reports_of pid db) else reports_of pid db)"
  by (auto simp: reports_of_def)

lemma process_touched:
  assumes "schema_ok db" "p \<in> set (processes db)" "owned pid sid p"
    and "\<And>q. process_id (f q) = process_id q"
    and "p' \<in> set (processes (touch pid sid f db))" "process_id p' = pid"
  shows "p' = f p"
proof -
  from assms(5) obtain q where q: "q \<in> set (processes db)" "p' = (if owned pid sid q then f q else q)"
    by (auto simp: set_update_where)
  with assms(4,6) have "process_id q = pid" by (auto split: if_splits)
  with q assms(1-3) have "q = p" by (auto simp: owned_def intro: process_unique)
  with q assms(3) show ?thesis by simp
qed

section \<open>Updating one process row\<close>

lemma schema_ok_touch:
  assumes "schema_ok db" "\<And>q. process_id (f q) = process_id q"
    and "\<And>q. q \<in> set (processes db) \<Longrightarrow> owned pid sid q \<Longrightarrow> process_check (f q)"
  shows "schema_ok (touch pid sid f db)"
proof -
  have "map process_id (processes (touch pid sid f db)) = map process_id (processes db)"
    using assms(2) by simp
  moreover have "list_all process_check (processes (touch pid sid f db))"
    using assms(1,3) by (auto simp: schema_defs list_all_iff set_update_where)
  ultimately show ?thesis
    using assms(1) unfolding schema_ok_def rows_ok_def keys_ok_def references_ok_def
    by (simp only: touch_simps(1-3))
qed

lemma schema_ok_frontier:
  assumes "schema_ok db" "0 \<le> n"
  shows "schema_ok (frontier pid sid n db)"
  unfolding frontier_def
proof (rule schema_ok_touch [OF assms(1)])
  fix q assume "q \<in> set (processes db)"
  then have "process_check q" by (rule schema_okD(1) [OF assms(1)])
  with assms(2) show "process_check (q\<lparr>resolved_action_seq := n\<rparr>)" by (simp add: process_check_def)
qed simp

text \<open>The updates that neither open nor close a phase the invariant looks at.\<close>

definition mild :: "process \<Rightarrow> process \<Rightarrow> bool" where
  "mild p p' \<longleftrightarrow>
     resolved_action_seq p' = resolved_action_seq p
   \<and> (phase p' = ProcessTerminal \<longleftrightarrow> phase p = ProcessTerminal)
   \<and> (phase p = ProcessAccepted \<longrightarrow> phase p' = ProcessAccepted)
   \<and> local_closed p' = local_closed p
   \<and> (exec_committed p \<longrightarrow> exec_committed p')
   \<and> (containment_kind p \<noteq> [] \<longrightarrow> containment_kind p' \<noteq> [])"

lemma mild_proc_inv: "proc_inv p As Rs \<Longrightarrow> mild p p' \<Longrightarrow> proc_inv p' As Rs"
  unfolding proc_inv_def mild_def by (auto split: if_splits)

lemma db_inv_touch:
  assumes "db_inv codec db" "p \<in> set (processes db)" "owned pid sid p"
    and "\<And>q. process_id (f q) = process_id q" "schema_ok (touch pid sid f db)"
    and "proc_inv (f p) (actions_of pid db) (reports_of pid db)"
  shows "db_inv codec (touch pid sid f db)"
proof (rule db_inv_step [OF assms(1,5) elsewhere_touch])
  fix p' assume "p' \<in> set (processes (touch pid sid f db))" "process_id p' = pid"
  then have "p' = f p" using process_touched [OF db_invD(1) [OF assms(1)] assms(2,3,4)] by blast
  with assms(6) show "proc_inv p' (actions_of pid (touch pid sid f db)) (reports_of pid (touch pid sid f db))"
    by simp
qed (use assms(1,4) in \<open>auto simp: db_invD(3)\<close>)

lemma db_inv_mild:
  assumes "db_inv codec db" "p \<in> set (processes db)" "owned pid sid p"
    and "\<And>q. process_id (f q) = process_id q" "schema_ok (touch pid sid f db)" "mild p (f p)"
  shows "db_inv codec (touch pid sid f db)"
proof (rule db_inv_touch [OF assms(1-5)])
  have "proc_inv p (actions_of pid db) (reports_of pid db)"
    using db_invD(2) [OF assms(1,2)] assms(3) by (simp add: owned_def)
  then show "proc_inv (f p) (actions_of pid db) (reports_of pid db)" using assms(6) by (rule mild_proc_inv)
qed

section \<open>Moving the frontier and admitting an action\<close>

text \<open>A local action of the process stands right after the frontier, so a process has at most one.\<close>

lemma reaches_actions:
  assumes "db_inv codec db" "reaches pid sid a p db" "b \<in> actions_of pid db"
  shows "action_seq b = action_seq a" "resolved_action_seq p = action_seq a - 1"
proof -
  have p: "p \<in> set (processes db)" "process_id p = pid"
    using assms(2) by (auto simp: reaches_def owned_def)
  have "action_seq b = resolved_action_seq p + 1"
    using db_invD(2) [OF assms(1) p] assms(3) by (auto simp: proc_inv_def)
  moreover have "action_seq b \<le> resolved_action_seq p \<or> action_seq a \<le> action_seq b"
    "resolved_action_seq p < action_seq a"
    using assms(2,3) by (auto simp: reaches_def actions_of_def)
  ultimately show "action_seq b = action_seq a" "resolved_action_seq p = action_seq a - 1" by linarith+
qed

lemma proc_inv_frontier:
  assumes "proc_inv p {} Rs" "n \<le> max_int64"
  shows "proc_inv (p\<lparr>resolved_action_seq := n\<rparr>) {} Rs"
  using assms by (auto simp: proc_inv_def)

lemma db_inv_frontier:
  assumes "db_inv codec db" "reaches pid sid a p db" "in_int64 (action_seq a)"
  shows "db_inv codec (frontier pid sid (action_seq a - 1) db)"
proof (cases "actions_of pid db = {}")
  case True
  have p: "p \<in> set (processes db)" "owned pid sid p" "process_id p = pid"
    and ok: "schema_ok (frontier pid sid (action_seq a - 1) db)"
    using assms(2) by (auto simp: reaches_def owned_def)
  have "proc_inv (p\<lparr>resolved_action_seq := action_seq a - 1\<rparr>) (actions_of pid db) (reports_of pid db)"
    using db_invD(2) [OF assms(1) p(1,3)] assms(3) True
    by (auto simp: in_int64_def intro: proc_inv_frontier)
  then show ?thesis
    using ok unfolding frontier_def by (intro db_inv_touch [OF assms(1) p(1,2)]) simp_all
next
  case False
  then obtain b where "b \<in> actions_of pid db" by blast
  then have "resolved_action_seq p = action_seq a - 1" by (rule reaches_actions [OF assms(1,2)])
  then have "frontier pid sid (action_seq a - 1) db = db"
    using assms(2) by (intro frontier_same [OF db_invD(1) [OF assms(1)]]) (auto simp: reaches_def)
  with assms(1) show ?thesis by simp
qed

lemma reaches_no_action:
  assumes "db_inv codec db" "reaches pid sid a p db"
    and "schema_ok (with_action (a\<lparr>effect_committed := e\<rparr>) (frontier pid sid n db))"
  shows "actions_of pid db = {}"
proof (rule ccontr)
  assume "actions_of pid db \<noteq> {}"
  then obtain b where b: "b \<in> actions_of pid db" by blast
  let ?a = "a\<lparr>effect_committed := e\<rparr>"
  have "action_key b = action_key ?a"
    using reaches_actions(1) [OF assms(1,2) b] b assms(2)
    by (auto simp: action_key_def actions_of_def reaches_def)
  moreover have "action_key ?a \<notin> action_key ` set (process_actions db)"
    using schema_okD(6) [OF assms(3)] by (simp add: with_action_def)
  ultimately show False using b by (auto simp: actions_of_def image_iff)
qed

lemma frontier_process:
  assumes "db_inv codec db" "reaches pid sid a p db"
    and "p' \<in> set (processes (frontier pid sid n db))" "process_id p' = pid"
  shows "p' = p\<lparr>resolved_action_seq := n\<rparr>"
proof -
  have p: "p \<in> set (processes db)" "owned pid sid p" using assms(2) by (auto simp: reaches_def)
  have keep: "\<And>q. process_id (q\<lparr>resolved_action_seq := n\<rparr>) = process_id q" by simp
  show ?thesis
    by (rule process_touched [OF db_invD(1) [OF assms(1)] p keep assms(3) [unfolded frontier_def] assms(4)])
qed

lemma proc_inv_admit:
  assumes "proc_inv p {} Rs" "action_seq a = n + 1" "in_int64 (action_seq a)"
    and "phase p = ProcessAccepted \<or> phase p = ProcessTerminal" "\<not> local_closed p"
    and "if effect_committed a then exec_committed p \<and> containment_kind p \<noteq> [] else reported Rs' a"
    and "Rs \<subseteq> Rs'" "\<forall>r \<in> Rs' - Rs. report_kind r = ReportActionTerminal"
  shows "proc_inv (p\<lparr>resolved_action_seq := n\<rparr>) {a} Rs'"
proof -
  have "(\<exists>r \<in> Rs'. report_kind r = ReportProcessTerminal) \<longleftrightarrow> (\<exists>r \<in> Rs. report_kind r = ReportProcessTerminal)"
    using assms(7,8) by (metis DiffI report_kind.distinct(7) subsetD)
  moreover have "n \<le> max_int64" using assms(2,3) by (simp add: in_int64_def)
  ultimately show ?thesis
    using assms(1-6) unfolding proc_inv_def in_int64_def by (simp split: if_splits)
qed

lemma db_inv_execute:
  assumes "db_inv codec db" "reaches pid sid a p db" "in_int64 (action_seq a)"
    and "\<not> local_closed p" "phase p = ProcessAccepted" "exec_committed p" "containment_kind p \<noteq> []"
    and "db' = with_action (a\<lparr>effect_committed := True\<rparr>) (frontier pid sid (action_seq a - 1) db)"
    and "schema_ok db'"
  shows "db_inv codec db'"
proof (rule db_inv_step [OF assms(1,9)])
  have pid: "action_process_id a = pid" "p \<in> set (processes db)" "process_id p = pid"
    using assms(2) by (auto simp: reaches_def owned_def)
  show "elsewhere_same pid db db'"
    unfolding assms(8) using pid
    by (intro elsewhere_trans [OF elsewhere_frontier elsewhere_with_action]) simp
  fix p' assume "p' \<in> set (processes db')" "process_id p' = pid"
  then have p': "p' = p\<lparr>resolved_action_seq := action_seq a - 1\<rparr>"
    using frontier_process [OF assms(1,2)] by (simp add: assms(8))
  have "actions_of pid db = {}" using reaches_no_action [OF assms(1,2)] assms(8,9) by simp
  moreover from this have "proc_inv p {} (reports_of pid db)" using db_invD(2) [OF assms(1) pid(2,3)] by simp
  then have "proc_inv (p\<lparr>resolved_action_seq := action_seq a - 1\<rparr>) {a\<lparr>effect_committed := True\<rparr>}
      (reports_of pid db)"
    using assms(3-7) by (rule_tac proc_inv_admit [where Rs = "reports_of pid db"]) simp_all
  ultimately show "proc_inv p' (actions_of pid db') (reports_of pid db')"
    by (simp add: p' assms(8) pid)
qed (use db_invD(3) [OF assms(1)] assms(8) in auto)

end
