(* ===== verification/StateDB_Preservation.thy ===== *)
theory StateDB_Preservation
  imports StateDB_Invariant
begin

text \<open>
  Every operation of the state database that succeeds keeps the database invariant, and changes
  the rows of one process only.  One lemma per operation; the sequence arguments are \<open>int64\<close> values,
  as their Go type makes them.
\<close>

section \<open>Frozen reports\<close>

lemma reportFromSQLC_frozen_row:
  "reportFromSQLC (frozen_row rid q) =
     q\<lparr>ID := rid, State := ReportPending, ErrorCode := [], Error := []\<rparr>"
  by (cases q) (simp add: reportFromSQLC_def frozen_row_def null_string_def)

lemma validateReport_persistence [simp]:
  "validateReport codec (q\<lparr>ID := i, State := s, ErrorCode := c, Error := e\<rparr>) = validateReport codec q"
  by (simp add: validateReport_def cong: option.case_cong if_cong)

lemma wire_persistence:
  "validateReportWireEnvelope codec (q\<lparr>ID := i, State := s, ErrorCode := c, Error := e\<rparr>)
     = validateReportWireEnvelope codec (q\<lparr>ID := i, State := s'\<rparr>)"
  by (simp add: validateReportWireEnvelope_def cong: option.case_cong)

lemma freezeReportTx_body_ok:
  assumes "reportBySlotTx (Kind q) (ProcessID q) (ActionID q) db = None"
    and "freezeReportTx codec rid q db = Inr (res, db')"
  shows "body_ok codec (frozen_row rid q)"
proof -
  have "validateReport codec q = Inr ()"
    and "is_ok (validateReportWireEnvelope codec (q\<lparr>ID := rid, State := ReportPending\<rparr>))"
    using assms by (auto simp: freezeReportTx_def Let_def split: if_splits)
  then show ?thesis
    by (auto simp: body_ok_def reportFromSQLC_frozen_row wire_persistence [where s' = ReportPending]
        is_ok_def split: sum.splits)
qed

lemma body_ok_settled [simp]:
  "body_ok codec (acknowledged r) = body_ok codec r" "body_ok codec (rejected c e r) = body_ok codec r"
  by (simp_all add: body_ok_def acknowledged_def rejected_def reportFromSQLC_def validateReport_def
      validateReportWireEnvelope_def cong: option.case_cong if_cong)

text \<open>
  What a freeze adds to a process: nothing, or one row of the report's kind.  The set of reports
  afterwards is \<open>Rs'\<close>, and the report asked for is in it.
\<close>

lemma freezeReportTx_reports:
  assumes "schema_ok db" "freezeReportTx codec rid q db = Inr (res, db')"
    and "\<forall>r \<in> set (frozen_reports db). body_ok codec r"
  shows "elsewhere_same (ProcessID q) db db'" "\<forall>r \<in> set (frozen_reports db'). body_ok codec r"
    and "reports_of pid db \<subseteq> reports_of pid db'"
    and "\<forall>r \<in> reports_of pid db' - reports_of pid db. report_kind r = Kind q"
    and "\<exists>r \<in> reports_of (ProcessID q) db'. report_action_id r = null_string (ActionID q)
           \<and> report_kind r = Kind q"
proof -
  have "elsewhere_same (ProcessID q) db db' \<and> (\<forall>r \<in> set (frozen_reports db'). body_ok codec r)
     \<and> reports_of pid db \<subseteq> reports_of pid db'
     \<and> (\<forall>r \<in> reports_of pid db' - reports_of pid db. report_kind r = Kind q)
     \<and> (\<exists>r \<in> reports_of (ProcessID q) db'. report_action_id r = null_string (ActionID q)
           \<and> report_kind r = Kind q)"
    using assms(1,2)
  proof (cases rule: freezeReportTxE)
    case (existing r)
    with assms(3) show ?thesis by (auto simp: reports_of_def)
  next
    case stored
    then have "body_ok codec (frozen_row rid q)" using freezeReportTx_body_ok [OF _ assms(2)] by simp
    with stored assms(3) show ?thesis by (auto simp: elsewhere_with_report)
  qed
  then show "elsewhere_same (ProcessID q) db db'" "\<forall>r \<in> set (frozen_reports db'). body_ok codec r"
    and "reports_of pid db \<subseteq> reports_of pid db'"
    and "\<forall>r \<in> reports_of pid db' - reports_of pid db. report_kind r = Kind q"
    and "\<exists>r \<in> reports_of (ProcessID q) db'. report_action_id r = null_string (ActionID q)
           \<and> report_kind r = Kind q"
    by blast+
qed

lemma reported_mono: "reported Rs a \<Longrightarrow> Rs \<subseteq> Rs' \<Longrightarrow> reported Rs' a"
  by (auto simp: reported_def)

lemma proc_inv_more_reports:
  assumes "proc_inv p As Rs" "Rs \<subseteq> Rs'"
    and "phase p = ProcessAccepted \<or> phase p = ProcessTerminal"
    and "\<forall>r \<in> Rs' - Rs. report_kind r \<noteq> ReportProcessTerminal"
  shows "proc_inv p As Rs'"
proof -
  have "(\<exists>r \<in> Rs'. report_kind r = ReportProcessTerminal) \<longleftrightarrow> (\<exists>r \<in> Rs. report_kind r = ReportProcessTerminal)"
    using assms(2,4) by blast
  then show ?thesis
    using assms(1,3) reported_mono [OF _ assms(2)] unfolding proc_inv_def by (auto split: if_splits)
qed

lemma db_inv_freeze:
  assumes "db_inv codec db" "freezeReportTx codec rid q db = Inr (res, db')"
    and "p \<in> set (processes db)" "process_id p = ProcessID q"
    and "phase p = ProcessAccepted \<or> phase p = ProcessTerminal" "Kind q \<noteq> ReportProcessTerminal"
  shows "db_inv codec db'"
proof -
  have ok: "schema_ok db" and bodies: "\<forall>r \<in> set (frozen_reports db). body_ok codec r"
    using assms(1) by (auto simp: db_inv_def)
  note fr = freezeReportTx_reports [OF ok assms(2) bodies]
  note frame = freezeReportTx_frame [OF ok assms(2)]
  show ?thesis
  proof (rule db_inv_step [OF assms(1) frame(4) fr(1)])
    fix p' assume "p' \<in> set (processes db')" "process_id p' = ProcessID q"
    with frame(1) assms(3,4) have "p' = p" by (intro process_unique [OF ok]) simp_all
    moreover have "actions_of (ProcessID q) db' = actions_of (ProcessID q) db"
      using frame(2) by (simp add: actions_of_def)
    moreover have "proc_inv p (actions_of (ProcessID q) db) (reports_of (ProcessID q) db')"
      using fr(3,4) assms(5,6) by (intro proc_inv_more_reports [OF db_invD(2) [OF assms(1,3,4)]]) auto
    ultimately show "proc_inv p' (actions_of (ProcessID q) db') (reports_of (ProcessID q) db')" by simp
  qed (use fr(2) in blast)
qed

lemma FreezeStartedReport_inv:
  assumes "db_inv codec db" "FreezeStartedReport codec rid pid sid q db = Inr (res, db')"
  shows "db_inv codec db'" "elsewhere_same pid db db'"
proof -
  from assms(2) obtain p where p: "p \<in> set (processes db)" "owned pid sid p" "Kind q = ReportProcessStarted"
    "ProcessID q = pid" "phase p = ProcessAccepted \<or> phase p = ProcessTerminal"
    and fr: "freezeReportTx codec rid q db = Inr (res, db')" by (rule FreezeStartedReportE)
  show "db_inv codec db'"
    using p by (intro db_inv_freeze [OF assms(1) fr]) (auto simp: owned_def)
  show "elsewhere_same pid db db'"
    using freezeReportTx_reports(1) [OF _ fr] assms(1) p(4) by (simp add: db_inv_def)
qed

lemma freezeActionReport_inv:
  assumes "db_inv codec db" "freezeActionReport codec rid pid sid aid q db = Inr (res, db')"
  shows "db_inv codec db'" "elsewhere_same pid db db'"
proof -
  have "db_inv codec db' \<and> elsewhere_same pid db db'"
    using assms(2)
  proof (cases rule: freezeActionReportE)
    case existing
    with assms(1) show ?thesis by simp
  next
    case (froze p a)
    have "proc_inv p (actions_of pid db) (reports_of pid db)"
      using froze(1,2) by (intro db_invD(2) [OF assms(1)]) (simp_all add: owned_def)
    moreover have "a \<in> actions_of pid db" using froze(3,5) by (simp add: actions_of_def)
    ultimately have "phase p = ProcessAccepted \<or> phase p = ProcessTerminal"
      by (auto simp: proc_inv_def)
    then have "db_inv codec db'"
      using froze by (intro db_inv_freeze [OF assms(1) froze(10), of p]) (simp_all add: owned_def)
    moreover have "elsewhere_same pid db db'"
      using freezeReportTx_reports(1) [OF _ froze(10)] assms(1) froze(7) by (simp add: db_inv_def)
    ultimately show ?thesis by simp
  qed
  then show "db_inv codec db'" "elsewhere_same pid db db'" by simp_all
qed

lemma proc_inv_terminal:
  assumes "proc_inv p As Rs" "Rs \<subseteq> Rs'" "\<exists>r \<in> Rs'. report_kind r = ReportProcessTerminal"
  shows "proc_inv (p\<lparr>phase := ProcessTerminal, action_admission_closed := True\<rparr>) As Rs'"
  using assms(1,3) reported_mono [OF _ assms(2)] unfolding proc_inv_def by (auto split: if_splits)

lemma freezeTerminalReport_inv:
  assumes "db_inv codec db" "freezeTerminalReport codec rid pid sid q db = Inr (res, db')"
  shows "db_inv codec db'" "elsewhere_same pid db db'"
proof -
  from assms(2) obtain p db1 where p: "p \<in> set (processes db)" "owned pid sid p"
      "Kind q = ReportProcessTerminal" "ProcessID q = pid"
    and fr: "freezeReportTx codec rid q db = Inr (res, db1)"
    and db': "db' = touch pid sid (\<lambda>p. p\<lparr>phase := ProcessTerminal, action_admission_closed := True\<rparr>) db1"
    and ok': "schema_ok db'" by (rule freezeTerminalReportE)
  have ok: "schema_ok db" and bodies: "\<forall>r \<in> set (frozen_reports db). body_ok codec r"
    using assms(1) by (auto simp: db_inv_def)
  note reps = freezeReportTx_reports [OF ok fr bodies]
  note frame = freezeReportTx_frame [OF ok fr]
  show else': "elsewhere_same pid db db'"
    using reps(1) elsewhere_trans elsewhere_touch unfolding db' p(4) by fastforce
  show "db_inv codec db'"
  proof (rule db_inv_step [OF assms(1) ok' else'])
    fix p' assume p': "p' \<in> set (processes db')" "process_id p' = pid"
    have "p' = p\<lparr>phase := ProcessTerminal, action_admission_closed := True\<rparr>"
      using p(1) frame(1) p' unfolding db'
      by (intro process_touched [OF frame(4) _ p(2), where f = "\<lambda>p. p\<lparr>phase := ProcessTerminal,
            action_admission_closed := True\<rparr>"]) simp_all
    moreover have "proc_inv p (actions_of pid db) (reports_of pid db)"
      using p(1,2) by (intro db_invD(2) [OF assms(1)]) (simp_all add: owned_def)
    then have "proc_inv (p\<lparr>phase := ProcessTerminal, action_admission_closed := True\<rparr>)
        (actions_of pid db) (reports_of pid db1)"
      using reps(3,5) p(3,4) by (intro proc_inv_terminal [where Rs = "reports_of pid db"]) auto
    moreover have "actions_of pid db' = actions_of pid db"
      using frame(2) unfolding db' by (simp add: actions_of_def)
    ultimately show "proc_inv p' (actions_of pid db') (reports_of pid db')" by (simp add: db')
  qed (use reps(2) in \<open>simp add: db'\<close>)
qed

section \<open>Actions\<close>

lemma ApplyOnce_inv:
  assumes "db_inv codec db" "in_int64 (action_seq a)" "ApplyOnce pid sid a db = Inr ((d, rep), db')"
  shows "db_inv codec db'" "elsewhere_same pid db db'"
proof -
  have "db_inv codec db' \<and> elsewhere_same pid db db'"
    using db_invD(1) [OF assms(1)] assms(2,3)
  proof (cases rule: ApplyOnceE)
    case unchanged
    with assms(1) show ?thesis by simp
  next
    case (closed p)
    with assms(1,2) show ?thesis by (simp add: db_inv_frontier elsewhere_frontier)
  next
    case (execute p)
    then have "action_process_id a = pid" by (simp add: reaches_def)
    then have "elsewhere_same pid db db'"
      unfolding execute(9) by (intro elsewhere_trans [OF elsewhere_frontier elsewhere_with_action]) simp
    with db_inv_execute [OF assms(1) execute(2) assms(2) execute(3,5,6,7,9,8)] show ?thesis by simp
  qed
  then show "db_inv codec db'" "elsewhere_same pid db db'" by simp_all
qed

lemma RecordActionWithoutEffect_recorded:
  assumes "db_inv codec db" "in_int64 (action_seq a)" "reaches pid sid a p db" "\<not> local_closed p"
    and "phase p = ProcessAccepted \<or> phase p = ProcessTerminal" "schema_ok db2"
    and "db2 = with_action (a\<lparr>effect_committed := False\<rparr>) (frontier pid sid (action_seq a - 1) db)"
    and "ProcessID q = pid" "ActionID q = action_id a" "Kind q = ReportActionTerminal"
    and fr: "freezeReportTx codec rid q db2 = Inr (rep, db')"
  shows "db_inv codec db' \<and> elsewhere_same pid db db'"
proof -
  let ?a = "a\<lparr>effect_committed := False\<rparr>"
  have pid: "action_process_id a = pid" "p \<in> set (processes db)" "process_id p = pid"
    using assms(3) by (auto simp: reaches_def owned_def)
  have bodies: "\<forall>r \<in> set (frozen_reports db2). body_ok codec r"
    using assms(1,7) by (auto simp: db_inv_def)
  note reps = freezeReportTx_reports [OF assms(6) fr bodies]
  note frame = freezeReportTx_frame [OF assms(6) fr]
  have "elsewhere_same pid db db2"
    unfolding assms(7) using pid
    by (intro elsewhere_trans [OF elsewhere_frontier elsewhere_with_action]) simp
  then have else': "elsewhere_same pid db db'" using reps(1) assms(8) by (auto intro: elsewhere_trans)
  have none: "actions_of pid db = {}"
    using reaches_no_action [OF assms(1,3)] assms(6,7) by simp
  then have "proc_inv p {} (reports_of pid db)" using db_invD(2) [OF assms(1) pid(2,3)] by simp
  moreover have "reports_of pid db2 = reports_of pid db" by (simp add: assms(7))
  moreover have "action_id a \<noteq> []"
    using assms(10) validateReport_action [of codec q] assms(9) fr by (auto simp: freezeReportTx_def)
  then have "reported (reports_of pid db') ?a"
    using reps(5) assms(8,9) by (auto simp: reported_def null_string_def)
  ultimately have inv: "proc_inv (p\<lparr>resolved_action_seq := action_seq a - 1\<rparr>) {?a} (reports_of pid db')"
    using assms(2,4,5,10) reps(3,4) [of pid]
    by (intro proc_inv_admit [where Rs = "reports_of pid db"]) simp_all
  have "db_inv codec db'"
  proof (rule db_inv_step [OF assms(1) frame(4) else'])
    fix p' assume "p' \<in> set (processes db')" "process_id p' = pid"
    then have "p' = p\<lparr>resolved_action_seq := action_seq a - 1\<rparr>"
      using frontier_process [OF assms(1,3)] frame(1) by (simp add: assms(7))
    moreover have "actions_of pid db' = {?a}"
      using frame(2) none pid(1) unfolding assms(7) by (auto simp: actions_of_def)
    ultimately show "proc_inv p' (actions_of pid db') (reports_of pid db')" using inv by simp
  qed (use reps(2) in blast)
  with else' show ?thesis by simp
qed

lemma RecordActionWithoutEffect_inv:
  assumes "db_inv codec db" "in_int64 (action_seq a)"
    and "RecordActionWithoutEffect codec rid pid sid a q db = Inr ((d, rep), db')"
  shows "db_inv codec db'" "elsewhere_same pid db db'"
proof -
  have "db_inv codec db' \<and> elsewhere_same pid db db'"
    using db_invD(1) [OF assms(1)] assms(2,3)
  proof (cases rule: RecordActionWithoutEffectE)
    case unchanged
    with assms(1) show ?thesis by simp
  next
    case (closed p)
    with assms(1,2) show ?thesis by (simp add: db_inv_frontier elsewhere_frontier)
  next
    case (recorded p db2)
    from recorded(2-) show ?thesis by (rule RecordActionWithoutEffect_recorded [OF assms(1,2)])
  qed
  then show "db_inv codec db'" "elsewhere_same pid db db'" by simp_all
qed

text \<open>
  Resolving the process's action: the frontier moves onto it and its rows go.  \<open>aid\<close> is the only
  action of the process, if it has one.
\<close>

lemma db_inv_resolve:
  assumes "db_inv codec db" "p \<in> set (processes db)" "owned pid sid p" "in_int64 n"
    and only: "\<forall>b \<in> actions_of pid db. action_id b = aid"
    and "schema_ok (frontier pid sid n db)"
  shows "db_inv codec (unrecorded pid aid (frontier pid sid n db))"
    and "elsewhere_same pid db (unrecorded pid aid (frontier pid sid n db))"
proof -
  let ?P = "\<lambda>b. action_id b = aid \<and> action_process_id b = pid"
  let ?db = "unrecorded pid aid (frontier pid sid n db)"
  have ok: "schema_ok db" and ok': "schema_ok ?db"
    using assms(1,6) by (auto simp: db_inv_def unrecorded_def schema_ok_delete_actions)
  show else': "elsewhere_same pid db ?db"
    unfolding unrecorded_def
    by (rule elsewhere_trans [OF elsewhere_frontier elsewhere_delete_actions]) simp
  have none: "actions_of pid ?db = {}" using only by (auto simp: unrecorded_def actions_of_def)
  have sub: "reports_of pid ?db \<subseteq> reports_of pid db"
    by (auto simp: unrecorded_def reports_of_def reports_delete_actions)
  have keeps: "r \<in> reports_of pid ?db" if "r \<in> reports_of pid db" "report_kind r = ReportProcessTerminal" for r
  proof -
    have "report_check r" using that(1) by (intro schema_okD(3) [OF ok]) (simp add: reports_of_def)
    with that show ?thesis
      by (auto simp: unrecorded_def reports_of_def reports_delete_actions report_check_def)
  qed
  show "db_inv codec ?db"
  proof (rule db_inv_step [OF assms(1) ok' else'])
    fix p' assume p': "p' \<in> set (processes ?db)" "process_id p' = pid"
    have "p' = p\<lparr>resolved_action_seq := n\<rparr>"
      using p' unfolding unrecorded_def frontier_def
      by (intro process_touched [OF ok assms(2,3), where f = "\<lambda>p. p\<lparr>resolved_action_seq := n\<rparr>"]) simp_all
    moreover have "proc_inv p (actions_of pid db) (reports_of pid db)"
      using assms(2,3) by (intro db_invD(2) [OF assms(1)]) (simp_all add: owned_def)
    then have "proc_inv (p\<lparr>resolved_action_seq := n\<rparr>) {} (reports_of pid ?db)"
      using sub keeps assms(4) unfolding proc_inv_def in_int64_def by (auto split: if_splits)
    ultimately show "proc_inv p' (actions_of pid ?db) (reports_of pid ?db)" by (simp add: none)
  next
    fix r assume "r \<in> set (frozen_reports ?db)"
    then have "r \<in> set (frozen_reports db)" by (simp add: unrecorded_def reports_delete_actions)
    then show "body_ok codec r" by (rule db_invD(3) [OF assms(1)])
  qed
qed

lemma releaseAction_inv:
  assumes "db_inv codec db" "in_int64 seq" "releaseAction pid sid aid seq ab db = Inr db'"
  shows "db_inv codec db'" "elsewhere_same pid db db'"
proof -
  have ok: "schema_ok db" by (rule db_invD(1) [OF assms(1)])
  have "db_inv codec db' \<and> elsewhere_same pid db db'"
    using ok assms(2,3)
  proof (cases rule: releaseActionE)
    case same
    with assms(1) show ?thesis by simp
  next
    case (moves p)
    have pinv: "proc_inv p (actions_of pid db) (reports_of pid db)"
      using moves(1,2) by (intro db_invD(2) [OF assms(1)]) (simp_all add: owned_def)
    have "action_id b = aid" if "b \<in> actions_of pid db" for b
    proof -
      have "action_seq b = resolved_action_seq p + 1" using pinv that by (auto simp: proc_inv_def)
      moreover have "action_seq b \<le> resolved_action_seq p \<or> seq \<le> action_seq b"
        using moves(4) that by (auto simp: actions_of_def)
      ultimately have "action_seq b = seq" using moves(3) by linarith
      with moves(5) that show ?thesis by (auto simp: actions_of_def)
    qed
    moreover have "0 \<le> seq"
      using moves(3) schema_okD(1) [OF ok moves(1)] by (simp add: process_check_def)
    then have "schema_ok (frontier pid sid seq db)" by (rule schema_ok_frontier [OF ok])
    ultimately show ?thesis
      using db_inv_resolve [OF assms(1) moves(1,2) assms(2), of aid] moves(7) by auto
  qed
  then show "db_inv codec db'" "elsewhere_same pid db db'" by simp_all
qed

section \<open>Settling reports\<close>

text \<open>Settling changes state and error columns only: the fields the invariant reads stay.\<close>

definition settling :: "(frozen_report \<Rightarrow> frozen_report) \<Rightarrow> bool" where
  "settling f \<longleftrightarrow> (\<forall>r. report_process_id (f r) = report_process_id r
     \<and> report_action_id (f r) = report_action_id r \<and> report_kind (f r) = report_kind r
     \<and> report_id (f r) = report_id r \<and> report_body (f r) = report_body r)"

lemma settling_cases [simp]: "settling acknowledged" "settling (rejected c e)"
  by (simp_all add: settling_def acknowledged_def rejected_def)

lemma body_ok_settling: "settling f \<Longrightarrow> body_ok codec (f r) = body_ok codec r"
  by (simp add: settling_def body_ok_def reportFromSQLC_def validateReport_def
      validateReportWireEnvelope_def cong: option.case_cong if_cong)

lemma proc_inv_image:
  assumes "proc_inv p As Rs"
    and "\<And>r. report_kind (g r) = report_kind r" "\<And>r. report_action_id (g r) = report_action_id r"
  shows "proc_inv p As (g ` Rs)"
proof -
  have "(\<exists>r \<in> g ` Rs. report_kind r = k) \<longleftrightarrow> (\<exists>r \<in> Rs. report_kind r = k)" for k
    using assms(2) by simp
  moreover have "reported (g ` Rs) = reported Rs" using assms(3) by (simp add: reported_def fun_eq_iff)
  ultimately show ?thesis using assms(1) unfolding proc_inv_def by (simp only: image_is_empty) blast
qed

lemma proc_inv_settled:
  assumes "proc_inv p As Rs" "settling f"
  shows "proc_inv p As ((\<lambda>r. if report_id r = rid then f r else r) ` Rs)"
  using assms(2) by (intro proc_inv_image [OF assms(1)]) (simp_all add: settling_def)

lemma db_inv_settle:
  assumes "db_inv codec db" "r \<in> set (frozen_reports db)" "report_id r = rid" "settling f"
    and "schema_ok (settle rid f db)"
  shows "db_inv codec (settle rid f db)"
proof -
  have keep: "\<And>q. report_process_id (f q) = report_process_id q" using assms(4) by (simp add: settling_def)
  let ?pid = "report_process_id r"
  show ?thesis
  proof (rule db_inv_step [OF assms(1,5) elsewhere_settle [OF db_invD(1) [OF assms(1)] assms(2,3) keep]])
    fix p assume "p \<in> set (processes (settle rid f db))" "process_id p = ?pid"
    then have "proc_inv p (actions_of ?pid db) (reports_of ?pid db)" by (simp add: db_invD(2) [OF assms(1)])
    then show "proc_inv p (actions_of ?pid (settle rid f db)) (reports_of ?pid (settle rid f db))"
      unfolding reports_of_settle [OF keep] actions_of_simps by (rule proc_inv_settled [OF _ assms(4)])
  next
    fix q assume "q \<in> set (frozen_reports (settle rid f db))"
    then show "body_ok codec q"
      using db_invD(3) [OF assms(1)] assms(4) by (auto simp: set_settle body_ok_settling)
  qed
qed

lemma RejectReport_inv:
  assumes "db_inv codec db" "RejectReport rid code msg db = Inr db'"
  shows "db_inv codec db'" "\<exists>pid. elsewhere_same pid db db'"
proof -
  have ok: "schema_ok db" by (rule db_invD(1) [OF assms(1)])
  have "db_inv codec db' \<and> (\<exists>pid. elsewhere_same pid db db')"
    using ok assms(2)
  proof (cases rule: RejectReportE)
    case same
    with assms(1) show ?thesis by auto
  next
    case (rejects r)
    have "elsewhere_same (report_process_id r) db db'"
      unfolding rejects(5) by (rule elsewhere_settle [OF ok rejects(1,2)]) (simp add: rejected_def)
    with rejects db_inv_settle [OF assms(1) rejects(1,2), of "rejected code msg"] show ?thesis by auto
  qed
  then show "db_inv codec db'" "\<exists>pid. elsewhere_same pid db db'" by simp_all
qed

lemma db_inv_released:
  assumes "db_inv codec db" "p \<in> set (processes db)" "owned pid sid p" "schema_ok (released pid sid db)"
  shows "db_inv codec (released pid sid db)"
  using assms(4) unfolding released_def
  by (intro db_inv_mild [OF assms(1-3)]) (simp_all add: mild_def)

lemma AcknowledgeReport_inv:
  assumes "db_inv codec db" "AcknowledgeReport rid db = Inr db'"
  shows "db_inv codec db'" "\<exists>pid. elsewhere_same pid db db'"
proof -
  have ok: "schema_ok db" by (rule db_invD(1) [OF assms(1)])
  have "db_inv codec db' \<and> (\<exists>pid. elsewhere_same pid db db')"
    using ok assms(2)
  proof (cases rule: AcknowledgeReportE)
    case (action r a p)
    let ?pid = "report_process_id r" and ?sid = "supervisor_instance_id p"
    have own: "owned ?pid ?sid p" using action(7) by (simp add: owned_def)
    have a: "a \<in> actions_of ?pid db" using action(4,5) by (simp add: actions_of_def)
    have pinv: "proc_inv p (actions_of ?pid db) (reports_of ?pid db)"
      by (rule db_invD(2) [OF assms(1) action(6,7)])
    have only: "\<forall>b \<in> actions_of ?pid db. action_id b = action_id a"
    proof
      fix b assume b: "b \<in> actions_of ?pid db"
      have "action_key b = action_key a"
        using pinv a b by (auto simp: proc_inv_def action_key_def actions_of_def)
      then have "b = a"
        using a b by (intro distinct_map_eq [OF schema_okD(6) [OF ok]]) (simp_all add: actions_of_def)
      then show "action_id b = action_id a" by simp
    qed
    have n: "in_int64 (action_seq a)" unfolding action(8) by (rule wrap64_bounds)
    have "db' = unrecorded ?pid (action_id a) (frontier ?pid ?sid (action_seq a) db)"
      unfolding action(9) resolve_def unrecorded_def action(5) ..
    with db_inv_resolve [OF assms(1) action(6) own n only action(10)] show ?thesis by auto
  next
    case (process r db1 p)
    let ?pid = "report_process_id r" and ?sid = "supervisor_instance_id p"
    have own: "owned ?pid ?sid p" using process(6) by (simp add: owned_def)
    have else1: "elsewhere_same ?pid db db1"
      using process(7) elsewhere_settle [OF ok process(1,2), of acknowledged]
      by (auto simp: acknowledged_def)
    have inv1: "db_inv codec db1" "p \<in> set (processes db1)"
      using process(5,7,8) assms(1) db_inv_settle [OF assms(1) process(1,2), of acknowledged] by auto
    have "elsewhere_same ?pid db1 (released ?pid ?sid db1)"
      unfolding released_def by (rule elsewhere_touch) simp
    with else1 have "elsewhere_same ?pid db db'"
      unfolding process(9) by (auto intro: elsewhere_trans)
    moreover have "db_inv codec db'"
      using process(9,10) inv1 db_inv_released [OF inv1 own] by (auto split: if_splits)
    ultimately show ?thesis by auto
  qed
  then show "db_inv codec db'" "\<exists>pid. elsewhere_same pid db db'" by simp_all
qed

section \<open>Processes\<close>

lemma ReserveProcess_inv:
  assumes "db_inv codec db" "ReserveProcess q db = Inr db'"
  shows "db_inv codec db'" "elsewhere_same (process_id q) db db'"
proof -
  let ?pid = "process_id q"
  have ok: "schema_ok db" by (rule db_invD(1) [OF assms(1)])
  have "db_inv codec db' \<and> elsewhere_same (process_id q) db db'"
    using assms(2)
  proof (cases rule: ReserveProcessE)
    case same
    with assms(1) show ?thesis by simp
  next
    case fresh
    have else': "elsewhere_same ?pid db db'"
      unfolding fresh(2) by (auto simp: elsewhere_same_def actions_of_def reports_of_def)
    have "action_process_id a \<noteq> ?pid" if "a \<in> set (process_actions db)" for a
      using schema_ok_action_process [OF ok that] fresh(1) by (metis image_eqI)
    moreover have "report_process_id r \<noteq> ?pid" if "r \<in> set (frozen_reports db)" for r
      using schema_ok_report_process [OF ok that] fresh(1) by (metis image_eqI)
    ultimately have none: "actions_of ?pid db' = {}" "reports_of ?pid db' = {}"
      unfolding fresh(2) by (auto simp: actions_of_def reports_of_def)
    have "db_inv codec db'"
    proof (rule db_inv_step [OF assms(1) fresh(3) else'])
      fix p assume "p \<in> set (processes db')" "process_id p = ?pid"
      then have "phase p = ProcessPreparing" "\<not> local_closed p" "resolved_action_seq p = 0"
        using fresh(1) unfolding fresh(2) by (auto simp: image_iff)
      then show "proc_inv p (actions_of ?pid db') (reports_of ?pid db')"
        by (simp add: none proc_inv_def max_int64_def)
    next
      fix r assume "r \<in> set (frozen_reports db')"
      then show "body_ok codec r" using db_invD(3) [OF assms(1)] unfolding fresh(2) by simp
    qed
    with else' show ?thesis by simp
  qed
  then show "db_inv codec db'" "elsewhere_same (process_id q) db db'" by simp_all
qed

lemma db_inv_delete:
  assumes "db_inv codec db"
  shows "db_inv codec (delete_processes (owned pid sid) db)"
proof (cases "\<exists>p \<in> set (processes db). owned pid sid p")
  case True
  have ok: "schema_ok db" by (rule db_invD(1) [OF assms(1)])
  show ?thesis
  proof (rule db_inv_step [OF assms schema_ok_delete_processes [OF ok] elsewhere_delete_processes [OF ok]])
    fix p assume p: "p \<in> set (processes (delete_processes (owned pid sid) db))" "process_id p = pid"
    from True obtain q where "q \<in> set (processes db)" "owned pid sid q" by blast
    with p process_unique [OF ok, of p q] have False
      by (auto simp: delete_processes_sets owned_def)
    then show "proc_inv p (actions_of pid (delete_processes (owned pid sid) db))
        (reports_of pid (delete_processes (owned pid sid) db))" ..
  next
    fix r assume "r \<in> set (frozen_reports (delete_processes (owned pid sid) db))"
    then show "body_ok codec r" using db_invD(3) [OF assms] by (simp add: delete_processes_reports [OF ok])
  qed
next
  case False
  then have "delete_processes (owned pid sid) db = db"
    by (auto simp: delete_processes_def delete_actions_def Let_def list_ex_iff intro!: filter_True)
  with assms show ?thesis by simp
qed

lemma deleteProcessAfterArtifacts_inv:
  assumes "db_inv codec db" "deleteProcessAfterArtifacts pid sid acc db = Inr db'"
  shows "db_inv codec db'" "elsewhere_same pid db db'"
proof -
  have ok: "schema_ok db" by (rule db_invD(1) [OF assms(1)])
  show "db_inv codec db'" "elsewhere_same pid db db'"
    using assms(2) by (cases rule: deleteProcessAfterArtifactsE;
      simp add: assms(1) db_inv_delete elsewhere_delete_processes [OF ok])+
qed

lemma DeleteClosedAfterArtifacts_inv:
  assumes "db_inv codec db" "DeleteClosedAfterArtifacts pid sid db = Inr db'"
  shows "db_inv codec db'" "elsewhere_same pid db db'"
proof -
  have ok: "schema_ok db" by (rule db_invD(1) [OF assms(1)])
  show "db_inv codec db'" "elsewhere_same pid db db'"
    using assms(2) by (cases rule: DeleteClosedAfterArtifactsE;
      simp add: assms(1) db_inv_delete elsewhere_delete_processes [OF ok])+
qed

lemma db_inv_touch_elsewhere:
  assumes "db_inv codec db" "p \<in> set (processes db)" "owned pid sid p"
    and "\<And>q. process_id (f q) = process_id q" "db' = touch pid sid f db" "schema_ok db'" "mild p (f p)"
  shows "db_inv codec db' \<and> elsewhere_same pid db db'"
  using assms elsewhere_touch [of f pid db sid] by (auto intro: db_inv_mild)

lemma MarkPrepared_inv:
  assumes "db_inv codec db" "MarkPrepared pid sid db = Inr db'"
  shows "db_inv codec db' \<and> elsewhere_same pid db db'"
  using db_invD(1) [OF assms(1)] assms(2)
proof (cases rule: MarkPreparedE)
  case (1 p)
  then show ?thesis
    by (intro db_inv_touch_elsewhere [OF assms(1) 1(1,2) _ 1(5)]) (auto simp: mild_def)
qed

lemma MarkAccepted_inv:
  assumes "db_inv codec db" "MarkAccepted pid sid db = Inr db'"
  shows "db_inv codec db' \<and> elsewhere_same pid db db'"
  using db_invD(1) [OF assms(1)] assms(2)
proof (cases rule: MarkAcceptedE)
  case (1 p)
  then show ?thesis
    by (intro db_inv_touch_elsewhere [OF assms(1) 1(1,2) _ 1(6)]) (auto simp: mild_def)
qed

lemma RecordSpawned_inv:
  assumes "db_inv codec db" "RecordSpawned pid sid k c db = Inr db'"
  shows "db_inv codec db' \<and> elsewhere_same pid db db'"
  using db_invD(1) [OF assms(1)] assms(2)
proof (cases rule: RecordSpawnedE)
  case (1 p)
  then show ?thesis
    by (intro db_inv_touch_elsewhere [OF assms(1) 1(3,4) _ 1(10)]) (auto simp: mild_def)
qed

lemma closeActionAdmission_inv:
  assumes "db_inv codec db" "closeActionAdmission pid sid db = Inr db'"
  shows "db_inv codec db' \<and> elsewhere_same pid db db'"
  using db_invD(1) [OF assms(1)] assms(2)
proof (cases rule: closeActionAdmissionE)
  case (1 p)
  then show ?thesis
    by (intro db_inv_touch_elsewhere [OF assms(1) 1(1,2) _ 1(4)]) (auto simp: mild_def)
qed

lemma markContainmentEmpty_inv:
  assumes "db_inv codec db" "markContainmentEmpty pid sid db = Inr db'"
  shows "db_inv codec db' \<and> elsewhere_same pid db db'"
  using db_invD(1) [OF assms(1)] assms(2)
proof (cases rule: markContainmentEmptyE)
  case (1 p)
  then show ?thesis
    by (intro db_inv_touch_elsewhere [OF assms(1) 1(1,2) _ 1(4)]) (auto simp: mild_def)
qed

lemma MarkServerReleased_inv:
  assumes "db_inv codec db" "MarkServerReleased pid sid db = Inr db'"
  shows "db_inv codec db' \<and> elsewhere_same pid db db'"
  using db_invD(1) [OF assms(1)] assms(2)
proof (cases rule: MarkServerReleasedE)
  case (1 p)
  then show ?thesis
    by (intro db_inv_touch_elsewhere [OF assms(1) 1(1,2) _ 1(3)]) (auto simp: mild_def)
qed

lemma AuthorizeSpawnOnce_inv:
  assumes "db_inv codec db" "AuthorizeSpawnOnce pid sid db = Inr (b, db')"
  shows "db_inv codec db' \<and> elsewhere_same pid db db'"
  using db_invD(1) [OF assms(1)] assms(2)
proof (cases rule: AuthorizeSpawnOnceE)
  case (first p)
  then show ?thesis
    by (intro db_inv_touch_elsewhere [OF assms(1) first(2,3) _ first(7)]) (auto simp: mild_def)
next
  case (again p)
  with assms(1) show ?thesis by simp
qed

lemma markLocalClosed_inv:
  assumes "db_inv codec db" "markLocalClosed pid sid db = Inr db'"
  shows "db_inv codec db' \<and> elsewhere_same pid db db'"
proof -
  have ok: "schema_ok db" by (rule db_invD(1) [OF assms(1)])
  show ?thesis
    using ok assms(2)
  proof (cases rule: markLocalClosedE)
    case (already p)
    with assms(1) show ?thesis by simp
  next
    case (closes p)
    have pinv: "proc_inv p (actions_of pid db) (reports_of pid db)"
      using closes(1,2) by (intro db_invD(2) [OF assms(1)]) (simp_all add: owned_def)
    have "reported (reports_of pid db) a" if a: "a \<in> actions_of pid db" for a
    proof -
      from a closes(8) obtain r where r: "r \<in> set (frozen_reports db)" "report_action_id r = Some (action_id a)"
        by (auto simp: actions_of_def)
      then obtain b where "b \<in> set (process_actions db)" "action_id b = action_id a"
        "action_process_id b = report_process_id r"
        using schema_ok_report_action [OF ok r] by blast
      with a have "report_process_id r = pid"
        using action_unique [OF ok, of b a] by (auto simp: actions_of_def)
      with r show ?thesis by (auto simp: reported_def reports_of_def)
    qed
    with pinv closes(4) have "proc_inv (p\<lparr>local_closed := True\<rparr>) (actions_of pid db) (reports_of pid db)"
      unfolding proc_inv_def by auto
    then show ?thesis
      using closes(10) unfolding closes(9)
      by (intro conjI db_inv_touch [OF assms(1) closes(1,2)] elsewhere_touch) simp_all
  qed
qed

end
