(* ===== verification/StateDB_Audit.thy ===== *)
theory StateDB_Audit
  imports StateDB_Invariant
begin

text \<open>
  The audit of the state database (\<open>statedb/audit.go\<close>) and the snapshot the reconciliation reads
  (\<open>statedb/snapshot.go\<close>).

  What SQLite answers to the pragmas is an argument of \<open>Audit\<close>: the result of \<open>verifyPragmas\<close>, the rows
  of \<open>PRAGMA integrity_check\<close> and the count of \<open>pragma_foreign_key_check\<close>.
\<close>

section \<open>Audit\<close>

definition auditProblem :: "invariant_violations \<Rightarrow> string" where
  "auditProblem violations =
     (if TerminalProcessMissingReport violations
      then ''terminal process has no terminal report''
      else if TerminalReportOnNonterminalProcess violations
      then ''terminal report belongs to a non-terminal process''
      else if LocallyClosedProcessNotTerminal violations
      then ''locally closed process is not terminal''
      else if LocallyClosedProcessActionMissingReport violations
      then ''locally closed process has an action without a report''
      else if NoEffectActionMissingReport violations
      then ''action without an effect has no terminal report''
      else if ActionBehindResolvedFrontier violations
      then ''uncompacted action is behind the resolved frontier''
      else [])"

definition Audit ::
    "report_codec \<Rightarrow> statedb_error + unit \<Rightarrow> string list \<Rightarrow> nat \<Rightarrow> statedb \<Rightarrow> statedb_error + unit" where
  "Audit codec pragmas integrity foreignKeyViolations db =
     bindE pragmas (\<lambda>_.
       if filter (\<lambda>result. result \<noteq> ''ok'') integrity \<noteq> []
       then Inl (ErrNew ''state database integrity check failed'')
       else if foreignKeyViolations \<noteq> 0
       then Inl (ErrNew ''state database has foreign-key violations'')
       else let problem = auditProblem (GetInvariantViolations db)
         in if problem \<noteq> [] then Inl (ErrNew problem)
            else checkE (\<lambda>row. validateReport codec (reportFromSQLC row)) (ListFrozenReports db))"

section \<open>Snapshot\<close>

record action_snapshot =
  Action :: action
  Reported :: bool

record process_snapshot =
  Process :: process
  Actions :: "action_snapshot list"
  RejectedReportIDs :: "string list"

text \<open>
  The index \<open>byProcess\<close> maps a process to its position in the snapshot.  A row that names a process
  outside it is the error \<open>dbError(..., sql.ErrNoRows)\<close>.
\<close>

definition byProcess :: "process_snapshot list \<Rightarrow> string \<Rightarrow> nat option" where
  "byProcess snapshots =
     fold (\<lambda>i index. index(process_id (Process (snapshots ! i)) \<mapsto> i)) [0..<length snapshots] Map.empty"

fun join_actions ::
    "(string \<Rightarrow> nat option) \<Rightarrow> (action \<times> frozen_report option) list \<Rightarrow> process_snapshot list
       \<Rightarrow> statedb_error + process_snapshot list" where
  "join_actions index [] snapshots = Inr snapshots"
| "join_actions index ((action, report) # rows) snapshots =
     (case index (action_process_id action) of
        None \<Rightarrow> Inl ErrDatabase
      | Some i \<Rightarrow>
          let s = snapshots ! i;
              s1 = s\<lparr>Actions := Actions s @ [\<lparr>Action = action, Reported = (report \<noteq> None)\<rparr>]\<rparr>;
              s2 = (case report of
                      None \<Rightarrow> s1
                    | Some r \<Rightarrow>
                        if report_state r = ReportRejected
                        then s1\<lparr>RejectedReportIDs := RejectedReportIDs s1 @ [report_id r]\<rparr> else s1)
          in join_actions index rows (snapshots[i := s2]))"

fun join_rejected ::
    "(string \<Rightarrow> nat option) \<Rightarrow> (string \<times> string) list \<Rightarrow> process_snapshot list
       \<Rightarrow> statedb_error + process_snapshot list" where
  "join_rejected index [] snapshots = Inr snapshots"
| "join_rejected index ((processID, reportID) # rows) snapshots =
     (case index processID of
        None \<Rightarrow> Inl ErrDatabase
      | Some i \<Rightarrow>
          let s = snapshots ! i
          in join_rejected index rows
               (snapshots[i := s\<lparr>RejectedReportIDs := RejectedReportIDs s @ [reportID]\<rparr>]))"

definition SnapshotForReconciliation :: "statedb \<Rightarrow> statedb_error + process_snapshot list" where
  "SnapshotForReconciliation db =
     (let snapshots = map (\<lambda>p. \<lparr>Process = p, Actions = [], RejectedReportIDs = []\<rparr>) (ListProcesses db);
          index = byProcess snapshots
      in bindE (join_actions index (ListProcessActionSnapshots db) snapshots)
           (join_rejected index (ListRejectedProcessReportIDs db)))"

section \<open>The audit finds nothing in a database that meets the invariant\<close>

lemma proc_inv_of:
  assumes "db_inv codec db" "p \<in> set (processes db)"
  shows "proc_inv p (actions_of (process_id p) db) (reports_of (process_id p) db)"
  using db_invD(2) [OF assms] by simp

lemma violations_none:
  assumes "db_inv codec db"
  shows "auditProblem (GetInvariantViolations db) = []"
proof -
  note pinv = proc_inv_of [OF assms, unfolded proc_inv_def]
  have ok: "schema_ok db" by (rule db_invD(1) [OF assms])
  have 1: "\<exists>r \<in> set (frozen_reports db). report_process_id r = process_id p \<and> report_action_id r = None
         \<and> report_kind r = ReportProcessTerminal"
    if "p \<in> set (processes db)" "phase p = ProcessTerminal" for p
  proof -
    from pinv [OF that(1)] that(2) obtain r where r: "r \<in> set (frozen_reports db)"
      "report_process_id r = process_id p" "report_kind r = ReportProcessTerminal"
      by (auto simp: reports_of_def)
    with report_check_action [OF schema_okD(3) [OF ok r(1)]] show ?thesis by auto
  qed
  have 2: "phase p = ProcessTerminal"
    if "r \<in> set (frozen_reports db)" "p \<in> set (processes db)" "process_id p = report_process_id r"
      "report_kind r = ReportProcessTerminal" for r p
    using pinv [OF that(2)] that by (auto simp: reports_of_def)
  have 3: "phase p = ProcessTerminal" if "p \<in> set (processes db)" "local_closed p" for p
    using pinv [OF that(1)] that(2) by simp
  have reported: "\<exists>r \<in> set (frozen_reports db). report_action_id r = Some (action_id a)"
    if "reported (reports_of pid db) a" for pid a
    using that by (auto simp: reported_def reports_of_def)
  have 4: "\<exists>r \<in> set (frozen_reports db). report_action_id r = Some (action_id a)"
    if "p \<in> set (processes db)" "a \<in> set (process_actions db)" "action_process_id a = process_id p"
      "local_closed p" for p a
    using pinv [OF that(1)] that by (intro reported [of "process_id p"]) (auto simp: actions_of_def)
  have 5: "\<exists>r \<in> set (frozen_reports db). report_action_id r = Some (action_id a)"
    if a: "a \<in> set (process_actions db)" "\<not> effect_committed a" for a
  proof -
    obtain p where p: "p \<in> set (processes db)" "process_id p = action_process_id a"
      using schema_ok_action_process [OF ok a(1)] by blast
    with pinv [OF p(1)] a show ?thesis
      by (intro reported [of "process_id p"]) (auto simp: actions_of_def split: if_splits)
  qed
  have 6: "resolved_action_seq p < action_seq a"
    if "a \<in> set (process_actions db)" "p \<in> set (processes db)" "process_id p = action_process_id a" for a p
    using pinv [OF that(2)] that by (auto simp: actions_of_def)
  have "GetInvariantViolations db =
     \<lparr>TerminalProcessMissingReport = False, TerminalReportOnNonterminalProcess = False,
      LocallyClosedProcessNotTerminal = False, LocallyClosedProcessActionMissingReport = False,
      NoEffectActionMissingReport = False, ActionBehindResolvedFrontier = False\<rparr>"
    unfolding GetInvariantViolations_def list_ex_iff
    using 1 2 3 4 5 6 by (simp add: not_le) blast
  then show ?thesis by (simp add: auditProblem_def)
qed

lemma Audit_ok:
  assumes "db_inv codec db" "list_all (\<lambda>row. row = ''ok'') integrity"
  shows "Audit codec (Inr ()) integrity 0 db = Inr ()"
proof -
  have "filter (\<lambda>result. result \<noteq> ''ok'') integrity = []"
    using assms(2) by (simp add: filter_empty_conv list_all_iff)
  moreover have "checkE (\<lambda>row. validateReport codec (reportFromSQLC row)) (ListFrozenReports db) = Inr ()"
    using db_invD(3) [OF assms(1)] by (simp add: checkE_Inr ListFrozenReports_def body_ok_def)
  ultimately show ?thesis by (simp add: Audit_def violations_none [OF assms(1)])
qed

end
