(* ===== verification/StateDB_Machine.thy ===== *)
theory StateDB_Machine
  imports StateDB_Preservation StateDB_Audit
begin

text \<open>
  The state database as one machine: every public operation of \<open>Store\<close> and \<open>Supervisor\<close> that
  writes, as a constructor of \<open>store_op\<close>, and \<open>perform\<close>, which runs one of them as a transaction.
  The machine is an \<open>invariant_store\<close>, so the invariant holds after every sequence of operations.
\<close>

section \<open>Operations\<close>

datatype store_op =
    OpOpen string string
  | OpReserveProcess process
  | OpMarkPrepared string string
  | OpMarkAccepted string string
  | OpDeleteRejectedPreparation string string
  | OpDeleteStorageExhausted string string
  | OpAuthorizeSpawnOnce string string
  | OpRecordSpawned string string string string
  | OpCloseActionAdmission string string
  | OpMarkContainmentEmpty string string
  | OpMarkLocalClosed string string
  | OpMarkServerReleased string string
  | OpDeleteClosed string string
  | OpApplyOnce string string action
  | OpRecordActionWithoutEffect string string string action report
  | OpFreezeActionReport string string string string report
  | OpFreezeStartedReport string string string report
  | OpFreezeTerminalReport string string string report
  | OpAcknowledgeReport string
  | OpReleaseAction string string string int
  | OpResolveAbsentAction string string string int
  | OpRejectReport string string string

datatype answer =
    Done
  | SpawnAuthorized bool
  | Applied apply_decision report
  | Recorded no_effect_decision report
  | Frozen report

definition finished :: "statedb_error + statedb \<Rightarrow> statedb_error + answer \<times> statedb" where
  "finished res = bindE res (\<lambda>db. Inr (Done, db))"

definition answering :: "('a \<Rightarrow> answer) \<Rightarrow> statedb_error + 'a \<times> statedb \<Rightarrow> statedb_error + answer \<times> statedb" where
  "answering f res = bindE res (\<lambda>(x, db). Inr (f x, db))"

fun perform :: "report_codec \<Rightarrow> store_op \<Rightarrow> statedb \<Rightarrow> statedb_error + answer \<times> statedb" where
  "perform codec (OpOpen i m) db = finished (bindOrVerifyIdentity i m db)"
| "perform codec (OpReserveProcess p) db = finished (ReserveProcess p db)"
| "perform codec (OpMarkPrepared pid sid) db = finished (MarkPrepared pid sid db)"
| "perform codec (OpMarkAccepted pid sid) db = finished (MarkAccepted pid sid db)"
| "perform codec (OpDeleteRejectedPreparation pid sid) db =
     finished (DeleteRejectedPreparationAfterArtifacts pid sid db)"
| "perform codec (OpDeleteStorageExhausted pid sid) db =
     finished (DeleteStorageExhaustedAfterArtifacts pid sid db)"
| "perform codec (OpAuthorizeSpawnOnce pid sid) db =
     answering SpawnAuthorized (AuthorizeSpawnOnce pid sid db)"
| "perform codec (OpRecordSpawned pid sid k c) db = finished (RecordSpawned pid sid k c db)"
| "perform codec (OpCloseActionAdmission pid sid) db = finished (closeActionAdmission pid sid db)"
| "perform codec (OpMarkContainmentEmpty pid sid) db = finished (markContainmentEmpty pid sid db)"
| "perform codec (OpMarkLocalClosed pid sid) db = finished (markLocalClosed pid sid db)"
| "perform codec (OpMarkServerReleased pid sid) db = finished (MarkServerReleased pid sid db)"
| "perform codec (OpDeleteClosed pid sid) db = finished (DeleteClosedAfterArtifacts pid sid db)"
| "perform codec (OpApplyOnce pid sid a) db = answering (case_prod Applied) (ApplyOnce pid sid a db)"
| "perform codec (OpRecordActionWithoutEffect rid pid sid a q) db =
     answering (case_prod Recorded) (RecordActionWithoutEffect codec rid pid sid a q db)"
| "perform codec (OpFreezeActionReport rid pid sid aid q) db =
     answering Frozen (freezeActionReport codec rid pid sid aid q db)"
| "perform codec (OpFreezeStartedReport rid pid sid q) db =
     answering Frozen (FreezeStartedReport codec rid pid sid q db)"
| "perform codec (OpFreezeTerminalReport rid pid sid q) db =
     answering Frozen (freezeTerminalReport codec rid pid sid q db)"
| "perform codec (OpAcknowledgeReport rid) db = finished (AcknowledgeReport rid db)"
| "perform codec (OpReleaseAction pid sid aid seq) db = finished (ReleaseAction pid sid aid seq db)"
| "perform codec (OpResolveAbsentAction pid sid aid seq) db = finished (ResolveAbsentAction pid sid aid seq db)"
| "perform codec (OpRejectReport rid code msg) db = finished (RejectReport rid code msg db)"

text \<open>The sequence arguments have Go's type \<open>int64\<close>.\<close>

fun seq_int64 :: "store_op \<Rightarrow> bool" where
  "seq_int64 (OpApplyOnce pid sid a) = in_int64 (action_seq a)"
| "seq_int64 (OpRecordActionWithoutEffect rid pid sid a q) = in_int64 (action_seq a)"
| "seq_int64 (OpReleaseAction pid sid aid seq) = in_int64 seq"
| "seq_int64 (OpResolveAbsentAction pid sid aid seq) = in_int64 seq"
| "seq_int64 op = True"

section \<open>The invariant of the machine\<close>

lemma finished_Inr [simp]: "finished res = Inr (a, db') \<longleftrightarrow> a = Done \<and> res = Inr db'"
  by (auto simp: finished_def)

lemma answering_Inr [simp]: "answering f res = Inr (a, db') \<longleftrightarrow> (\<exists>x. a = f x \<and> res = Inr (x, db'))"
  by (auto simp: answering_def)

lemma bindOrVerifyIdentity_tables:
  assumes "bindOrVerifyIdentity i m db = Inr db'"
  shows "processes db' = processes db" "process_actions db' = process_actions db"
    and "frozen_reports db' = frozen_reports db"
    and "db' = db \<or> schema_ok db'"
    and "machine_identity db' = Some (i, m)" "machine_identity db = None \<or> machine_identity db = Some (i, m)"
  using assms
  by (auto simp: bindOrVerifyIdentity_def readIdentity_def GetMachineIdentity_def BindMachineIdentity_def
      verifyIdentityValues_def split: option.splits if_splits)

lemma db_inv_identity:
  assumes "db_inv codec db" "bindOrVerifyIdentity i m db = Inr db'"
  shows "db_inv codec db'"
proof -
  note t = bindOrVerifyIdentity_tables [OF assms(2)]
  have "schema_ok db'" using t(4) db_invD(1) [OF assms(1)] by auto
  with assms(1) show ?thesis by (simp add: db_inv_def actions_of_def reports_of_def t(1-3))
qed

text \<open>
  An operation touches one process: the one its arguments name, or the one whose report it settles.
  Opening the database touches none.
\<close>

fun names_process :: "store_op \<Rightarrow> string option" where
  "names_process (OpReserveProcess p) = Some (process_id p)"
| "names_process (OpMarkPrepared pid sid) = Some pid"
| "names_process (OpMarkAccepted pid sid) = Some pid"
| "names_process (OpDeleteRejectedPreparation pid sid) = Some pid"
| "names_process (OpDeleteStorageExhausted pid sid) = Some pid"
| "names_process (OpAuthorizeSpawnOnce pid sid) = Some pid"
| "names_process (OpRecordSpawned pid sid k c) = Some pid"
| "names_process (OpCloseActionAdmission pid sid) = Some pid"
| "names_process (OpMarkContainmentEmpty pid sid) = Some pid"
| "names_process (OpMarkLocalClosed pid sid) = Some pid"
| "names_process (OpMarkServerReleased pid sid) = Some pid"
| "names_process (OpDeleteClosed pid sid) = Some pid"
| "names_process (OpApplyOnce pid sid a) = Some pid"
| "names_process (OpRecordActionWithoutEffect rid pid sid a q) = Some pid"
| "names_process (OpFreezeActionReport rid pid sid aid q) = Some pid"
| "names_process (OpFreezeStartedReport rid pid sid q) = Some pid"
| "names_process (OpFreezeTerminalReport rid pid sid q) = Some pid"
| "names_process (OpReleaseAction pid sid aid seq) = Some pid"
| "names_process (OpResolveAbsentAction pid sid aid seq) = Some pid"
| "names_process _ = None"

lemmas operation_inv =
  ReserveProcess_inv MarkPrepared_inv MarkAccepted_inv deleteProcessAfterArtifacts_inv
  AuthorizeSpawnOnce_inv RecordSpawned_inv closeActionAdmission_inv markContainmentEmpty_inv
  markLocalClosed_inv MarkServerReleased_inv DeleteClosedAfterArtifacts_inv ApplyOnce_inv
  RecordActionWithoutEffect_inv freezeActionReport_inv FreezeStartedReport_inv
  freezeTerminalReport_inv AcknowledgeReport_inv releaseAction_inv RejectReport_inv db_inv_identity

lemmas wrapper_defs =
  DeleteRejectedPreparationAfterArtifacts_def DeleteStorageExhaustedAfterArtifacts_def
  ReleaseAction_def ResolveAbsentAction_def

lemma perform_db_inv:
  assumes "db_inv codec db" "seq_int64 op" "perform codec op db = Inr (ans, db')"
  shows "db_inv codec db'"
  using assms(2,3) by (cases op) (auto simp: wrapper_defs dest: operation_inv [OF assms(1)])

interpretation statedb: invariant_store "perform codec" seq_int64 "db_inv codec" for codec
  by unfold_locales (rule perform_db_inv)

lemma perform_elsewhere:
  assumes "db_inv codec db" "seq_int64 op" "perform codec op db = Inr (ans, db')"
    and "names_process op = Some pid"
  shows "elsewhere_same pid db db'"
  using assms(2-4) by (cases op) (auto simp: wrapper_defs dest: operation_inv [OF assms(1)])

section \<open>Reachable databases\<close>

text \<open>The database after the operations \<open>ops\<close> on a new one.\<close>

definition after :: "report_codec \<Rightarrow> store_op list \<Rightarrow> statedb" where
  "after codec ops = snd (run_store (perform codec) ops empty_statedb)"

lemma after_append: "after codec (xs @ ys) = snd (run_store (perform codec) ys (after codec xs))"
  by (simp add: after_def run_store_append Let_def split: prod.split)

lemma db_inv_after: "list_all seq_int64 ops \<Longrightarrow> db_inv codec (after codec ops)"
  unfolding after_def by (rule statedb.run_inv [OF db_inv_empty])

end
