(* ===== verification/StateDB_Lifecycle.thy ===== *)
theory StateDB_Lifecycle
  imports StateDB_Machine
begin

text \<open>
  What the state database promises over time.  \<open>advances pid db db'\<close> says that from \<open>db\<close> to \<open>db'\<close> a
  process only moves forward: its phase, its frontier and its flags grow, its containment never
  changes once known, and its evidence is kept byte for byte, except that the evidence of an action
  leaves when the frontier passes that action.  Every operation that does not delete the process
  advances it, so every run of such operations does, and the promises on runs (an action sequence
  is executed at most once and in order, a spawn is authorised at most once) follow.
\<close>

section \<open>Moving forward\<close>

text \<open>The phases of a process in the order it goes through them.\<close>

definition phase_rank :: "process_phase \<Rightarrow> nat" where
  "phase_rank ph = (case ph of ProcessPreparing \<Rightarrow> 0 | ProcessPrepared \<Rightarrow> 1
      | ProcessAccepted \<Rightarrow> 2 | ProcessTerminal \<Rightarrow> 3)"

instantiation process_phase :: linorder
begin

definition less_eq_process_phase :: "process_phase \<Rightarrow> process_phase \<Rightarrow> bool" where
  "less_eq_process_phase ph ph' \<longleftrightarrow> phase_rank ph \<le> phase_rank ph'"

definition less_process_phase :: "process_phase \<Rightarrow> process_phase \<Rightarrow> bool" where
  "less_process_phase ph ph' \<longleftrightarrow> phase_rank ph < phase_rank ph'"

instance
  by standard (auto simp: less_eq_process_phase_def less_process_phase_def phase_rank_def split: process_phase.splits)

end

lemmas phase_order = less_eq_process_phase_def less_process_phase_def phase_rank_def

lemma ProcessTerminal_greatest [simp]: "ph \<le> ProcessTerminal" and ProcessPreparing_least [simp]: "ProcessPreparing \<le> ph"
  by (simp_all add: phase_order split: process_phase.split)

definition state_rank :: "report_state \<Rightarrow> nat" where
  "state_rank s = (case s of ReportPending \<Rightarrow> 0 | ReportRejected \<Rightarrow> 1 | _ \<Rightarrow> 2)"

definition grows :: "process \<Rightarrow> process \<Rightarrow> bool" where
  "grows p p' \<longleftrightarrow>
     process_id p' = process_id p \<and> supervisor_instance_id p' = supervisor_instance_id p
   \<and> supervisor_token p' = supervisor_token p
   \<and> phase p \<le> phase p'
   \<and> resolved_action_seq p \<le> resolved_action_seq p'
   \<and> (exec_committed p \<longrightarrow> exec_committed p')
   \<and> (containment_kind p \<noteq> [] \<longrightarrow>
        containment_kind p' = containment_kind p \<and> containment_id p' = containment_id p)
   \<and> (containment_empty p \<longrightarrow> containment_empty p')
   \<and> (action_admission_closed p \<longrightarrow> action_admission_closed p')
   \<and> (local_closed p \<longrightarrow> local_closed p')
   \<and> (server_released p \<longrightarrow> server_released p')"

definition same_evidence :: "frozen_report \<Rightarrow> frozen_report \<Rightarrow> bool" where
  "same_evidence r r' \<longleftrightarrow>
     report_id r' = report_id r \<and> report_process_id r' = report_process_id r
   \<and> report_action_id r' = report_action_id r \<and> report_kind r' = report_kind r
   \<and> report_body r' = report_body r
   \<and> state_rank (report_state r) \<le> state_rank (report_state r')"

definition evidence_kept :: "bool \<Rightarrow> frozen_report set \<Rightarrow> frozen_report set \<Rightarrow> bool" where
  "evidence_kept moved Rs Rs' \<longleftrightarrow>
     (\<forall>r \<in> Rs. (\<exists>r' \<in> Rs'. same_evidence r r') \<or> (moved \<and> report_kind r = ReportActionTerminal))"

text \<open>The highest sequence the process has reached: its action in flight, or else its frontier.\<close>

definition reached_seq :: "process \<Rightarrow> action set \<Rightarrow> int" where
  "reached_seq p As = (if As = {} then resolved_action_seq p else resolved_action_seq p + 1)"

definition moves :: "process \<Rightarrow> action set \<Rightarrow> frozen_report set \<Rightarrow>
    process \<Rightarrow> action set \<Rightarrow> frozen_report set \<Rightarrow> bool" where
  "moves p As Rs p' As' Rs' \<longleftrightarrow>
     grows p p' \<and> reached_seq p As \<le> reached_seq p' As'
   \<and> evidence_kept (resolved_action_seq p < resolved_action_seq p') Rs Rs'"

definition advances :: "string \<Rightarrow> statedb \<Rightarrow> statedb \<Rightarrow> bool" where
  "advances pid db db' \<longleftrightarrow>
     (\<forall>p \<in> set (processes db). process_id p = pid \<longrightarrow>
        (\<exists>p' \<in> set (processes db'). process_id p' = pid
          \<and> moves p (actions_of pid db) (reports_of pid db) p' (actions_of pid db') (reports_of pid db')))"

lemma grows_refl [simp]: "grows p p"
  by (simp add: grows_def)

lemma grows_trans: "grows p q \<Longrightarrow> grows q r \<Longrightarrow> grows p r"
  by (auto simp: grows_def)

lemma same_evidence_refl [simp]: "same_evidence r r"
  by (simp add: same_evidence_def)

lemma same_evidence_trans: "same_evidence q r \<Longrightarrow> same_evidence r s \<Longrightarrow> same_evidence q s"
  by (auto simp: same_evidence_def)

lemma evidence_kept_subset: "Rs \<subseteq> Rs' \<Longrightarrow> evidence_kept m Rs Rs'"
  using same_evidence_refl unfolding evidence_kept_def by blast

lemma evidence_kept_trans:
  assumes "evidence_kept m Rs Rs'" "evidence_kept n Rs' Rs''"
  shows "evidence_kept (m \<or> n) Rs Rs''"
  unfolding evidence_kept_def
proof
  fix r assume "r \<in> Rs"
  with assms(1) consider (kept) r' where "r' \<in> Rs'" "same_evidence r r'"
    | (gone) "m" "report_kind r = ReportActionTerminal" unfolding evidence_kept_def by blast
  then show "(\<exists>r'' \<in> Rs''. same_evidence r r'') \<or> ((m \<or> n) \<and> report_kind r = ReportActionTerminal)"
  proof cases
    case kept
    with assms(2) have "(\<exists>r'' \<in> Rs''. same_evidence r' r'') \<or> (n \<and> report_kind r' = ReportActionTerminal)"
      unfolding evidence_kept_def by blast
    moreover have "report_kind r' = report_kind r" using kept(2) by (simp add: same_evidence_def)
    ultimately show ?thesis using same_evidence_trans [OF kept(2)] by auto
  qed simp
qed

lemma evidence_kept_mono: "evidence_kept m Rs Rs' \<Longrightarrow> (m \<Longrightarrow> n) \<Longrightarrow> evidence_kept n Rs Rs'"
  unfolding evidence_kept_def by blast

lemma moves_refl [simp]: "moves p As Rs p As Rs"
  by (simp add: moves_def evidence_kept_subset)

lemma moves_trans:
  assumes "moves p As Rs p' As' Rs'" "moves p' As' Rs' p'' As'' Rs''"
  shows "moves p As Rs p'' As'' Rs''"
proof -
  have "resolved_action_seq p \<le> resolved_action_seq p'" "resolved_action_seq p' \<le> resolved_action_seq p''"
    using assms by (auto simp: moves_def grows_def)
  then have "evidence_kept (resolved_action_seq p < resolved_action_seq p'') Rs Rs''"
    using assms unfolding moves_def by (auto intro: evidence_kept_mono [OF evidence_kept_trans])
  with assms show ?thesis unfolding moves_def by (auto intro: grows_trans)
qed

lemma advances_refl [simp]: "advances pid db db"
  unfolding advances_def using moves_refl by blast

lemma advances_trans:
  assumes "advances pid a b" "advances pid b c"
  shows "advances pid a c"
  unfolding advances_def
proof (intro ballI impI)
  fix p assume "p \<in> set (processes a)" "process_id p = pid"
  with assms(1) obtain q where q: "q \<in> set (processes b)" "process_id q = pid"
    "moves p (actions_of pid a) (reports_of pid a) q (actions_of pid b) (reports_of pid b)"
    unfolding advances_def by blast
  with assms(2) obtain r where "r \<in> set (processes c)" "process_id r = pid"
    "moves q (actions_of pid b) (reports_of pid b) r (actions_of pid c) (reports_of pid c)"
    unfolding advances_def by blast
  with q(3) show "\<exists>p' \<in> set (processes c). process_id p' = pid
      \<and> moves p (actions_of pid a) (reports_of pid a) p' (actions_of pid c) (reports_of pid c)"
    using moves_trans by blast
qed

lemma advances_elsewhere:
  assumes "elsewhere_same q db db'" "pid \<noteq> q"
  shows "advances pid db db'"
  unfolding advances_def
proof (intro ballI impI)
  fix p assume "p \<in> set (processes db)" "process_id p = pid"
  with assms have "p \<in> {p \<in> set (processes db'). process_id p \<noteq> q}"
    by (simp add: elsewhere_same_def)
  with assms \<open>process_id p = pid\<close>
  show "\<exists>p' \<in> set (processes db'). process_id p' = pid
      \<and> moves p (actions_of pid db) (reports_of pid db) p' (actions_of pid db') (reports_of pid db')"
    by (auto simp: elsewhere_same_def intro!: bexI [of _ p])
qed

text \<open>The process an operation owns is the only one under its identifier.\<close>

lemma advancesI:
  assumes "schema_ok db" "p \<in> set (processes db)" "process_id p = pid"
    and "p' \<in> set (processes db')" "process_id p' = pid"
    and "moves p (actions_of pid db) (reports_of pid db) p' (actions_of pid db') (reports_of pid db')"
  shows "advances pid db db'"
  unfolding advances_def
proof (intro ballI impI)
  fix q assume "q \<in> set (processes db)" "process_id q = pid"
  with assms(1-3) have "q = p" by (auto intro: process_unique)
  with assms(4-6) show "\<exists>p' \<in> set (processes db'). process_id p' = pid
      \<and> moves q (actions_of pid db) (reports_of pid db) p' (actions_of pid db') (reports_of pid db')"
    by blast
qed

section \<open>Every change moves a process forward\<close>

lemma touched_member:
  "p \<in> set (processes db) \<Longrightarrow> owned pid sid p \<Longrightarrow> f p \<in> set (processes (touch pid sid f db))"
  by (auto simp: set_update_where intro!: image_eqI [of _ _ p])

lemma advances_touch:
  assumes "schema_ok db" "p \<in> set (processes db)" "owned pid sid p"
    and "db' = touch pid sid f db" "grows p (f p)" "resolved_action_seq (f p) = resolved_action_seq p"
  shows "advances pid db db'"
proof (rule advancesI [OF assms(1,2)])
  show "f p \<in> set (processes db')" unfolding assms(4) by (rule touched_member [OF assms(2,3)])
  show "moves p (actions_of pid db) (reports_of pid db) (f p) (actions_of pid db') (reports_of pid db')"
    using assms(5,6) unfolding assms(4) by (simp add: moves_def reached_seq_def evidence_kept_subset)
qed (use assms(3,5) in \<open>auto simp: owned_def grows_def\<close>)

lemma advances_frontier:
  assumes "db_inv codec db" "reaches pid sid a p db"
  shows "advances pid db (frontier pid sid (action_seq a - 1) db)"
proof -
  have p: "p \<in> set (processes db)" "owned pid sid p" "process_id p = pid"
    "resolved_action_seq p < action_seq a" using assms(2) by (auto simp: reaches_def owned_def)
  have "actions_of pid db \<noteq> {} \<Longrightarrow> resolved_action_seq p = action_seq a - 1"
    using reaches_actions(2) [OF assms] by blast
  with p show ?thesis
    unfolding frontier_def
    by (intro advancesI [OF db_invD(1) [OF assms(1)] p(1) p(3) touched_member [OF p(1,2)]])
      (auto simp: moves_def grows_def reached_seq_def evidence_kept_subset)
qed

lemma advances_with_action:
  assumes "schema_ok db" "action_process_id a = pid"
  shows "advances pid db (with_action a db)"
  unfolding advances_def using assms
  by (auto simp: moves_def reached_seq_def evidence_kept_subset)

lemma advances_freeze:
  assumes "schema_ok db" "freezeReportTx codec rid q db = Inr (res, db')"
  shows "advances pid db db'"
proof -
  note frame = freezeReportTx_frame [OF assms]
  have "reports_of pid db \<subseteq> reports_of pid db'" using frame(5) by (auto simp: reports_of_def)
  moreover have "actions_of pid db' = actions_of pid db" using frame(2) by (simp add: actions_of_def)
  ultimately show ?thesis
    unfolding advances_def using frame(1) by (auto simp: moves_def evidence_kept_subset)
qed

lemma advances_settle:
  assumes "settling f" "\<And>r. r \<in> set (frozen_reports db) \<Longrightarrow> report_id r = rid \<Longrightarrow>
      state_rank (report_state r) \<le> state_rank (report_state (f r))"
  shows "advances pid db (settle rid f db)"
proof -
  let ?g = "\<lambda>r. if report_id r = rid then f r else r"
  have "reports_of pid (settle rid f db) = ?g ` reports_of pid db"
    using assms(1) by (intro reports_of_settle) (simp add: settling_def)
  moreover have "same_evidence r (?g r)" if "r \<in> reports_of pid db" for r
    using assms that by (auto simp: same_evidence_def settling_def reports_of_def)
  ultimately have "evidence_kept m (reports_of pid db) (reports_of pid (settle rid f db))" for m
    unfolding evidence_kept_def by blast
  then show ?thesis unfolding advances_def moves_def by auto
qed

lemma advances_resolve:
  assumes "db_inv codec db" "p \<in> set (processes db)" "owned pid sid p" "resolved_action_seq p < n"
  shows "advances pid db (unrecorded pid aid (frontier pid sid n db))"
proof (rule advancesI [OF db_invD(1) [OF assms(1)] assms(2)])
  let ?db = "unrecorded pid aid (frontier pid sid n db)" and ?p = "p\<lparr>resolved_action_seq := n\<rparr>"
  have ok: "schema_ok db" by (rule db_invD(1) [OF assms(1)])
  show "?p \<in> set (processes ?db)"
    using touched_member [OF assms(2,3), of "\<lambda>p. p\<lparr>resolved_action_seq := n\<rparr>"]
    by (simp add: unrecorded_def frontier_def)
  have "r \<in> reports_of pid ?db \<or> report_kind r = ReportActionTerminal" if "r \<in> reports_of pid db" for r
    using that report_check_action [OF schema_okD(3) [OF ok, of r]]
    by (auto simp: unrecorded_def reports_of_def reports_delete_actions)
  then have "evidence_kept True (reports_of pid db) (reports_of pid ?db)"
    unfolding evidence_kept_def using same_evidence_refl by blast
  with assms(4) show "moves p (actions_of pid db) (reports_of pid db) ?p (actions_of pid ?db) (reports_of pid ?db)"
    by (auto simp: moves_def grows_def reached_seq_def)
qed (use assms(3) in \<open>simp_all add: owned_def\<close>)

section \<open>Every operation that does not delete moves a process forward\<close>

fun deletes :: "string \<Rightarrow> store_op \<Rightarrow> bool" where
  "deletes pid (OpDeleteRejectedPreparation q sid) = (q = pid)"
| "deletes pid (OpDeleteStorageExhausted q sid) = (q = pid)"
| "deletes pid (OpDeleteClosed q sid) = (q = pid)"
| "deletes pid op = False"

lemma ReserveProcess_advances:
  assumes "ReserveProcess q db = Inr db'"
  shows "advances pid db db'"
  using assms
proof (cases rule: ReserveProcessE)
  case same
  then show ?thesis by simp
next
  case fresh
  have "actions_of i db' = actions_of i db" "reports_of i db' = reports_of i db" for i
    unfolding fresh(2) by (simp_all add: actions_of_def reports_of_def)
  moreover have "set (processes db) \<subseteq> set (processes db')" unfolding fresh(2) by auto
  ultimately show ?thesis unfolding advances_def using moves_refl by fastforce
qed

lemma update_advances:
  assumes "schema_ok db"
  shows "MarkPrepared pid sid db = Inr db' \<Longrightarrow> advances pid db db'"
    and "MarkAccepted pid sid db = Inr db' \<Longrightarrow> advances pid db db'"
    and "closeActionAdmission pid sid db = Inr db' \<Longrightarrow> advances pid db db'"
    and "markContainmentEmpty pid sid db = Inr db' \<Longrightarrow> advances pid db db'"
    and "MarkServerReleased pid sid db = Inr db' \<Longrightarrow> advances pid db db'"
  by (erule MarkPreparedE [OF assms] MarkAcceptedE [OF assms]
      closeActionAdmissionE [OF assms] markContainmentEmptyE [OF assms] MarkServerReleasedE [OF assms],
      rule advances_touch [OF assms], assumption, assumption, assumption,
      auto simp: grows_def phase_order)+

lemma RecordSpawned_advances:
  assumes "schema_ok db" "RecordSpawned pid sid k c db = Inr db'"
  shows "advances pid db db'"
  using assms
proof (cases rule: RecordSpawnedE)
  case (1 p)
  have "process_check p" by (rule schema_okD(1) [OF assms(1) 1(3)])
  with 1 show ?thesis
    by (intro advances_touch [OF assms(1) 1(3,4,10)]) (auto simp: grows_def process_check_def)
qed

lemma AuthorizeSpawnOnce_advances:
  assumes "schema_ok db" "AuthorizeSpawnOnce pid sid db = Inr (b, db')"
  shows "advances pid db db'"
  using assms
proof (cases rule: AuthorizeSpawnOnceE)
  case (first p)
  then show ?thesis by (intro advances_touch [OF assms(1) first(2,3,7)]) (auto simp: grows_def)
qed simp

lemma markLocalClosed_advances:
  assumes "schema_ok db" "markLocalClosed pid sid db = Inr db'"
  shows "advances pid db db'"
  using assms
proof (cases rule: markLocalClosedE)
  case (closes p)
  then show ?thesis by (intro advances_touch [OF assms(1) closes(1,2,9)]) (auto simp: grows_def)
qed simp

lemma ApplyOnce_advances:
  assumes "db_inv codec db" "in_int64 (action_seq a)" "ApplyOnce pid sid a db = Inr ((d, rep), db')"
  shows "advances pid db db'"
  using db_invD(1) [OF assms(1)] assms(2,3)
proof (cases rule: ApplyOnceE)
  case (closed p)
  then show ?thesis using advances_frontier [OF assms(1)] by simp
next
  case (execute p)
  then have "schema_ok (frontier pid sid (action_seq a - 1) db)" "action_process_id a = pid"
    by (auto simp: reaches_def)
  then show ?thesis
    unfolding execute(9)
    by (intro advances_trans [OF advances_frontier [OF assms(1) execute(2)] advances_with_action]) simp_all
qed simp

lemma RecordActionWithoutEffect_advances:
  assumes "db_inv codec db" "in_int64 (action_seq a)"
    and "RecordActionWithoutEffect codec rid pid sid a q db = Inr ((d, rep), db')"
  shows "advances pid db db'"
  using db_invD(1) [OF assms(1)] assms(2,3)
proof (cases rule: RecordActionWithoutEffectE)
  case (closed p)
  then show ?thesis using advances_frontier [OF assms(1)] by simp
next
  case (recorded p db2)
  then have "schema_ok (frontier pid sid (action_seq a - 1) db)" "action_process_id a = pid"
    by (auto simp: reaches_def)
  then have "advances pid db db2"
    unfolding recorded(6)
    by (intro advances_trans [OF advances_frontier [OF assms(1) recorded(2)] advances_with_action]) simp_all
  then show ?thesis by (rule advances_trans [OF _ advances_freeze [OF recorded(5,10)]])
qed simp

lemma freeze_advances:
  assumes "schema_ok db"
  shows "freezeActionReport codec rid pid sid aid q db = Inr (res, db') \<Longrightarrow> advances pid db db'"
    and "FreezeStartedReport codec rid pid sid q db = Inr (res, db') \<Longrightarrow> advances pid db db'"
    and "freezeTerminalReport codec rid pid sid q db = Inr (res, db') \<Longrightarrow> advances pid db db'"
proof -
  show "freezeActionReport codec rid pid sid aid q db = Inr (res, db') \<Longrightarrow> advances pid db db'"
    by (erule freezeActionReportE) (auto intro: advances_freeze [OF assms])
  show "FreezeStartedReport codec rid pid sid q db = Inr (res, db') \<Longrightarrow> advances pid db db'"
    by (erule FreezeStartedReportE) (auto intro: advances_freeze [OF assms])
  assume "freezeTerminalReport codec rid pid sid q db = Inr (res, db')"
  then obtain p db1 where p: "p \<in> set (processes db)" "owned pid sid p"
    and fr: "freezeReportTx codec rid q db = Inr (res, db1)"
    and db': "db' = touch pid sid (\<lambda>p. p\<lparr>phase := ProcessTerminal, action_admission_closed := True\<rparr>) db1"
    by (rule freezeTerminalReportE)
  note frame = freezeReportTx_frame [OF assms fr]
  have "p \<in> set (processes db1)" using p(1) frame(1) by simp
  then have "advances pid db1 db'"
    by (rule advances_touch [OF frame(4) _ p(2) db'])
      (auto simp: grows_def phase_order split: process_phase.splits)
  then show "advances pid db db'" by (rule advances_trans [OF advances_freeze [OF assms fr]])
qed

lemma releaseAction_advances:
  assumes "db_inv codec db" "in_int64 seq" "releaseAction pid sid aid seq ab db = Inr db'"
  shows "advances pid db db'"
  using db_invD(1) [OF assms(1)] assms(2,3)
proof (cases rule: releaseActionE)
  case (moves p)
  show ?thesis unfolding moves(7) by (rule advances_resolve [OF assms(1) moves(1-3)])
qed simp

lemma RejectReport_advances:
  assumes "schema_ok db" "RejectReport rid code msg db = Inr db'"
  shows "advances pid db db'"
  using assms
proof (cases rule: RejectReportE)
  case (rejects r)
  have "state_rank (report_state q) = 0" if "q \<in> set (frozen_reports db)" "report_id q = rid" for q
    using that rejects(1-3) report_unique [OF assms(1), of q r] by (simp add: state_rank_def)
  then show ?thesis unfolding rejects(5) by (intro advances_settle) simp_all
qed simp

lemma AcknowledgeReport_advances:
  assumes "db_inv codec db" "AcknowledgeReport rid db = Inr db'"
  shows "advances pid db db'"
  using db_invD(1) [OF assms(1)] assms(2)
proof (cases rule: AcknowledgeReportE)
  case (action r a p)
  let ?pid = "report_process_id r" and ?sid = "supervisor_instance_id p"
  have own: "owned ?pid ?sid p" using action(7) by (simp add: owned_def)
  have "proc_inv p (actions_of ?pid db) (reports_of ?pid db)" by (rule db_invD(2) [OF assms(1) action(6,7)])
  moreover have "a \<in> actions_of ?pid db" using action(4,5) by (simp add: actions_of_def)
  ultimately have "resolved_action_seq p < action_seq a" by (auto simp: proc_inv_def)
  then have "advances ?pid db (unrecorded ?pid (action_id a) (frontier ?pid ?sid (action_seq a) db))"
    by (rule advances_resolve [OF assms(1) action(6) own])
  moreover have db': "db' = unrecorded ?pid (action_id a) (frontier ?pid ?sid (action_seq a) db)"
    unfolding action(9) resolve_def unrecorded_def action(5) ..
  moreover have "elsewhere_same ?pid db db'"
    unfolding db' unrecorded_def
    by (rule elsewhere_trans [OF elsewhere_frontier elsewhere_delete_actions]) simp
  ultimately show ?thesis by (cases "pid = ?pid") (auto intro: advances_elsewhere)
next
  case (process r db1 p)
  let ?pid = "report_process_id r" and ?sid = "supervisor_instance_id p"
  have "state_rank (report_state q) \<le> 2" for q by (simp add: state_rank_def split: report_state.splits)
  then have "advances pid db (settle rid acknowledged db)"
    by (intro advances_settle) (simp_all add: acknowledged_def state_rank_def split: report_state.splits)
  then have 1: "advances pid db db1" using process(7) by auto
  have own: "p \<in> set (processes db1)" "owned ?pid ?sid p"
    using process(5,6,7) by (auto simp: owned_def)
  have "advances ?pid db1 (released ?pid ?sid db1)"
    using own by (intro advances_touch [OF process(8) own released_def]) (auto simp: grows_def)
  moreover have "elsewhere_same ?pid db1 (released ?pid ?sid db1)"
    unfolding released_def by (rule elsewhere_touch) simp
  ultimately have "advances pid db1 (released ?pid ?sid db1)"
    by (cases "pid = ?pid") (auto intro: advances_elsewhere)
  with 1 show ?thesis unfolding process(9) by (auto intro: advances_trans)
qed

lemmas operation_advances =
  update_advances RecordSpawned_advances AuthorizeSpawnOnce_advances markLocalClosed_advances freeze_advances

lemma perform_advances:
  assumes "db_inv codec db" "seq_int64 op" "perform codec op db = Inr (ans, db')" "\<not> deletes pid op"
  shows "advances pid db db'"
proof (cases "names_process op = Some pid \<or> names_process op = None")
  case True
  have ok: "schema_ok db" by (rule db_invD(1) [OF assms(1)])
  from True assms(2-4) show ?thesis
  proof (cases op)
    case (OpOpen i m)
    with assms(3) have "bindOrVerifyIdentity i m db = Inr db'" by simp
    from bindOrVerifyIdentity_tables [OF this] show ?thesis
      unfolding advances_def actions_of_def reports_of_def by auto
  qed (auto simp: wrapper_defs dest: operation_advances [OF ok] ReserveProcess_advances
      ApplyOnce_advances [OF assms(1)] RecordActionWithoutEffect_advances [OF assms(1)]
      releaseAction_advances [OF assms(1)] RejectReport_advances [OF ok]
      AcknowledgeReport_advances [OF assms(1)])
next
  case False
  then obtain q where "names_process op = Some q" "q \<noteq> pid" by auto
  with perform_elsewhere [OF assms(1-3)] show ?thesis by (auto intro: advances_elsewhere)
qed

text \<open>Runs that keep process \<open>pid\<close> are runs of the same store with fewer operations.\<close>

interpretation keeping: invariant_store "perform codec" "\<lambda>op. seq_int64 op \<and> \<not> deletes pid op" "db_inv codec"
  for codec pid
  by unfold_locales (auto intro: perform_db_inv)

lemma run_advances:
  assumes "db_inv codec db" "list_all seq_int64 ops" "list_all (\<lambda>op. \<not> deletes pid op) ops"
  shows "advances pid db (snd (run_store (perform codec) ops db))"
proof (rule keeping.run_relates [where R = "advances pid"])
  show "list_all (\<lambda>op. seq_int64 op \<and> \<not> deletes pid op) ops"
    using assms(2,3) by (simp add: list_all_iff)
qed (use assms(1) in \<open>auto intro: advances_trans perform_advances\<close>)

end
