(* ===== verification/StateDB_Errors.thy ===== *)
theory StateDB_Errors
  imports StateDB_Lifecycle
begin

text \<open>
  The guards of the Go code imply the constraints of the schema: on a database that meets the
  invariant no operation fails with a database error, so a constraint failure never surfaces
  instead of one of the package's own errors.  The identifier drawn for a new report has to be
  fresh, as a random one is.
\<close>

section \<open>When a row may be written\<close>

lemma schema_ok_update_processes:
  assumes "schema_ok db" "\<And>q. process_id (f q) = process_id q"
    and "\<And>q. q \<in> set (processes db) \<Longrightarrow> P q \<Longrightarrow> process_check q \<Longrightarrow> process_check (f q)"
  shows "schema_ok (db\<lparr>processes := update_where P f (processes db)\<rparr>)"
proof -
  let ?db = "db\<lparr>processes := update_where P f (processes db)\<rparr>"
  have "map process_id (processes ?db) = map process_id (processes db)" using assms(2) by simp
  moreover have "list_all process_check (processes ?db)"
    using schema_okD(1) [OF assms(1)] assms(3) by (auto simp: list_all_iff set_update_where)
  moreover have "process_actions ?db = process_actions db" "frozen_reports ?db = frozen_reports db"
    "machine_identity ?db = machine_identity db" by simp_all
  ultimately show ?thesis
    using assms(1) unfolding schema_ok_def rows_ok_def keys_ok_def references_ok_def by (simp only:)
qed

lemma update_processes_ok:
  assumes "schema_ok db" "\<And>q. process_id (f q) = process_id q"
    and "\<And>q. q \<in> set (processes db) \<Longrightarrow> P q \<Longrightarrow> process_check q \<Longrightarrow> process_check (f q)"
  shows "update_processes P f db =
     Inr (count_where P (processes db), db\<lparr>processes := update_where P f (processes db)\<rparr>)"
  using schema_ok_update_processes [OF assms] by (simp add: update_processes_Inr)

lemma schema_ok_with_action:
  assumes "schema_ok db" "action_check a" "action_id a \<notin> action_id ` set (process_actions db)"
    and "\<forall>b \<in> set (process_actions db). action_process_id b = action_process_id a \<longrightarrow> action_seq b \<noteq> action_seq a"
    and "action_process_id a \<in> process_id ` set (processes db)"
  shows "schema_ok (with_action a db)"
proof -
  have rows: "process_actions (with_action a db) = process_actions db @ [a]" by (simp add: with_action_def)
  have "list_all (\<lambda>r. case report_action_id r of None \<Rightarrow> True | Some i \<Rightarrow> (i, report_process_id r)
      \<in> set (map (\<lambda>x. (action_id x, action_process_id x)) (process_actions db @ [a]))) (frozen_reports db)"
    using assms(1) unfolding schema_ok_def references_ok_def by (auto simp: list_all_iff split: option.splits)
  moreover have "action_key a \<notin> action_key ` set (process_actions db)"
    using assms(4) by (auto simp: action_key_def)
  ultimately show ?thesis
    using assms(1-3,5)
    unfolding schema_ok_def rows_ok_def keys_ok_def references_ok_def with_action_simps(1-3) rows by simp
qed

lemma schema_ok_with_report:
  assumes "schema_ok db" "report_check r" "report_id r \<notin> report_id ` set (frozen_reports db)"
    and "report_slot r \<notin> report_slot ` set (frozen_reports db)"
    and "report_process_id r \<in> process_id ` set (processes db)"
    and "\<And>i. report_action_id r = Some i \<Longrightarrow>
           \<exists>a \<in> set (process_actions db). action_id a = i \<and> action_process_id a = report_process_id r"
  shows "schema_ok (with_report r db)"
proof -
  have "case report_action_id r of None \<Rightarrow> True | Some a \<Rightarrow>
      (a, report_process_id r) \<in> set (map (\<lambda>x. (action_id x, action_process_id x)) (process_actions db))"
    using assms(6) by (auto simp: image_iff split: option.splits) (metis)
  moreover have "frozen_reports (with_report r db) = frozen_reports db @ [r]" by (simp add: with_report_def)
  ultimately show ?thesis
    using assms(1-5)
    unfolding schema_ok_def rows_ok_def keys_ok_def references_ok_def with_report_simps(1-3) by simp
qed

lemma schema_ok_settle:
  assumes "schema_ok db" "settling f"
    and "\<And>r. r \<in> set (frozen_reports db) \<Longrightarrow> report_id r = rid \<Longrightarrow> report_check (f r)"
  shows "schema_ok (settle rid f db)"
proof -
  define g where "g r = (if report_id r = rid then f r else r)" for r
  have reports: "frozen_reports (settle rid f db) = map g (frozen_reports db)"
    by (simp add: settle_def update_where_def g_def)
  have same: "report_id (g r) = report_id r" "report_slot (g r) = report_slot r"
    "report_process_id (g r) = report_process_id r" "report_action_id (g r) = report_action_id r" for r
    using assms(2) by (simp_all add: settling_def report_slot_def g_def cong: option.case_cong)
  have "list_all report_check (map g (frozen_reports db))"
    using schema_okD(3) [OF assms(1)] assms(3) by (auto simp: list_all_iff g_def)
  moreover have "map report_id (map g (frozen_reports db)) = map report_id (frozen_reports db)"
    "map report_slot (map g (frozen_reports db)) = map report_slot (frozen_reports db)"
    using same by simp_all
  ultimately show ?thesis
    using assms(1)
    unfolding schema_ok_def rows_ok_def keys_ok_def references_ok_def settle_simps reports
      list.pred_map comp_def same by (simp only: list.pred_map)
qed

section \<open>Process operations\<close>

lemma updateProcess_no_error:
  assumes "schema_ok db" "\<And>q. process_id (f q) = process_id q" "lbl \<noteq> []"
    and "\<And>q. q \<in> set (processes db) \<Longrightarrow> P q \<Longrightarrow> process_check q \<Longrightarrow> process_check (f q)"
  shows "updateProcess lbl (update_processes P f) db \<noteq> Inl ErrDatabase"
  using update_processes_ok [OF assms(1,2), of P] assms(3,4) by (simp add: updateProcess_def)

lemma process_updates_no_error:
  assumes "schema_ok db"
  shows "MarkPrepared pid sid db \<noteq> Inl ErrDatabase" "MarkAccepted pid sid db \<noteq> Inl ErrDatabase"
    "RecordSpawned pid sid k c db \<noteq> Inl ErrDatabase" "closeActionAdmission pid sid db \<noteq> Inl ErrDatabase"
    "markContainmentEmpty pid sid db \<noteq> Inl ErrDatabase" "MarkServerReleased pid sid db \<noteq> Inl ErrDatabase"
proof -
  show "MarkPrepared pid sid db \<noteq> Inl ErrDatabase" "MarkAccepted pid sid db \<noteq> Inl ErrDatabase"
    "closeActionAdmission pid sid db \<noteq> Inl ErrDatabase"
    "markContainmentEmpty pid sid db \<noteq> Inl ErrDatabase" "MarkServerReleased pid sid db \<noteq> Inl ErrDatabase"
    unfolding process_update_defs MarkServerReleased_def MarkProcessServerReleased_def
    by (rule updateProcess_no_error [OF assms]; auto simp: process_check_def)+
  show "RecordSpawned pid sid k c db \<noteq> Inl ErrDatabase"
  proof (cases "k = [] \<or> c = []")
    case False
    then have "updateProcess ''record spawned process'' (RecordProcessSpawned k c pid sid) db \<noteq> Inl ErrDatabase"
      unfolding RecordProcessSpawned_def
      by (intro updateProcess_no_error [OF assms]) (auto simp: process_check_def)
    with False show ?thesis by (simp add: RecordSpawned_def)
  qed (simp add: RecordSpawned_def)
qed

lemma AuthorizeSpawnOnce_no_error:
  assumes "schema_ok db"
  shows "AuthorizeSpawnOnce pid sid db \<noteq> Inl ErrDatabase"
proof -
  let ?P = "\<lambda>p. owned pid sid p \<and> phase p = ProcessAccepted \<and> \<not> exec_committed p \<and> \<not> local_closed p"
  have "update_processes ?P (\<lambda>p. p\<lparr>exec_committed := True\<rparr>) db = Inr (count_where ?P (processes db),
      db\<lparr>processes := update_where ?P (\<lambda>p. p\<lparr>exec_committed := True\<rparr>) (processes db)\<rparr>)"
    by (rule update_processes_ok [OF assms]) (auto simp: process_check_def)
  then show ?thesis
    unfolding AuthorizeSpawnOnce_def AuthorizeProcessSpawn_def by (simp split: option.splits)
qed

lemma markLocalClosed_no_error:
  assumes "schema_ok db"
  shows "markLocalClosed pid sid db \<noteq> Inl ErrDatabase"
proof (cases "processTx pid db")
  case (Some p)
  have "MarkProcessLocalClosed pid sid db \<noteq> Inl ErrDatabase"
    if "phase p = ProcessTerminal" "action_admission_closed p" "containment_empty p"
  proof -
    have "process_check (q\<lparr>local_closed := True\<rparr>)"
      if "q \<in> set (processes db)" "owned pid sid q" "process_check q" for q
    proof -
      have "q = p"
        using Some that assms GetProcess_iff [OF assms, of pid q] by (auto simp: processTx_def owned_def)
      with that \<open>phase p = ProcessTerminal\<close> \<open>action_admission_closed p\<close> \<open>containment_empty p\<close>
      show ?thesis by (auto simp: process_check_def)
    qed
    then show ?thesis
      unfolding MarkProcessLocalClosed_def by (subst update_processes_ok [OF assms]) auto
  qed
  with Some show ?thesis by (simp add: markLocalClosed_def)
qed (simp add: markLocalClosed_def)

lemma ReserveProcess_no_error:
  assumes "schema_ok db"
  shows "ReserveProcess q db \<noteq> Inl ErrDatabase"
proof (cases "GetProcessSupervisorIdentity (process_id q) db")
  case None
  then have new: "process_id q \<notin> process_id ` set (processes db)"
    by (auto simp: GetProcessSupervisorIdentity_def find_None_iff)
  have "schema_ok (db\<lparr>processes := processes db @ [p]\<rparr>)" if "process_check p" "process_id p = process_id q" for p
  proof -
    let ?db = "db\<lparr>processes := processes db @ [p]\<rparr>"
    have "list_all (\<lambda>a. action_process_id a \<in> set (map process_id (processes ?db))) (process_actions db)"
      "list_all (\<lambda>r. report_process_id r \<in> set (map process_id (processes ?db))) (frozen_reports db)"
      using assms unfolding schema_ok_def references_ok_def by (auto simp: list_all_iff)
    moreover have "list_all process_check (processes ?db)" "distinct (map process_id (processes ?db))"
      using schema_okD(1,4) [OF assms] that new by (auto simp: list_all_iff)
    moreover have "process_actions ?db = process_actions db" "frozen_reports ?db = frozen_reports db"
      "machine_identity ?db = machine_identity db" by simp_all
    ultimately show ?thesis
      using assms unfolding schema_ok_def rows_ok_def keys_ok_def references_ok_def by (simp only:)
  qed
  with None show ?thesis
    by (auto simp: ReserveProcess_def InsertProcess_def process_check_def)
qed (auto simp: ReserveProcess_def split: if_splits)

lemma delete_no_error:
  "deleteProcessAfterArtifacts pid sid acc db \<noteq> Inl ErrDatabase"
  "DeleteClosedAfterArtifacts pid sid db \<noteq> Inl ErrDatabase"
  by (simp_all add: deleteProcessAfterArtifacts_def DeleteClosedAfterArtifacts_def Let_def split: option.split)

lemma bindOrVerifyIdentity_no_error:
  assumes "schema_ok db" "i \<noteq> []" "m \<noteq> []"
  shows "bindOrVerifyIdentity i m db \<noteq> Inl ErrDatabase"
proof -
  have "schema_ok (db\<lparr>machine_identity := Some (i, m)\<rparr>)" using assms by (simp add: schema_defs cong: option.case_cong)
  then show ?thesis
    by (auto simp: bindOrVerifyIdentity_def readIdentity_def GetMachineIdentity_def BindMachineIdentity_def
        verifyIdentityValues_def checked_def split: option.splits)
qed

section \<open>Reports\<close>

lemma validateReport_error: "validateReport codec q \<noteq> Inl ErrDatabase"
proof -
  have "validateReportKind k ev \<noteq> Inl ErrDatabase" for k ev
    by (simp add: validateReportKind_def split: report_kind.split)
  moreover have "validateReportResult codec res \<noteq> Inl ErrDatabase" for res
    by (simp add: validateReportResult_def split: option.split)
  ultimately show ?thesis
    by (simp add: validateReport_def bindE_eq_Inl split: option.split)
qed

definition fresh_id :: "string \<Rightarrow> statedb \<Rightarrow> bool" where
  "fresh_id rid db \<longleftrightarrow> rid \<noteq> [] \<and> rid \<notin> report_id ` set (frozen_reports db)"

lemma slot_free:
  assumes "schema_ok db" "reportBySlotTx (Kind q) (ProcessID q) (ActionID q) db = None"
    and "Kind q = ReportActionTerminal \<longleftrightarrow> ActionID q \<noteq> []"
    and "ActionID q \<noteq> [] \<Longrightarrow> \<exists>a \<in> set (process_actions db). action_id a = ActionID q \<and> action_process_id a = ProcessID q"
  shows "report_slot (frozen_row rid q) \<notin> report_slot ` set (frozen_reports db)"
proof
  assume "report_slot (frozen_row rid q) \<in> report_slot ` set (frozen_reports db)"
  then obtain r where r: "r \<in> set (frozen_reports db)" "report_slot r = report_slot (frozen_row rid q)" by auto
  show False
  proof (cases "ActionID q = []")
    case True
    with r(2) have "report_process_id r = ProcessID q" "report_action_id r = None" "report_kind r = Kind q"
      by (auto simp: report_slot_def frozen_row_def null_string_def split: option.splits)
    with True r(1) assms(2) show False
      by (auto simp: reportBySlotTx_def GetFrozenProcessReportBySlot_def find_None_iff)
  next
    case False
    with r(2) have act: "report_action_id r = Some (ActionID q)"
      by (auto simp: report_slot_def frozen_row_def null_string_def split: option.splits)
    then have "report_kind r = ReportActionTerminal"
      using report_check_action [OF schema_okD(3) [OF assms(1) r(1)]] by simp
    moreover obtain b where b: "b \<in> set (process_actions db)" "action_id b = ActionID q"
      "action_process_id b = report_process_id r"
      using schema_ok_report_action [OF assms(1) r(1) act] by blast
    moreover obtain a where a: "a \<in> set (process_actions db)" "action_id a = ActionID q"
      "action_process_id a = ProcessID q" using assms(4) False by blast
    have "a = b" using a b by (intro action_unique [OF assms(1)]) simp_all
    with a b have "report_process_id r = ProcessID q" by simp
    ultimately show False
      using False r(1) act assms(2,3)
      by (auto simp: reportBySlotTx_def GetFrozenActionReportBySlot_def find_None_iff)
  qed
qed

lemma freezeReportTx_no_error:
  assumes "schema_ok db" "fresh_id rid db" "ProcessID q \<in> process_id ` set (processes db)"
    and act: "ActionID q \<noteq> [] \<Longrightarrow>
       \<exists>a \<in> set (process_actions db). action_id a = ActionID q \<and> action_process_id a = ProcessID q"
  shows "freezeReportTx codec rid q db \<noteq> Inl ErrDatabase"
proof (cases "validateReport codec q")
  case (Inl e)
  with validateReport_error [of codec q] show ?thesis by (simp add: freezeReportTx_def)
next
  case (Inr u)
  note v = validateReport_action [OF Inr] validateReport_fields [OF Inr]
  have "schema_ok (with_report (frozen_row rid q) db)"
    if "reportBySlotTx (Kind q) (ProcessID q) (ActionID q) db = None"
  proof (rule schema_ok_with_report [OF assms(1)])
    show "report_check (frozen_row rid q)"
      using v assms(2) by (auto simp: report_check_def frozen_row_def null_string_def fresh_id_def)
    show "report_slot (frozen_row rid q) \<notin> report_slot ` set (frozen_reports db)"
      by (rule slot_free [OF assms(1) that v(1) act])
  qed (use assms in \<open>auto simp: fresh_id_def\<close>)
  with Inr show ?thesis
    by (auto simp: freezeReportTx_def InsertFrozenReport_def with_report_def frozen_row_def Let_def checked_def
        split: option.splits)
qed

lemma processTx_exists: "processTx pid db = Some p \<Longrightarrow> pid \<in> process_id ` set (processes db)"
  unfolding processTx_def by (drule GetProcess_SomeD) (auto intro!: image_eqI [of _ _ p])

lemma FreezeStartedReport_no_error:
  assumes "schema_ok db" "fresh_id rid db"
  shows "FreezeStartedReport codec rid pid sid q db \<noteq> Inl ErrDatabase"
proof (cases "processTx pid db")
  case (Some p)
  have "freezeReportTx codec rid q db \<noteq> Inl ErrDatabase" if "ProcessID q = pid" "ActionID q = []"
    using Some that by (intro freezeReportTx_no_error [OF assms]) (auto dest: processTx_exists)
  with Some show ?thesis by (simp add: FreezeStartedReport_def)
qed (simp add: FreezeStartedReport_def)

lemma SetProcessTerminal_ok:
  assumes "schema_ok db"
  shows "\<exists>db'. SetProcessTerminal pid sid db = Inr db'"
  unfolding SetProcessTerminal_def
  by (subst update_processes_ok [OF assms]) (auto simp: process_check_def)

lemma freezeTerminalReport_no_error:
  assumes "schema_ok db" "fresh_id rid db"
  shows "freezeTerminalReport codec rid pid sid q db \<noteq> Inl ErrDatabase"
proof (cases "processTx pid db")
  case (Some p)
  have "freezeReportTx codec rid q db \<noteq> Inl ErrDatabase" if "ProcessID q = pid" "ActionID q = []"
    using Some that by (intro freezeReportTx_no_error [OF assms]) (auto dest: processTx_exists)
  moreover have "SetProcessTerminal pid sid db1 \<noteq> Inl ErrDatabase"
    if "freezeReportTx codec rid q db = Inr (res, db1)" for res db1
    using SetProcessTerminal_ok [OF freezeReportTx_frame(4) [OF assms(1) that], of pid sid] by auto
  ultimately show ?thesis using Some by (auto simp: freezeTerminalReport_def bindE_eq_Inl)
qed (simp add: freezeTerminalReport_def)

lemma freezeActionReport_no_error:
  assumes "schema_ok db" "fresh_id rid db"
  shows "freezeActionReport codec rid pid sid aid q db \<noteq> Inl ErrDatabase"
proof (cases "validateActionReportInput q pid aid = Inr () \<and> (\<exists>p a. processTx pid db = Some p
    \<and> actionTx aid db = Some a \<and> action_process_id a = pid)")
  case True
  then obtain p a where t: "validateActionReportInput q pid aid = Inr ()" "processTx pid db = Some p"
    "actionTx aid db = Some a" "action_process_id a = pid" by auto
  then have "freezeReportTx codec rid q db \<noteq> Inl ErrDatabase"
    by (intro freezeReportTx_no_error [OF assms])
      (auto simp: actionTx_def validateActionReportInput_def
        dest: processTx_exists GetProcessAction_SomeD split: if_splits)
  with t show ?thesis by (simp add: freezeActionReport_def split: option.split)
next
  case False
  then show ?thesis
    by (auto simp: freezeActionReport_def validateActionReportInput_def split: option.split)
qed

lemma RejectReport_no_error:
  assumes "schema_ok db"
  shows "RejectReport rid code msg db \<noteq> Inl ErrDatabase"
proof (cases "code \<noteq> [] \<and> (\<exists>r. GetFrozenReportByID rid db = Some r \<and> report_state r = ReportPending)")
  case True
  then obtain r where g: "GetFrozenReportByID rid db = Some r" "report_state r = ReportPending" "code \<noteq> []"
    by blast
  then have r: "r \<in> set (frozen_reports db)" "report_id r = rid" by (auto dest: GetFrozenReportByID_SomeD)
  have "report_check (rejected code msg q)" if "q \<in> set (frozen_reports db)" for q
    using schema_okD(3) [OF assms that] g(3) by (auto simp: report_check_def rejected_def)
  then have "schema_ok (settle rid (rejected code msg) db)" by (intro schema_ok_settle [OF assms]) simp_all
  moreover have "RejectFrozenReport code msg rid db = checked (settle rid (rejected code msg) db)"
    using update_where_report [OF assms r, where Q = "\<lambda>r. report_state r = ReportPending", OF g(2),
        of "rejected code msg"]
    by (simp add: RejectFrozenReport_def update_reports_def settle_def rejected_def [abs_def])
  ultimately show ?thesis using g by (simp add: RejectReport_def Let_def)
next
  case False
  then show ?thesis by (auto simp: RejectReport_def Let_def reportFromSQLC_def split: option.split)
qed

section \<open>Actions\<close>

lemma compact_no_error:
  assumes "schema_ok db" "p \<in> set (processes db)" "in_int64 n" "resolved_action_seq p < n"
  shows "compactMissingActionPrefixTx p n db \<noteq> Inl ErrDatabase"
proof -
  have "0 \<le> resolved_action_seq p" using schema_okD(1) [OF assms(1,2)] by (simp add: process_check_def)
  with assms(3,4) have n: "wrap64 (n - 1) = n - 1" "0 \<le> n - 1" by (auto intro: wrap64_pred)
  then have "\<exists>db'. CompactMissingActionPrefix (wrap64 (n - 1)) i s r db = Inr db'" for i s r
    unfolding CompactMissingActionPrefix_def
    by (subst update_processes_ok [OF assms(1)]) (auto simp: process_check_def)
  from this [of "process_id p" "supervisor_instance_id p" "resolved_action_seq p"] show ?thesis
    by (auto simp: compactMissingActionPrefixTx_def)
qed

lemma insert_action_ok:
  assumes "reaches pid sid a p db" "validateAction a pid = Inr u"
    and "ensureActionSequenceUnused pid (action_seq a) (frontier pid sid n db) = Inr ()"
    and "n = action_seq a - 1"
  shows "schema_ok (with_action (a\<lparr>effect_committed := e\<rparr>) (frontier pid sid n db))"
proof (rule schema_ok_with_action)
  show "schema_ok (frontier pid sid n db)" using assms(1,4) by (simp add: reaches_def)
  have p: "p \<in> set (processes db)" "owned pid sid p" using assms(1) by (auto simp: reaches_def)
  have "p\<lparr>resolved_action_seq := n\<rparr> \<in> set (processes (frontier pid sid n db))"
    unfolding frontier_def by (rule touched_member [OF p])
  then show "action_process_id (a\<lparr>effect_committed := e\<rparr>) \<in> process_id ` set (processes (frontier pid sid n db))"
    using assms(1) p(2) by (intro image_eqI) (simp_all add: reaches_def owned_def)
  show "\<forall>b \<in> set (process_actions (frontier pid sid n db)).
      action_process_id b = action_process_id (a\<lparr>effect_committed := e\<rparr>) \<longrightarrow>
      action_seq b \<noteq> action_seq (a\<lparr>effect_committed := e\<rparr>)"
    using assms(1,3)
    by (auto simp: reaches_def ensureActionSequenceUnused_def GetProcessActionIDBySequence_None
        split: option.splits)
qed (use assms(1,2) in \<open>auto simp: reaches_def validateAction_Inr action_check_def mutating_iff\<close>)

lemma InsertProcessAction_checked:
  "InsertProcessAction (action_id a) (action_process_id a) (action_kind a) (action_seq a) e db
     = checked (with_action (a\<lparr>effect_committed := e\<rparr>) db)"
  by (cases a) (simp add: InsertProcessAction_def with_action_def)

lemma small_no_error:
  "validateAction a pid \<noteq> Inl ErrDatabase" "loadActionTransitionTx pid sid a db \<noteq> Inl ErrDatabase"
  "ensureActionSequenceUnused pid n db \<noteq> Inl ErrDatabase"
  "validateActionReportInput q pid aid \<noteq> Inl ErrDatabase"
  by (simp_all add: validateAction_def loadActionTransitionTx_def ensureActionSequenceUnused_def
      validateActionReportInput_def split: process_action_kind.split option.split)

lemma ApplyOnce_no_error:
  assumes "schema_ok db" "in_int64 (action_seq a)"
  shows "ApplyOnce pid sid a db \<noteq> Inl ErrDatabase"
proof
  assume err: "ApplyOnce pid sid a db = Inl ErrDatabase"
  obtain u where v: "validateAction a pid = Inr u"
    using err small_no_error(1) by (cases "validateAction a pid") (auto simp: ApplyOnce_def)
  obtain p found where l: "loadActionTransitionTx pid sid a db = Inr (p, found)"
    using err v small_no_error(2) by (cases "loadActionTransitionTx pid sid a db") (auto simp: ApplyOnce_def)
  have found: "found = None" and lt: "resolved_action_seq p < action_seq a"
    using err v l by (auto simp: ApplyOnce_def split: option.splits if_splits)
  have p: "p \<in> set (processes db)" by (rule loadActionTransitionTx_Inr(1) [OF l])
  obtain p1 db1 where c: "compactMissingActionPrefixTx p (action_seq a) db = Inr (p1, db1)"
    using err v l found lt compact_no_error [OF assms(1) p assms(2) lt]
    by (cases "compactMissingActionPrefixTx p (action_seq a) db") (auto simp: ApplyOnce_def split: if_splits)
  note r = reachesI [OF assms v l [unfolded found] lt c]
  have pid: "action_process_id a = pid" using r(1) by (simp add: reaches_def)
  have "InsertProcessAction (action_id a) pid (action_kind a) (action_seq a) True db1 \<noteq> Inl ErrDatabase"
    if "ensureActionSequenceUnused pid (action_seq a) db1 = Inr ()"
    using insert_action_ok [OF r(1) v that [unfolded r(3)] refl, of True]
    by (simp add: InsertProcessAction_checked [of a, unfolded pid] r(3))
  with err v l found lt c show False
    using small_no_error(3) [of pid "action_seq a" db1]
    by (auto simp: ApplyOnce_def pid bindE_eq_Inl split: if_splits)
qed

lemma RecordActionWithoutEffect_no_error:
  assumes "schema_ok db" "in_int64 (action_seq a)" "fresh_id rid db"
  shows "RecordActionWithoutEffect codec rid pid sid a q db \<noteq> Inl ErrDatabase"
proof
  assume err: "RecordActionWithoutEffect codec rid pid sid a q db = Inl ErrDatabase"
  obtain u where v: "validateAction a pid = Inr u"
    using err small_no_error(1) by (cases "validateAction a pid") (auto simp: RecordActionWithoutEffect_def)
  have i: "validateActionReportInput q pid (action_id a) = Inr ()"
    using err v small_no_error(4) [of q pid "action_id a"]
    by (cases "validateActionReportInput q pid (action_id a)") (auto simp: RecordActionWithoutEffect_def)
  obtain p found where l: "loadActionTransitionTx pid sid a db = Inr (p, found)"
    using err v i small_no_error(2)
    by (cases "loadActionTransitionTx pid sid a db") (auto simp: RecordActionWithoutEffect_def)
  have found: "found = None" and lt: "resolved_action_seq p < action_seq a"
    using err v i l by (auto simp: RecordActionWithoutEffect_def split: option.splits if_splits)
  have p: "p \<in> set (processes db)" by (rule loadActionTransitionTx_Inr(1) [OF l])
  obtain p1 db1 where c: "compactMissingActionPrefixTx p (action_seq a) db = Inr (p1, db1)"
    using err v i l found lt compact_no_error [OF assms(1) p assms(2) lt]
    by (cases "compactMissingActionPrefixTx p (action_seq a) db")
      (auto simp: RecordActionWithoutEffect_def split: if_splits)
  note r = reachesI [OF assms(1,2) v l [unfolded found] lt c]
  have pid: "action_process_id a = pid" "owned pid sid p" using r(1) by (auto simp: reaches_def)
  have ins: "\<exists>db2. InsertProcessAction (action_id a) pid (action_kind a) (action_seq a) False db1 = Inr db2
      \<and> freezeReportTx codec rid q db2 \<noteq> Inl ErrDatabase"
    if "ensureActionSequenceUnused pid (action_seq a) db1 = Inr ()"
  proof (intro exI conjI)
    let ?db2 = "with_action (a\<lparr>effect_committed := False\<rparr>) db1"
    have ok: "schema_ok ?db2"
      using insert_action_ok [OF r(1) v that [unfolded r(3)] refl, of False] by (simp add: r(3))
    then show "InsertProcessAction (action_id a) pid (action_kind a) (action_seq a) False db1 = Inr ?db2"
      by (simp add: InsertProcessAction_checked [of a, unfolded pid(1)])
    have "p\<lparr>resolved_action_seq := action_seq a - 1\<rparr> \<in> set (processes ?db2)"
      using touched_member [OF p pid(2)] by (simp add: r(3) frontier_def)
    then have "pid \<in> process_id ` set (processes ?db2)"
      using pid(2) by (intro image_eqI) (simp_all add: owned_def)
    then show "freezeReportTx codec rid q ?db2 \<noteq> Inl ErrDatabase"
      using i assms(3) pid(1)
      by (intro freezeReportTx_no_error [OF ok])
        (auto simp: validateActionReportInput_def fresh_id_def r(3) split: if_splits)
  qed
  with err v i l found lt c show False
    using small_no_error(3) [of pid "action_seq a" db1]
    by (auto simp: RecordActionWithoutEffect_def pid(1) bindE_eq_Inl split: if_splits)
qed

lemma AdvanceResolved_ok:
  assumes "schema_ok db" "0 \<le> n"
  shows "AdvanceResolvedActionSequence n pid db \<noteq> Inl ErrDatabase"
    "AdvanceReleasedActionSequence n pid sid db \<noteq> Inl ErrDatabase"
  unfolding AdvanceResolvedActionSequence_def AdvanceReleasedActionSequence_def
  by (subst update_processes_ok [OF assms(1)]; use assms(2) in \<open>auto simp: process_check_def\<close>)+

lemma AcknowledgeReport_no_error:
  assumes "schema_ok db"
  shows "AcknowledgeReport rid db \<noteq> Inl ErrDatabase"
proof (cases "GetFrozenReportByID rid db")
  case (Some r)
  have r: "r \<in> set (frozen_reports db)" "report_id r = rid" using Some by (auto dest: GetFrozenReportByID_SomeD)
  let ?q = "reportFromSQLC r"
  have "AdvanceResolvedActionSequence (action_seq a) (ProcessID ?q) db \<noteq> Inl ErrDatabase"
    if "actionTx (ActionID ?q) db = Some a" for a
  proof (rule AdvanceResolved_ok(1) [OF assms])
    have "a \<in> set (process_actions db)" using that by (auto simp: actionTx_def dest: GetProcessAction_SomeD)
    then show "0 \<le> action_seq a" using schema_okD(2) [OF assms, of a] by (simp add: action_check_def)
  qed
  then have act: "acknowledgeActionReport ?q db \<noteq> Inl ErrDatabase"
    by (auto simp: acknowledgeActionReport_def bindE_eq_Inl split: option.split)
  have proc: "acknowledgeProcessReport ?q db \<noteq> Inl ErrDatabase" if "report_kind r \<noteq> ReportActionTerminal"
  proof -
    have "report_check (acknowledged q)" if "q \<in> set (frozen_reports db)" "report_id q = rid" for q
    proof -
      have "q = r" using that r by (intro report_unique [OF assms]) simp_all
      with schema_okD(3) [OF assms that(1)] \<open>report_kind r \<noteq> ReportActionTerminal\<close>
      show ?thesis by (auto simp: report_check_def acknowledged_def)
    qed
    then have ok: "schema_ok (settle rid acknowledged db)" by (intro schema_ok_settle [OF assms]) simp_all
    have "\<exists>db1. AcknowledgeProcessReport rid db = Inr db1 \<and> schema_ok db1"
      if "report_state r = ReportPending \<or> report_state r = ReportRejected"
      using AcknowledgeProcessReport_Inr [OF assms r that] ok by blast
    moreover have "MarkTerminalProcessServerReleased pid db1 \<noteq> Inl ErrDatabase" if "schema_ok db1" for pid db1
      unfolding MarkTerminalProcessServerReleased_def
      by (subst update_processes_ok [OF that]) (auto simp: process_check_def)
    moreover have "ID ?q = rid" "State ?q = report_state r" using r by (simp_all add: reportFromSQLC_def)
    ultimately show ?thesis using assms by (auto simp: acknowledgeProcessReport_def bindE_eq_Inl split: if_splits)
  qed
  have "Kind ?q = report_kind r" by (simp add: reportFromSQLC_def)
  with Some act proc show ?thesis by (auto simp: AcknowledgeReport_def Let_def split: report_kind.split)
qed (simp add: AcknowledgeReport_def)

lemma releaseAction_no_error:
  assumes "schema_ok db" "in_int64 seq"
  shows "releaseAction pid sid aid seq ab db \<noteq> Inl ErrDatabase"
proof (cases "processTx pid db")
  case (Some p)
  then have p: "p \<in> set (processes db)" by (auto simp: processTx_def dest: GetProcess_SomeD)
  let ?c = "if wrap64 (resolved_action_seq p + 1) < seq then compactMissingActionPrefixTx p seq db
    else Inr (p, db)"
  have c: "?c \<noteq> Inl ErrDatabase" if "resolved_action_seq p < seq"
    using compact_no_error [OF assms(1) p assms(2) that] by simp
  have "schema_ok db1" if "?c = Inr (p1, db1)" "resolved_action_seq p < seq" for p1 db1
    using that assms(1) compactMissing_Inr(3) [OF assms(1) p assms(2) that(2)] by (auto split: if_splits)
  then have adv: "AdvanceReleasedActionSequence seq pid sid
      (if b then DeleteProcessAction aid pid db1 else db1) \<noteq> Inl ErrDatabase"
    if "?c = Inr (p1, db1)" "resolved_action_seq p < seq" "0 < seq" for p1 db1 b
    using that by (intro AdvanceResolved_ok(2)) (auto simp: DeleteProcessAction_def schema_ok_delete_actions)
  show ?thesis
  proof
    assume "releaseAction pid sid aid seq ab db = Inl ErrDatabase"
    then have "?c = Inl ErrDatabase \<and> resolved_action_seq p < seq \<or>
       (\<exists>p1 db1 b. ?c = Inr (p1, db1) \<and> resolved_action_seq p < seq \<and> 0 < seq
         \<and> AdvanceReleasedActionSequence seq pid sid
             (if b then DeleteProcessAction aid pid db1 else db1) = Inl ErrDatabase)"
      using Some small_no_error(3) [of pid seq db]
      by (cases ?c) (auto simp: releaseAction_def Let_def bindE_eq_Inl split: if_splits option.splits)
    with c adv show False by blast
  qed
qed (simp add: releaseAction_def)

section \<open>No operation fails with a database error\<close>

text \<open>
  The arguments the environment supplies: a drawn report identifier is fresh, and \<open>open\<close> has
  refused an empty installation or machine.
\<close>

fun supplied :: "store_op \<Rightarrow> statedb \<Rightarrow> bool" where
  "supplied (OpOpen i m) db = (i \<noteq> [] \<and> m \<noteq> [])"
| "supplied (OpRecordActionWithoutEffect rid pid sid a q) db = fresh_id rid db"
| "supplied (OpFreezeActionReport rid pid sid aid q) db = fresh_id rid db"
| "supplied (OpFreezeStartedReport rid pid sid q) db = fresh_id rid db"
| "supplied (OpFreezeTerminalReport rid pid sid q) db = fresh_id rid db"
| "supplied op db = True"

lemmas no_error = process_updates_no_error AuthorizeSpawnOnce_no_error markLocalClosed_no_error
  ReserveProcess_no_error RejectReport_no_error AcknowledgeReport_no_error

lemma perform_no_error:
  assumes "schema_ok db" "seq_int64 op" "supplied op db"
  shows "perform codec op db \<noteq> Inl ErrDatabase"
  using assms(2,3)
  by (cases op) (simp_all add: finished_def answering_def bindE_eq_Inl wrapper_defs
      no_error [OF assms(1)] delete_no_error bindOrVerifyIdentity_no_error [OF assms(1)]
      FreezeStartedReport_no_error [OF assms(1)] freezeTerminalReport_no_error [OF assms(1)]
      freezeActionReport_no_error [OF assms(1)] ApplyOnce_no_error [OF assms(1)]
      RecordActionWithoutEffect_no_error [OF assms(1)] releaseAction_no_error [OF assms(1)]
      split: prod.split)

end
