(* ===== verification/StateDB_Traces.thy ===== *)
theory StateDB_Traces
  imports StateDB_Errors
begin

text \<open>
  Promises over runs of the state database: which actions a run let a supervisor execute, how often
  it authorised a spawn, what a retry answers, and how the snapshot and the delivery list read the
  tables.
\<close>

section \<open>What a run answered\<close>

text \<open>The sequences of process \<open>pid\<close> whose effect a run allowed, in the order it did.\<close>

fun executed :: "string \<Rightarrow> (store_op \<times> (statedb_error + answer)) list \<Rightarrow> int list" where
  "executed pid [] = []"
| "executed pid ((OpApplyOnce q sid a, Inr (Applied ApplyExecute rep)) # trace) =
     (if q = pid then action_seq a # executed pid trace else executed pid trace)"
| "executed pid (_ # trace) = executed pid trace"

text \<open>How many spawns of process \<open>pid\<close> a run authorised.\<close>

fun authorised :: "string \<Rightarrow> (store_op \<times> (statedb_error + answer)) list \<Rightarrow> nat" where
  "authorised pid [] = 0"
| "authorised pid ((OpAuthorizeSpawnOnce q sid, Inr (SpawnAuthorized True)) # trace) =
     (if q = pid then Suc (authorised pid trace) else authorised pid trace)"
| "authorised pid (_ # trace) = authorised pid trace"

definition reached :: "string \<Rightarrow> statedb \<Rightarrow> int" where
  "reached pid db =
     (case GetProcess pid db of None \<Rightarrow> 0 | Some p \<Rightarrow> reached_seq p (actions_of pid db))"

definition spawned :: "string \<Rightarrow> statedb \<Rightarrow> bool" where
  "spawned pid db = (case GetProcess pid db of None \<Rightarrow> False | Some p \<Rightarrow> exec_committed p)"

lemma reached_nonneg:
  assumes "schema_ok db"
  shows "0 \<le> reached pid db"
proof (cases "GetProcess pid db")
  case (Some p)
  then have "process_check p" by (auto dest: GetProcess_SomeD intro: schema_okD(1) [OF assms])
  with Some show ?thesis by (simp add: reached_def reached_seq_def process_check_def)
qed (simp add: reached_def)

lemma advances_reached:
  assumes "schema_ok db" "schema_ok db'" "advances pid db db'"
  shows "reached pid db \<le> reached pid db'" "spawned pid db \<Longrightarrow> spawned pid db'"
proof -
  have "reached pid db \<le> reached pid db' \<and> (spawned pid db \<longrightarrow> spawned pid db')"
  proof (cases "GetProcess pid db")
    case None
    with reached_nonneg [OF assms(2)] show ?thesis by (simp add: reached_def spawned_def)
  next
    case (Some p)
    then obtain p' where "p' \<in> set (processes db')" "process_id p' = pid"
      and m: "moves p (actions_of pid db) (reports_of pid db) p' (actions_of pid db') (reports_of pid db')"
      using assms(3) GetProcess_SomeD [OF Some] unfolding advances_def by blast
    then have "GetProcess pid db' = Some p'" by (simp add: GetProcess_iff [OF assms(2)])
    with Some m show ?thesis by (simp add: reached_def spawned_def moves_def grows_def)
  qed
  then show "reached pid db \<le> reached pid db'" "spawned pid db \<Longrightarrow> spawned pid db'" by simp_all
qed

lemma ApplyExecute_reached:
  assumes "db_inv codec db" "in_int64 (action_seq a)"
    and "ApplyOnce pid sid a db = Inr ((ApplyExecute, rep), db')"
  shows "reached pid db < action_seq a" "reached pid db' = action_seq a"
proof -
  have ok: "schema_ok db" by (rule db_invD(1) [OF assms(1)])
  have "reached pid db < action_seq a \<and> reached pid db' = action_seq a"
    using ok assms(2,3)
  proof (cases rule: ApplyOnceE)
    case (execute p)
    let ?db1 = "frontier pid sid (action_seq a - 1) db"
    have p: "p \<in> set (processes db)" "owned pid sid p" "process_id p = pid" "action_process_id a = pid"
      "resolved_action_seq p < action_seq a" using execute(2) by (auto simp: reaches_def owned_def)
    have none: "actions_of pid db = {}"
      using reaches_no_action [OF assms(1) execute(2)] execute(8,9) by simp
    have "p\<lparr>resolved_action_seq := action_seq a - 1\<rparr> \<in> set (processes db')"
      using touched_member [OF p(1,2)] unfolding execute(9) frontier_def by simp
    then have "GetProcess pid db' = Some (p\<lparr>resolved_action_seq := action_seq a - 1\<rparr>)"
      using p(3) by (simp add: GetProcess_iff [OF execute(8)])
    moreover have "actions_of pid db' \<noteq> {}" using p(4) by (simp add: execute(9))
    moreover have "GetProcess pid db = Some p" using p by (simp add: GetProcess_iff [OF ok])
    ultimately show ?thesis using none p(5) by (simp add: reached_def reached_seq_def)
  qed simp_all
  then show "reached pid db < action_seq a" "reached pid db' = action_seq a" by simp_all
qed

section \<open>Executions of a run are in order\<close>

lemma executed_Cons:
  "executed pid ((op, ans) # trace) = executed pid [(op, ans)] @ executed pid trace"
  by (cases "(pid, [(op, ans)])" rule: executed.cases) auto

lemma executed_single:
  assumes "db_inv codec db" "seq_int64 op"
    and "n \<in> set (executed pid [(op, fst (commit db (perform codec op db)))])"
  shows "reached pid db < n" "reached pid (snd (commit db (perform codec op db))) = n"
    and "executed pid [(op, fst (commit db (perform codec op db)))] = [n]"
  using assms(3)
proof -
  obtain sid a rep where op: "op = OpApplyOnce pid sid a"
    and ans: "fst (commit db (perform codec op db)) = Inr (Applied ApplyExecute rep)" and n: "n = action_seq a"
    using assms(3)
    by (cases "(pid, [(op, fst (commit db (perform codec op db)))])" rule: executed.cases)
      (auto split: if_splits)
  then obtain db' where ap: "ApplyOnce pid sid a db = Inr ((ApplyExecute, rep), db')"
    and db': "snd (commit db (perform codec op db)) = db'"
    by (cases "ApplyOnce pid sid a db") (auto simp: answering_def split: prod.splits)
  from assms(2) op have "in_int64 (action_seq a)" by simp
  from ApplyExecute_reached [OF assms(1) this ap]
  show "reached pid db < n" "reached pid (snd (commit db (perform codec op db))) = n"
    unfolding n db' .
  have "executed pid [(op, Inr (Applied ApplyExecute rep))] = [n]" by (simp add: op n)
  with ans show "executed pid [(op, fst (commit db (perform codec op db)))] = [n]" by (simp only:)
qed

lemma commit_reached:
  assumes "db_inv codec db" "seq_int64 op" "\<not> deletes pid op"
  shows "reached pid db \<le> reached pid (snd (commit db (perform codec op db)))"
    and "spawned pid db \<Longrightarrow> spawned pid (snd (commit db (perform codec op db)))"
proof -
  have "reached pid db \<le> reached pid (snd (commit db (perform codec op db)))
      \<and> (spawned pid db \<longrightarrow> spawned pid (snd (commit db (perform codec op db))))"
  proof (cases "perform codec op db")
    case (Inr r)
    then obtain ans db' where r: "perform codec op db = Inr (ans, db')" by (cases r) auto
    have "schema_ok db" "schema_ok db'"
      using db_invD(1) assms(1) perform_db_inv [OF assms(1,2) r] by auto
    with advances_reached [OF _ _ perform_advances [OF assms(1,2) r assms(3)]] r show ?thesis by simp
  qed simp
  then show "reached pid db \<le> reached pid (snd (commit db (perform codec op db)))"
    "spawned pid db \<Longrightarrow> spawned pid (snd (commit db (perform codec op db)))" by simp_all
qed

lemma executed_in_order:
  assumes "db_inv codec db" "list_all seq_int64 ops" "list_all (\<lambda>op. \<not> deletes pid op) ops"
  shows "sorted_wrt (<) (executed pid (fst (run_store (perform codec) ops db)))
    \<and> (\<forall>n \<in> set (executed pid (fst (run_store (perform codec) ops db))). reached pid db < n)"
  using assms
proof (induction ops arbitrary: db)
  case (Cons op ops)
  define ans db' where "ans = fst (commit db (perform codec op db))"
    and "db' = snd (commit db (perform codec op db))"
  let ?rest = "executed pid (fst (run_store (perform codec) ops db'))"
  have split: "executed pid (fst (run_store (perform codec) (op # ops) db)) = executed pid [(op, ans)] @ ?rest"
    unfolding fst_run_store_Cons ans_def db'_def by (rule executed_Cons)
  have "db_inv codec db'" using Cons.prems by (simp add: db'_def statedb.commit_inv)
  with Cons have rest: "sorted_wrt (<) ?rest" "\<forall>n \<in> set ?rest. reached pid db' < n" by simp_all
  have mono: "reached pid db \<le> reached pid db'"
    using Cons.prems commit_reached(1) by (simp add: db'_def)
  show ?case
  proof (cases "executed pid [(op, ans)]")
    case Nil
    then show ?thesis using rest mono unfolding split by force
  next
    case (Cons n ns)
    then have "n \<in> set (executed pid [(op, ans)])" by simp
    with executed_single [of codec db op n pid] Cons.prems
    have "reached pid db < n" "reached pid db' = n" "executed pid [(op, ans)] = [n]"
      by (simp_all add: ans_def db'_def)
    with rest mono show ?thesis unfolding split by force
  qed
qed simp

section \<open>A spawn is authorised at most once\<close>

lemma authorised_Cons:
  "authorised pid ((op, ans) # trace) = authorised pid [(op, ans)] + authorised pid trace"
  by (cases "(pid, [(op, ans)])" rule: authorised.cases) auto

lemma authorised_single:
  assumes "db_inv codec db" "authorised pid [(op, fst (commit db (perform codec op db)))] \<noteq> 0"
  shows "\<not> spawned pid db" "spawned pid (snd (commit db (perform codec op db)))"
    and "authorised pid [(op, fst (commit db (perform codec op db)))] = 1"
proof -
  have ok: "schema_ok db" by (rule db_invD(1) [OF assms(1)])
  obtain sid where op: "op = OpAuthorizeSpawnOnce pid sid"
    and ans: "fst (commit db (perform codec op db)) = Inr (SpawnAuthorized True)"
    using assms(2)
    by (cases "(pid, [(op, fst (commit db (perform codec op db)))])" rule: authorised.cases)
      (auto split: if_splits)
  then obtain db' where au: "AuthorizeSpawnOnce pid sid db = Inr (True, db')"
    and db': "snd (commit db (perform codec op db)) = db'"
    by (cases "AuthorizeSpawnOnce pid sid db") (auto simp: answering_def split: prod.splits)
  have "\<not> spawned pid db \<and> spawned pid db'"
    using ok au
  proof (cases rule: AuthorizeSpawnOnceE)
    case (first p)
    have "p\<lparr>exec_committed := True\<rparr> \<in> set (processes db')"
      unfolding first(7) by (rule touched_member [OF first(2,3)])
    then have "GetProcess pid db' = Some (p\<lparr>exec_committed := True\<rparr>)" "GetProcess pid db = Some p"
      using first(2,3) by (simp_all add: GetProcess_iff [OF first(8)] GetProcess_iff [OF ok] owned_def)
    with first(5) show ?thesis by (simp add: spawned_def)
  qed simp
  then show "\<not> spawned pid db" "spawned pid (snd (commit db (perform codec op db)))"
    unfolding db' by simp_all
  have "authorised pid [(op, Inr (SpawnAuthorized True))] = 1" by (simp add: op)
  with ans show "authorised pid [(op, fst (commit db (perform codec op db)))] = 1" by (simp only:)
qed

lemma authorised_once:
  assumes "db_inv codec db" "list_all seq_int64 ops" "list_all (\<lambda>op. \<not> deletes pid op) ops"
  shows "authorised pid (fst (run_store (perform codec) ops db)) \<le> (if spawned pid db then 0 else 1)"
  using assms
proof (induction ops arbitrary: db)
  case (Cons op ops)
  define ans db' where "ans = fst (commit db (perform codec op db))"
    and "db' = snd (commit db (perform codec op db))"
  let ?rest = "authorised pid (fst (run_store (perform codec) ops db'))"
  have split: "authorised pid (fst (run_store (perform codec) (op # ops) db)) = authorised pid [(op, ans)] + ?rest"
    unfolding fst_run_store_Cons ans_def db'_def by (rule authorised_Cons)
  have "db_inv codec db'" using Cons.prems by (simp add: db'_def statedb.commit_inv)
  with Cons have rest: "?rest \<le> (if spawned pid db' then 0 else 1)" by simp
  have mono: "spawned pid db \<Longrightarrow> spawned pid db'"
    using Cons.prems commit_reached(2) by (simp add: db'_def)
  show ?case
  proof (cases "authorised pid [(op, ans)] = 0")
    case True
    then show ?thesis using rest mono unfolding split by (auto split: if_splits)
  next
    case False
    with authorised_single [of codec db pid op] Cons.prems
    have "\<not> spawned pid db" "spawned pid db'" "authorised pid [(op, ans)] = 1"
      by (simp_all add: ans_def db'_def)
    with rest show ?thesis unfolding split by simp
  qed
qed simp

section \<open>Retries\<close>

text \<open>
  After an action was admitted, asking again answers that its outcome is unknown, until its
  evidence is frozen; then it answers with that evidence.
\<close>

lemma ApplyOnce_again:
  assumes "schema_ok db" "validateAction a pid = Inr ()" "p \<in> set (processes db)" "owned pid sid p"
    and "b \<in> set (process_actions db)" "sameActionIdentity b a"
  shows "ApplyOnce pid sid a db =
    (case reportByActionTx (action_id a) db of
       Some report \<Rightarrow> Inr ((ApplyAlreadyReported, report), db)
     | None \<Rightarrow> if effect_committed b then Inr ((ApplyOutcomeUnknown, empty_report), db)
              else Inl ErrStateConflict)"
proof -
  have "processTx pid db = Some p"
    using assms(3,4) by (simp add: processTx_def GetProcess_iff [OF assms(1)] owned_def)
  moreover have "actionTx (action_id a) db = Some b"
    using assms(5,6) by (simp add: actionTx_def GetProcessAction_iff [OF assms(1)] sameActionIdentity_def)
  ultimately show ?thesis
    using assms(2,4,6) by (simp add: ApplyOnce_def loadActionTransitionTx_def owned_def split: option.split)
qed

lemma ApplyOnce_retry:
  assumes "schema_ok db" "in_int64 (action_seq a)" "ApplyOnce pid sid a db = Inr ((ApplyExecute, rep), db')"
  shows "ApplyOnce pid sid a db' = Inr ((ApplyOutcomeUnknown, empty_report), db')"
  using assms
proof (cases rule: ApplyOnceE)
  case (execute p)
  let ?b = "a\<lparr>effect_committed := True\<rparr>"
  have v: "validateAction a pid = Inr ()" using assms(3) by (auto simp: ApplyOnce_def)
  have p: "p \<in> set (processes db)" "owned pid sid p"
    and new: "action_id a \<notin> action_id ` set (process_actions db)"
    using execute(2) by (auto simp: reaches_def)
  have p': "p\<lparr>resolved_action_seq := action_seq a - 1\<rparr> \<in> set (processes db')"
    using touched_member [OF p] unfolding execute(9) frontier_def by simp
  have b: "?b \<in> set (process_actions db')" by (simp add: execute(9))
  have "report_action_id r \<noteq> Some (action_id a)" if "r \<in> set (frozen_reports db')" for r
  proof
    assume "report_action_id r = Some (action_id a)"
    moreover have "r \<in> set (frozen_reports db)" using that by (simp add: execute(9))
    ultimately obtain c where "c \<in> set (process_actions db)" "action_id c = action_id a"
      using schema_ok_report_action [OF assms(1)] by blast
    with new show False by (metis image_eqI)
  qed
  then have "reportByActionTx (action_id a) db' = None"
    by (simp add: reportByActionTx_def GetFrozenReportByAction_None)
  moreover have "owned pid sid (p\<lparr>resolved_action_seq := action_seq a - 1\<rparr>)" "sameActionIdentity ?b a"
    using p(2) by (simp_all add: owned_def sameActionIdentity_def)
  ultimately show ?thesis using ApplyOnce_again [OF execute(8) v p' _ b] by simp
qed simp_all

section \<open>Slots keep their bytes\<close>

lemma find_append_None: "find P xs = None \<Longrightarrow> find P (xs @ ys) = find P ys"
  by (induction xs) (auto split: if_splits)

lemma freezeReportTx_slot:
  assumes "freezeReportTx codec rid q db = Inr (res, db')"
  shows "\<exists>e. reportBySlotTx (Kind q) (ProcessID q) (ActionID q) db' = Some e
      \<and> ID e = ID res \<and> sameReportContent e q"
proof (cases "reportBySlotTx (Kind q) (ProcessID q) (ActionID q) db")
  case (Some e)
  with assms show ?thesis by (auto simp: freezeReportTx_def split: if_splits)
next
  case None
  with assms have res: "res = q\<lparr>ID := rid, State := ReportPending\<rparr>" "ErrorCode q = []" "Error q = []"
    and db': "frozen_reports db' = frozen_reports db @ [frozen_row rid q]"
    by (auto simp: freezeReportTx_def InsertFrozenReport_def frozen_row_def Let_def split: if_splits)
  have "reportBySlotTx (Kind q) (ProcessID q) (ActionID q) db' = Some (reportFromSQLC (frozen_row rid q))"
    using None db'
    by (auto simp: reportBySlotTx_def GetFrozenProcessReportBySlot_def GetFrozenActionReportBySlot_def
        find_append_None split: if_splits)
  then show ?thesis using res by (simp add: reportFromSQLC_frozen_row sameReportContent_def)
qed

lemma freezeReportTx_again:
  assumes "freezeReportTx codec rid q db = Inr (res, db')" "validateReport codec q' = Inr ()"
    and "Kind q' = Kind q" "ProcessID q' = ProcessID q" "ActionID q' = ActionID q"
  shows "if Body q' = Body q
         then \<exists>res'. freezeReportTx codec rid' q' db' = Inr (res', db') \<and> ID res' = ID res \<and> Body res' = Body q
         else freezeReportTx codec rid' q' db' = Inl ErrStateConflict"
  using freezeReportTx_slot [OF assms(1)] assms(2-5)
  by (auto simp: freezeReportTx_def sameReportContent_def)

section \<open>The identity of the database\<close>

lemma perform_identity:
  assumes "db_inv codec db" "seq_int64 op" "perform codec op db = Inr (ans, db')" "machine_identity db \<noteq> None"
  shows "machine_identity db' = machine_identity db"
proof (cases "names_process op")
  case (Some pid)
  with perform_elsewhere [OF assms(1-3)] show ?thesis by (auto simp: elsewhere_same_def)
next
  case None
  then show ?thesis
  proof (cases op)
    case (OpOpen i m)
    with assms(3) have "bindOrVerifyIdentity i m db = Inr db'" by simp
    from bindOrVerifyIdentity_tables(5,6) [OF this] assms(4) show ?thesis by auto
  next
    case (OpAcknowledgeReport rid)
    with assms(3) AcknowledgeReport_inv(2) [OF assms(1), of rid db'] show ?thesis
      by (auto simp: elsewhere_same_def)
  next
    case (OpRejectReport rid code msg)
    with assms(3) RejectReport_inv(2) [OF assms(1), of rid code msg db'] show ?thesis
      by (auto simp: elsewhere_same_def)
  qed simp_all
qed

lemma run_identity:
  assumes "db_inv codec db" "list_all seq_int64 ops" "machine_identity db \<noteq> None"
  shows "machine_identity (snd (run_store (perform codec) ops db)) = machine_identity db"
proof -
  let ?R = "\<lambda>a b :: statedb. machine_identity a \<noteq> None \<longrightarrow> machine_identity b = machine_identity a"
  have "?R db (snd (run_store (perform codec) ops db))"
  proof (rule statedb.run_relates [where R = ?R])
    show "?R s s'" if "db_inv codec s" "seq_int64 q" "perform codec q s = Inr (r, s')" for s q r s'
      using perform_identity [OF that] by blast
  qed (use assms(1,2) in simp_all)
  with assms(3) show ?thesis by blast
qed

end
