(* ===== verification/StateDB_Snapshot.thy ===== *)
theory StateDB_Snapshot
  imports StateDB_Audit
begin

text \<open>
  The snapshot for reconciliation is the join it is meant to be: one entry per process in
  identifier order, its actions in sequence order with whether each has evidence, and the
  identifiers of its rejected reports.  The join never misses a process, because every action and
  every report belongs to one.
\<close>

section \<open>Sorting\<close>

lemma insort_key_cong:
  assumes "\<And>y. y \<in> set ys \<Longrightarrow> f x \<le> f y \<longleftrightarrow> g x \<le> g y"
  shows "insort_key f x ys = insort_key g x ys"
  using assms by (induction ys) auto

lemma sort_key_cong:
  assumes "\<And>x y. x \<in> set xs \<Longrightarrow> y \<in> set xs \<Longrightarrow> f x \<le> f y \<longleftrightarrow> g x \<le> g y"
  shows "sort_key f xs = sort_key g xs"
  using assms
proof (induction xs)
  case (Cons x xs)
  then have "sort_key f xs = sort_key g xs" by simp
  moreover have "insort_key f x (sort_key g xs) = insort_key g x (sort_key g xs)"
    using Cons.prems by (intro insort_key_cong) simp
  ultimately show ?case by simp
qed simp

lemma sort_Pair: "sort (map (Pair i) xs) = map (Pair i) (sort xs)"
proof (induction xs)
  case (Cons x xs)
  have "insort (i, x) (map (Pair i) ys) = map (Pair i) (insort x ys)" for ys
    by (induction ys) auto
  with Cons show ?case by simp
qed simp

section \<open>The index\<close>

lemma fold_index:
  "fold (\<lambda>i index. index(f i \<mapsto> i)) [0..<n] Map.empty k = Some i \<Longrightarrow> i < n \<and> f i = k"
  by (induction n) (auto split: if_splits)

lemma fold_index_inj:
  assumes "i < n" "\<And>j. j < n \<Longrightarrow> f j = f i \<Longrightarrow> j = i"
  shows "fold (\<lambda>i index. index(f i \<mapsto> i)) [0..<n] Map.empty (f i) = Some i"
  using assms
proof (induction n)
  case (Suc n)
  show ?case
  proof (cases "i = n")
    case False
    with Suc.prems have "f n \<noteq> f i" "i < n" by auto
    with Suc show ?thesis by simp
  qed simp
qed simp

definition snap_id :: "process_snapshot \<Rightarrow> string" where
  "snap_id s = process_id (Process s)"

lemma byProcess_Some:
  assumes "distinct (map snap_id snaps)"
  shows "byProcess snaps pid = Some i \<longleftrightarrow> i < length snaps \<and> snap_id (snaps ! i) = pid"
proof
  assume "byProcess snaps pid = Some i"
  then show "i < length snaps \<and> snap_id (snaps ! i) = pid"
    unfolding byProcess_def snap_id_def by (rule fold_index)
next
  assume i: "i < length snaps \<and> snap_id (snaps ! i) = pid"
  have "j = i" if "j < length snaps" "snap_id (snaps ! j) = snap_id (snaps ! i)" for j
    using assms that i by (auto simp: distinct_conv_nth)
  then show "byProcess snaps pid = Some i"
    using i fold_index_inj [of i "length snaps" "\<lambda>i. process_id (Process (snaps ! i))"]
    unfolding byProcess_def snap_id_def by auto
qed

text \<open>Updating the entry of one process is an update by identifier.\<close>

lemma update_entry:
  assumes "distinct (map snap_id snaps)" "i < length snaps" "snap_id (snaps ! i) = pid"
  shows "snaps[i := g (snaps ! i)] = map (\<lambda>s. if snap_id s = pid then g s else s) snaps"
proof (rule nth_equalityI)
  fix j assume "j < length (snaps[i := g (snaps ! i)])"
  then have "j < length snaps" by simp
  moreover have "snap_id (snaps ! j) = pid \<longleftrightarrow> j = i"
    using assms \<open>j < length snaps\<close> by (auto simp: distinct_conv_nth)
  ultimately show "snaps[i := g (snaps ! i)] ! j = map (\<lambda>s. if snap_id s = pid then g s else s) snaps ! j"
    using assms(2) by (simp add: nth_list_update)
qed simp

section \<open>The joins\<close>

definition add_action :: "action \<times> frozen_report option \<Rightarrow> process_snapshot \<Rightarrow> process_snapshot" where
  "add_action row s = (case row of (a, report) \<Rightarrow>
     s\<lparr>Actions := Actions s @ [\<lparr>Action = a, Reported = (report \<noteq> None)\<rparr>],
       RejectedReportIDs := RejectedReportIDs s @
         (case report of None \<Rightarrow> [] | Some r \<Rightarrow> if report_state r = ReportRejected then [report_id r] else [])\<rparr>)"

definition add_rejected :: "string \<times> string \<Rightarrow> process_snapshot \<Rightarrow> process_snapshot" where
  "add_rejected row s = s\<lparr>RejectedReportIDs := RejectedReportIDs s @ [snd row]\<rparr>"

lemma add_id [simp]: "snap_id (add_action row s) = snap_id s" "snap_id (add_rejected r s) = snap_id s"
  by (simp_all add: add_action_def add_rejected_def snap_id_def split: prod.split)

lemma byProcess_ids:
  assumes "map snap_id snaps = map snap_id snaps'"
  shows "byProcess snaps = byProcess snaps'"
proof -
  have len: "length snaps = length snaps'" using assms by (rule map_eq_imp_length_eq)
  have same: "process_id (Process (snaps ! i)) = process_id (Process (snaps' ! i))" if "i < length snaps" for i
    using arg_cong [OF assms, of "\<lambda>xs. xs ! i"] that len by (simp add: snap_id_def)
  show ?thesis
    unfolding byProcess_def
    by (intro fold_cong) (auto simp: len [symmetric] same)
qed

text \<open>
  Both joins apply each row to the entry of its process.  \<open>rows_for\<close> is what that does to one entry:
  a fold over the rows of its process.
\<close>

definition rows_for :: "('r \<Rightarrow> string) \<Rightarrow> ('r \<Rightarrow> process_snapshot \<Rightarrow> process_snapshot) \<Rightarrow> 'r list \<Rightarrow>
    process_snapshot \<Rightarrow> process_snapshot" where
  "rows_for key add rows s = fold add (filter (\<lambda>r. key r = snap_id s) rows) s"

definition apply_row :: "string \<Rightarrow> (process_snapshot \<Rightarrow> process_snapshot) \<Rightarrow> process_snapshot \<Rightarrow> process_snapshot" where
  "apply_row pid g s = (if snap_id s = pid then g s else s)"

lemma rows_for_Cons:
  "(\<And>s. snap_id (add row s) = snap_id s) \<Longrightarrow>
     rows_for key add (row # rows) s = rows_for key add rows (apply_row (key row) (add row) s)"
  by (simp add: rows_for_def apply_row_def)

lemma apply_row_ids:
  "(\<And>s. snap_id (g s) = snap_id s) \<Longrightarrow> map snap_id (map (apply_row pid g) snaps) = map snap_id snaps"
  by (simp add: apply_row_def)

lemma entry_found:
  assumes "distinct (map snap_id snaps)" "pid \<in> snap_id ` set snaps"
  obtains i where "byProcess snaps pid = Some i"
    "\<And>g. snaps[i := g (snaps ! i)] = map (apply_row pid g) snaps"
proof -
  from assms(2) obtain i where "i < length snaps" "snap_id (snaps ! i) = pid" by (auto simp: in_set_conv_nth)
  then show thesis
    using that [of i] byProcess_Some [OF assms(1)] update_entry [OF assms(1)]
    by (simp add: apply_row_def [abs_def])
qed

lemma join_actions_rows:
  assumes "distinct (map snap_id snaps)" "index = byProcess snaps"
    and "\<forall>row \<in> set rows. action_process_id (fst row) \<in> snap_id ` set snaps"
  shows "join_actions index rows snaps = Inr (map (rows_for (\<lambda>row. action_process_id (fst row)) add_action rows) snaps)"
  using assms
proof (induction rows arbitrary: snaps)
  case Nil
  then show ?case by (simp add: rows_for_def)
next
  case (Cons row rows)
  obtain a r where row: "row = (a, r)" by (cases row)
  let ?snaps = "map (apply_row (action_process_id a) (add_action row)) snaps"
  have ids: "map snap_id ?snaps = map snap_id snaps" by (rule apply_row_ids) simp
  from arg_cong [OF this, of set] have "snap_id ` set ?snaps = snap_id ` set snaps"
    by (simp only: set_map [symmetric])
  then have IH: "join_actions index rows ?snaps
      = Inr (map (rows_for (\<lambda>row. action_process_id (fst row)) add_action rows) ?snaps)"
    using Cons.prems ids byProcess_ids [OF ids] by (intro Cons.IH) (simp_all del: map_map list.map_comp)
  obtain i where i: "byProcess snaps (action_process_id a) = Some i"
    "\<And>g. snaps[i := g (snaps ! i)] = map (apply_row (action_process_id a) g) snaps"
    using Cons.prems(3) by (auto simp: row intro: entry_found [OF Cons.prems(1)])
  have "join_actions index (row # rows) snaps = join_actions index rows (snaps[i := add_action row (snaps ! i)])"
    using i(1) Cons.prems(2) by (cases r) (simp_all add: row Let_def add_action_def)
  then show ?case using IH i(2) [of "add_action row"] by (simp add: rows_for_Cons row)
qed

lemma join_rejected_rows:
  assumes "distinct (map snap_id snaps)" "index = byProcess snaps"
    and "\<forall>row \<in> set rows. fst row \<in> snap_id ` set snaps"
  shows "join_rejected index rows snaps = Inr (map (rows_for fst add_rejected rows) snaps)"
  using assms
proof (induction rows arbitrary: snaps)
  case Nil
  then show ?case by (simp add: rows_for_def)
next
  case (Cons row rows)
  obtain pid rid where row: "row = (pid, rid)" by (cases row)
  let ?snaps = "map (apply_row pid (add_rejected row)) snaps"
  have ids: "map snap_id ?snaps = map snap_id snaps" by (rule apply_row_ids) simp
  from arg_cong [OF this, of set] have "snap_id ` set ?snaps = snap_id ` set snaps"
    by (simp only: set_map [symmetric])
  then have IH: "join_rejected index rows ?snaps = Inr (map (rows_for fst add_rejected rows) ?snaps)"
    using Cons.prems ids byProcess_ids [OF ids] by (intro Cons.IH) (simp_all del: map_map list.map_comp)
  obtain i where i: "byProcess snaps pid = Some i"
    "\<And>g. snaps[i := g (snaps ! i)] = map (apply_row pid g) snaps"
    using Cons.prems(3) by (auto simp: row intro: entry_found [OF Cons.prems(1)])
  have "join_rejected index (row # rows) snaps = join_rejected index rows (snaps[i := add_rejected row (snaps ! i)])"
    using i(1) Cons.prems(2) by (simp add: row Let_def add_rejected_def)
  then show ?case using IH i(2) [of "add_rejected row"] by (simp add: rows_for_Cons row)
qed

section \<open>The snapshot\<close>

text \<open>What the snapshot of one process is meant to hold.\<close>

definition rejected_action_reports :: "statedb \<Rightarrow> action \<Rightarrow> string list" where
  "rejected_action_reports db a =
     map report_id (filter (\<lambda>r. report_action_id r = Some (action_id a) \<and> report_state r = ReportRejected)
       (frozen_reports db))"

definition snapshot_of :: "statedb \<Rightarrow> process \<Rightarrow> process_snapshot" where
  "snapshot_of db p =
     (let actions = ListProcessActions (process_id p) db
      in \<lparr>Process = p,
          Actions = map (\<lambda>a. \<lparr>Action = a,
             Reported = list_ex (\<lambda>r. report_action_id r = Some (action_id a)) (frozen_reports db)\<rparr>) actions,
          RejectedReportIDs = concat (map (rejected_action_reports db) actions) @
             sort (map report_id (filter (\<lambda>r. report_process_id r = process_id p \<and> report_action_id r = None
               \<and> report_state r = ReportRejected) (frozen_reports db)))\<rparr>)"

lemma fold_add_rejected:
  "fold add_rejected rows s = s\<lparr>RejectedReportIDs := RejectedReportIDs s @ map snd rows\<rparr>"
  by (induction rows arbitrary: s) (simp_all add: add_rejected_def)

definition rejected_of :: "action \<times> frozen_report option \<Rightarrow> string list" where
  "rejected_of row = (case snd row of None \<Rightarrow> []
     | Some r \<Rightarrow> if report_state r = ReportRejected then [report_id r] else [])"

lemma fold_add_action:
  "fold add_action rows s =
     s\<lparr>Actions := Actions s @ map (\<lambda>(a, r). \<lparr>Action = a, Reported = (r \<noteq> None)\<rparr>) rows,
       RejectedReportIDs := RejectedReportIDs s @ concat (map rejected_of rows)\<rparr>"
  by (induction rows arbitrary: s) (auto simp: add_action_def rejected_of_def split: prod.split)

lemma concat_map_filter:
  "(\<And>x y. y \<in> set (f x) \<Longrightarrow> P y \<longleftrightarrow> Q x) \<Longrightarrow> filter P (concat (map f xs)) = concat (map f (filter Q xs))"
proof (induction xs)
  case (Cons x xs)
  then have "filter P (f x) = (if Q x then f x else [])" by (auto intro: filter_True)
  with Cons show ?case by simp
qed simp

text \<open>The rows of the left join: one per action, since an action has at most one report.\<close>

definition action_rows :: "statedb \<Rightarrow> action \<Rightarrow> (action \<times> frozen_report option) list" where
  "action_rows db a =
     (case filter (\<lambda>r. report_action_id r = Some (action_id a)) (frozen_reports db) of
        [] \<Rightarrow> [(a, None)] | rs \<Rightarrow> map (\<lambda>r. (a, Some r)) rs)"

lemma action_rows_fst: "row \<in> set (action_rows db a) \<Longrightarrow> fst row = a"
  by (auto simp: action_rows_def split: list.splits)

lemma one_report:
  assumes "schema_ok db"
  shows "filter (\<lambda>r. report_action_id r = Some i) (frozen_reports db) = [] \<or>
    (\<exists>r. filter (\<lambda>r. report_action_id r = Some i) (frozen_reports db) = [r])"
proof -
  let ?rs = "filter (\<lambda>r. report_action_id r = Some i) (frozen_reports db)"
  have slots: "\<forall>r \<in> set ?rs. report_slot r = Inr i" by (simp add: report_slot_def)
  have "distinct (map report_slot ?rs)" by (rule distinct_map_filter_key [OF schema_okD(8) [OF assms]])
  with slots show ?thesis
  proof (cases ?rs)
    case (Cons r rs)
    with slots \<open>distinct (map report_slot ?rs)\<close> have "rs = []" by (cases rs) (auto simp del: filter_filter)
    with Cons show ?thesis by simp
  qed simp
qed

lemma action_rows_entries:
  assumes "schema_ok db"
  shows "map (\<lambda>(a, r). \<lparr>Action = a, Reported = (r \<noteq> None)\<rparr>) (action_rows db a) =
      [\<lparr>Action = a, Reported = list_ex (\<lambda>r. report_action_id r = Some (action_id a)) (frozen_reports db)\<rparr>]"
    and "concat (map rejected_of (action_rows db a)) = rejected_action_reports db a"
proof -
  let ?P = "\<lambda>r. report_action_id r = Some (action_id a)"
  have ex: "list_ex ?P (frozen_reports db) \<longleftrightarrow> filter ?P (frozen_reports db) \<noteq> []"
    by (auto simp: list_ex_iff filter_empty_conv)
  have rej: "rejected_action_reports db a =
      map report_id (filter (\<lambda>r. report_state r = ReportRejected) (filter ?P (frozen_reports db)))"
    by (simp add: rejected_action_reports_def conj_commute)
  from one_report [OF assms, of "action_id a"]
  show "map (\<lambda>(a, r). \<lparr>Action = a, Reported = (r \<noteq> None)\<rparr>) (action_rows db a) =
      [\<lparr>Action = a, Reported = list_ex ?P (frozen_reports db)\<rparr>]"
    and "concat (map rejected_of (action_rows db a)) = rejected_action_reports db a"
    unfolding ex rej by (auto simp: action_rows_def rejected_of_def simp del: filter_filter)
qed

lemma ListProcessActionSnapshots_rows:
  "ListProcessActionSnapshots db = concat (map (action_rows db) (sort_key action_key (process_actions db)))"
  by (simp add: ListProcessActionSnapshots_def action_rows_def [abs_def])

lemma actions_in_order:
  "filter (\<lambda>a. action_process_id a = pid) (sort_key action_key (process_actions db)) = ListProcessActions pid db"
proof -
  have "sort_key action_key (filter (\<lambda>a. action_process_id a = pid) (process_actions db))
      = sort_key action_seq (filter (\<lambda>a. action_process_id a = pid) (process_actions db))"
    by (rule sort_key_cong) (auto simp: action_key_def)
  then show ?thesis by (simp add: filter_sort ListProcessActions_def)
qed

lemma rejected_in_order:
  "map snd (filter (\<lambda>row. fst row = pid) (ListRejectedProcessReportIDs db)) =
     sort (map report_id (filter (\<lambda>r. report_process_id r = pid \<and> report_action_id r = None
       \<and> report_state r = ReportRejected) (frozen_reports db)))"
proof -
  let ?rs = "filter (\<lambda>r. report_action_id r = None \<and> report_state r = ReportRejected) (frozen_reports db)"
  have "filter (\<lambda>row. fst row = pid) (map (\<lambda>r. (report_process_id r, report_id r)) ?rs)
      = map (Pair pid) (map report_id (filter (\<lambda>r. report_process_id r = pid) ?rs))"
    by (induction "frozen_reports db") (auto simp: filter_map)
  then have "filter (\<lambda>row. fst row = pid) (ListRejectedProcessReportIDs db)
      = map (Pair pid) (sort (map report_id (filter (\<lambda>r. report_process_id r = pid) ?rs)))"
    unfolding ListRejectedProcessReportIDs_def by (simp only: filter_sort sort_Pair)
  then show ?thesis by (simp add: comp_def conj_ac)
qed

lemma snapshot_entry:
  assumes "schema_ok db"
  shows "rows_for fst add_rejected (ListRejectedProcessReportIDs db)
     (rows_for (\<lambda>row. action_process_id (fst row)) add_action (ListProcessActionSnapshots db)
       \<lparr>Process = p, Actions = [], RejectedReportIDs = []\<rparr>) = snapshot_of db p"
proof -
  let ?acts = "ListProcessActions (process_id p) db"
  have "filter (\<lambda>row. action_process_id (fst row) = process_id p) (ListProcessActionSnapshots db)
      = concat (map (action_rows db) ?acts)"
    unfolding ListProcessActionSnapshots_rows actions_in_order [symmetric]
    by (rule concat_map_filter) (simp add: action_rows_fst)
  moreover have "map (\<lambda>(a, r). \<lparr>Action = a, Reported = (r \<noteq> None)\<rparr>) (concat (map (action_rows db) xs)) =
      map (\<lambda>a. \<lparr>Action = a,
        Reported = list_ex (\<lambda>r. report_action_id r = Some (action_id a)) (frozen_reports db)\<rparr>) xs" for xs
    by (induction xs) (simp_all add: action_rows_entries(1) [OF assms] del: not_None_eq)
  moreover have "concat (map rejected_of (concat (map (action_rows db) xs))) =
      concat (map (rejected_action_reports db) xs)" for xs
    by (induction xs) (simp_all add: action_rows_entries(2) [OF assms])
  ultimately show ?thesis
    by (simp add: rows_for_def snap_id_def fold_add_action fold_add_rejected snapshot_of_def Let_def
        rejected_in_order del: not_None_eq)
qed

lemma SnapshotForReconciliation_eq:
  assumes "schema_ok db"
  shows "SnapshotForReconciliation db = Inr (map (snapshot_of db) (ListProcesses db))"
proof -
  let ?empty = "\<lambda>p. \<lparr>Process = p, Actions = [], RejectedReportIDs = []\<rparr>"
  let ?snaps = "map ?empty (ListProcesses db)"
  let ?f = "rows_for (\<lambda>row. action_process_id (fst row)) add_action (ListProcessActionSnapshots db)"
  let ?g = "rows_for fst add_rejected (ListRejectedProcessReportIDs db)"
  have "distinct (map process_id (ListProcesses db))"
    using schema_okD(4) [OF assms] by (simp add: ListProcesses_def distinct_map)
  moreover have ids: "map snap_id ?snaps = map process_id (ListProcesses db)"
    by (simp add: snap_id_def)
  ultimately have dist: "distinct (map snap_id ?snaps)" by (simp only:)
  have all: "snap_id ` set ?snaps = process_id ` set (processes db)"
    by (simp add: snap_id_def ListProcesses_def image_image)
  have keep: "map snap_id (map ?f ?snaps) = map snap_id ?snaps"
    by (simp add: rows_for_def fold_add_action snap_id_def)
  have acts: "\<forall>row \<in> set (ListProcessActionSnapshots db). action_process_id (fst row) \<in> snap_id ` set ?snaps"
    using schema_ok_action_process [OF assms] unfolding all ListProcessActionSnapshots_rows
    by (auto dest!: action_rows_fst) (metis image_eqI)
  have "\<forall>row \<in> set (ListRejectedProcessReportIDs db). fst row \<in> process_id ` set (processes db)"
    using schema_ok_report_process [OF assms] by (auto simp: ListRejectedProcessReportIDs_def) (metis image_eqI)
  moreover have "snap_id ` set (map ?f ?snaps) = snap_id ` set ?snaps"
    using arg_cong [OF keep, of set] by (simp only: set_map)
  ultimately have rejs: "\<forall>row \<in> set (ListRejectedProcessReportIDs db). fst row \<in> snap_id ` set (map ?f ?snaps)"
    unfolding all by (simp only:)
  have "join_actions (byProcess ?snaps) (ListProcessActionSnapshots db) ?snaps = Inr (map ?f ?snaps)"
    by (rule join_actions_rows [OF dist refl acts])
  moreover have "join_rejected (byProcess ?snaps) (ListRejectedProcessReportIDs db) (map ?f ?snaps)
      = Inr (map ?g (map ?f ?snaps))"
    using join_rejected_rows [OF dist [folded keep] byProcess_ids [OF keep, symmetric] rejs] .
  ultimately have "SnapshotForReconciliation db = Inr (map (\<lambda>p. ?g (?f (?empty p))) (ListProcesses db))"
    by (simp add: SnapshotForReconciliation_def Let_def)
  moreover have "?g (?f (?empty p)) = snapshot_of db p" for p
    by (rule snapshot_entry [OF assms])
  ultimately show ?thesis by simp
qed

end
