(* ===== verification/StateDB_Properties.thy ===== *)
theory StateDB_Properties
  imports StateDB_Traces StateDB_Snapshot
begin

text \<open>
  The properties of the machine daemon's state database, over every database its operations can
  reach from a new one, with a concrete run that meets their hypotheses.
\<close>

section \<open>A concrete run\<close>

text \<open>A codec that reads a body by table, and a run through the life of one process.\<close>

definition table_codec :: "(bytes \<times> reported_event) list \<Rightarrow> report_codec" where
  "table_codec table =
     \<lparr>unmarshal_event = map_of table, unmarshal_observation = (\<lambda>_. Some None),
      marshal_report = (\<lambda>rid event. Some (rid @ event_process_id event))\<rparr>"

definition sample_event :: "reported_event_type \<Rightarrow> string \<Rightarrow> process_state \<Rightarrow> time \<Rightarrow> time \<Rightarrow> time \<Rightarrow> reported_event" where
  "sample_event ty aid st started ended observed =
     \<lparr>event_type = ty, event_process_id = ''p'', event_process_action_id = aid, event_state = st,
      event_exit_code = Some 0, event_exit_signal = [], event_state_reason_code = ''ok'',
      event_state_reason_message = [], event_result = [], event_started_at = started,
      event_ended_at = ended, event_observed_at = observed\<rparr>"

definition sample_codec :: report_codec where
  "sample_codec = table_codec
     [(''S'', sample_event EventProcessStarted [] ProcessStateRunning 1 0 2),
      (''A'', sample_event EventProcessActionApplied ''a1'' ProcessStateRunning 0 0 0),
      (''B'', sample_event EventProcessActionFailed ''a2'' ProcessStateRunning 0 0 0),
      (''T'', sample_event EventProcessFinished [] ProcessStateExited 1 3 0)]"

definition sample_process :: process where
  "sample_process =
     \<lparr>process_id = ''p'', supervisor_instance_id = ''s'', supervisor_token = ''t'',
      phase = ProcessPreparing, resolved_action_seq = 0, exec_committed = False,
      containment_kind = [], containment_id = [], containment_empty = False,
      action_admission_closed = False, local_closed = False, server_released = False\<rparr>"

definition sample_action :: "string \<Rightarrow> int \<Rightarrow> action" where
  "sample_action aid n =
     \<lparr>action_id = aid, action_process_id = ''p'', action_kind = ProcessActionWrite, action_seq = n,
      effect_committed = False\<rparr>"

definition sample_report :: "string \<Rightarrow> report_kind \<Rightarrow> bytes \<Rightarrow> report" where
  "sample_report aid kind body = empty_report\<lparr>ProcessID := ''p'', ActionID := aid, Kind := kind, Body := body\<rparr>"

definition sample_start :: "store_op list" where
  "sample_start =
     [OpOpen ''i'' ''m'', OpReserveProcess sample_process, OpMarkPrepared ''p'' ''s'',
      OpMarkAccepted ''p'' ''s'']"

definition sample_life :: "store_op list" where
  "sample_life =
     [OpAuthorizeSpawnOnce ''p'' ''s'', OpAuthorizeSpawnOnce ''p'' ''s'',
      OpRecordSpawned ''p'' ''s'' ''k'' ''c'',
      OpFreezeStartedReport ''r1'' ''p'' ''s'' (sample_report [] ReportProcessStarted ''S''),
      OpApplyOnce ''p'' ''s'' (sample_action ''a1'' 3),
      OpFreezeActionReport ''r2'' ''p'' ''s'' ''a1'' (sample_report ''a1'' ReportActionTerminal ''A''),
      OpAcknowledgeReport ''r2'',
      OpApplyOnce ''p'' ''s'' (sample_action ''a3'' 4)]"

lemma sample_int64: "list_all seq_int64 (sample_start @ sample_life)"
  by (simp add: sample_start_def sample_life_def sample_action_def in_int64_def min_int64_def max_int64_def)

lemma sample_no_delete: "list_all (\<lambda>op. \<not> deletes ''p'' op) sample_life"
  by (simp add: sample_life_def)

lemmas evaluate_defs =
  finished_def answering_def bindOrVerifyIdentity_def readIdentity_def GetMachineIdentity_def
  BindMachineIdentity_def checked_def schema_defs list_all_iff process_check_def action_check_def
  report_check_def action_key_def report_slot_def ReserveProcess_def GetProcessSupervisorIdentity_def
  InsertProcess_def MarkPrepared_def MarkProcessPrepared_def updateProcess_def update_processes_def
  update_where_def count_where_def owned_def MarkAccepted_def MarkProcessAccepted_def
  AuthorizeSpawnOnce_def AuthorizeProcessSpawn_def processTx_def GetProcess_def RecordSpawned_def
  RecordProcessSpawned_def FreezeStartedReport_def freezeReportTx_def validateReport_def
  validateReportKind_def validateReportResult_def validateReportWireEnvelope_def maxFrozenReportBytes_def
  MaxMessageBytes_def reportBySlotTx_def GetFrozenProcessReportBySlot_def GetFrozenActionReportBySlot_def
  InsertFrozenReport_def null_string_def ApplyOnce_def validateAction_def loadActionTransitionTx_def
  actionTx_def GetProcessAction_def compactMissingActionPrefixTx_def CountProcessActionsBetween_def
  CompactMissingActionPrefix_def wrap64_def ensureActionSequenceUnused_def
  GetProcessActionIDBySequence_def InsertProcessAction_def freezeActionReport_def
  validateActionReportInput_def AcknowledgeReport_def GetFrozenReportByID_def reportFromSQLC_def
  acknowledgeActionReport_def AdvanceResolvedActionSequence_def DeleteProcessAction_def
  delete_actions_def validTerminalActionEvent_def time_is_zero_def time_after_def Let_def
  freezeTerminalReport_def SetProcessTerminal_def ValidProcessTerminalSourceTimes_def
  markContainmentEmpty_def MarkProcessContainmentEmpty_def markLocalClosed_def
  CountTerminalProcessReports_def CountUnresolvedProcessActions_def MarkProcessLocalClosed_def
  acknowledgeProcessReport_def AcknowledgeProcessReport_def update_reports_def
  MarkTerminalProcessServerReleased_def

lemmas sample_defs =
  sample_start_def sample_life_def sample_process_def sample_action_def sample_report_def
  sample_codec_def table_codec_def sample_event_def empty_statedb_def empty_report_def

lemma sample_started:
  "after sample_codec sample_start =
     \<lparr>machine_identity = Some (''i'', ''m''), processes = [sample_process\<lparr>phase := ProcessAccepted\<rparr>],
      process_actions = [], frozen_reports = []\<rparr>"
  by (simp add: after_def sample_defs evaluate_defs)

section \<open>Invariants\<close>

text \<open>
  C5. The audit the daemon runs when it opens its database never fails on a database its own
  operations produced: after any sequence of operations on a new database, and with the SQLite
  checks passing, \<open>Audit\<close> finds no semantic violation and every frozen body is valid.
\<close>
theorem reachable_audit_passes:
  assumes "list_all seq_int64 ops" and "list_all (\<lambda>row. row = ''ok'') integrity"
  shows "Audit codec (Inr ()) integrity 0 (after codec ops) = Inr ()"
  using db_inv_after [OF assms(1)] assms(2) by (rule Audit_ok)

theorem reachable_audit_passes_witness:
  "Audit sample_codec (Inr ()) [''ok''] 0 (after sample_codec (sample_start @ sample_life)) = Inr ()"
  using reachable_audit_passes [OF sample_int64, of "[''ok'']" sample_codec] by simp

text \<open>
  C18. Every frozen report stays deliverable: after any sequence of operations, each stored report
  passes \<open>validateReport\<close>, its wire message encodes within the protocol's size limit, and it
  belongs to a stored process and, if it is an action report, to a stored action of that process.
\<close>
theorem reachable_reports_deliverable:
  assumes "list_all seq_int64 ops" and "r \<in> set (frozen_reports (after codec ops))"
  shows "validateReport codec (reportFromSQLC r) = Inr ()
       \<and> validateReportWireEnvelope codec (reportFromSQLC r) = Inr ()
       \<and> (\<exists>p \<in> set (processes (after codec ops)). process_id p = report_process_id r)
       \<and> (report_kind r = ReportActionTerminal \<longrightarrow> (\<exists>a \<in> set (process_actions (after codec ops)).
            report_action_id r = Some (action_id a) \<and> action_process_id a = report_process_id r))"
proof -
  note inv = db_inv_after [OF assms(1), of codec]
  have ok: "schema_ok (after codec ops)" by (rule db_invD(1) [OF inv])
  have "\<exists>a \<in> set (process_actions (after codec ops)).
      report_action_id r = Some (action_id a) \<and> action_process_id a = report_process_id r"
    if "report_kind r = ReportActionTerminal"
    using report_check_action [OF schema_okD(3) [OF ok assms(2)]] that
      schema_ok_report_action [OF ok assms(2)] by force
  with db_invD(3) [OF inv assms(2)] schema_ok_report_process [OF ok assms(2)] show ?thesis
    by (simp add: body_ok_def)
qed

lemma sample_final:
  "after sample_codec (sample_start @ sample_life) =
     \<lparr>machine_identity = Some (''i'', ''m''),
      processes = [sample_process\<lparr>phase := ProcessAccepted, exec_committed := True, containment_kind := ''k'',
        containment_id := ''c'', resolved_action_seq := 3\<rparr>],
      process_actions = [(sample_action ''a3'' 4)\<lparr>effect_committed := True\<rparr>],
      frozen_reports = [frozen_row ''r1'' (sample_report [] ReportProcessStarted ''S'')]\<rparr>"
  by (simp add: after_append sample_started) (simp add: sample_defs evaluate_defs frozen_row_def)

theorem reachable_reports_deliverable_witness:
  "validateReportWireEnvelope sample_codec (reportFromSQLC (frozen_row ''r1'' (sample_report [] ReportProcessStarted ''S'')))
     = Inr ()"
  using reachable_reports_deliverable [OF sample_int64,
      of "frozen_row ''r1'' (sample_report [] ReportProcessStarted ''S'')" sample_codec]
  by (simp add: sample_final)

text \<open>
  C17. A process has at most one action in flight.  After any sequence of operations, every stored
  action of a process carries the sequence right after the process's resolved frontier, two stored
  actions of the same process are the same row, and an action whose effect was committed belongs
  to a process that was spawned into a containment.
\<close>
theorem reachable_one_action_in_flight:
  assumes "list_all seq_int64 ops" and "a \<in> set (process_actions (after codec ops))"
    and "p \<in> set (processes (after codec ops))" and "process_id p = action_process_id a"
  shows "action_seq a = resolved_action_seq p + 1
       \<and> (\<forall>b \<in> set (process_actions (after codec ops)). action_process_id b = action_process_id a \<longrightarrow> b = a)
       \<and> (effect_committed a \<longrightarrow> exec_committed p \<and> containment_kind p \<noteq> [])"
proof -
  note inv = db_inv_after [OF assms(1), of codec]
  note pinv = db_invD(2) [OF inv assms(3,4)]
  have seq: "action_seq b = resolved_action_seq p + 1"
    if "b \<in> set (process_actions (after codec ops))" "action_process_id b = action_process_id a" for b
    using pinv that by (auto simp: proc_inv_def actions_of_def)
  have "b = a" if b: "b \<in> set (process_actions (after codec ops))" "action_process_id b = action_process_id a" for b
  proof (rule distinct_map_eq [OF schema_okD(6) [OF db_invD(1) [OF inv]] b(1) assms(2)])
    show "action_key b = action_key a"
      using seq [OF b] seq [OF assms(2) refl] b(2) by (simp add: action_key_def)
  qed
  moreover have "effect_committed a \<Longrightarrow> exec_committed p \<and> containment_kind p \<noteq> []"
    using pinv assms(2) by (auto simp: proc_inv_def actions_of_def split: if_splits)
  ultimately show ?thesis using seq [OF assms(2) refl] by blast
qed

theorem reachable_one_action_in_flight_witness:
  "action_seq ((sample_action ''a3'' 4)\<lparr>effect_committed := True\<rparr>) =
     resolved_action_seq (hd (processes (after sample_codec (sample_start @ sample_life)))) + 1"
  using reachable_one_action_in_flight [OF sample_int64, of "(sample_action ''a3'' 4)\<lparr>effect_committed := True\<rparr>"
      sample_codec "hd (processes (after sample_codec (sample_start @ sample_life)))"]
  by (simp add: sample_final sample_process_def sample_action_def)

section \<open>Runs\<close>

text \<open>
  C1. Each action sequence is executed at most once, and in order.  From any reachable database,
  along any sequence of operations that does not delete process \<open>pid\<close>, the sequences for which
  \<open>ApplyOnce\<close> answered \<open>ApplyExecute\<close> are strictly increasing, whatever retries, rejections,
  acknowledgements or releases happen in between.
\<close>
theorem apply_executes_once_in_order:
  assumes "list_all seq_int64 (before @ ops)" and "list_all (\<lambda>op. \<not> deletes pid op) ops"
  shows "sorted_wrt (<) (executed pid (fst (run_store (perform codec) ops (after codec before))))"
  using executed_in_order [OF db_inv_after, of before ops pid codec] assms by simp

theorem apply_executes_once_in_order_witness:
  "sorted_wrt (<) (executed ''p'' (fst (run_store (perform sample_codec) sample_life
     (after sample_codec sample_start))))
   \<and> executed ''p'' (fst (run_store (perform sample_codec) sample_life (after sample_codec sample_start))) = [3, 4]"
  using apply_executes_once_in_order [OF sample_int64 sample_no_delete, of sample_codec]
  unfolding sample_started by (simp add: sample_defs evaluate_defs)

text \<open>
  C10. A spawn is authorised at most once.  From any reachable database, along any sequence of
  operations that does not delete process \<open>pid\<close>, \<open>AuthorizeSpawnOnce\<close> answers true at most once.
\<close>
theorem spawn_authorised_at_most_once:
  assumes "list_all seq_int64 (before @ ops)" and "list_all (\<lambda>op. \<not> deletes pid op) ops"
  shows "authorised pid (fst (run_store (perform codec) ops (after codec before))) \<le> 1"
  using authorised_once [OF db_inv_after, of before ops pid codec] assms by (simp split: if_splits)

theorem spawn_authorised_at_most_once_witness:
  "authorised ''p'' (fst (run_store (perform sample_codec) sample_life (after sample_codec sample_start))) \<le> 1
   \<and> authorised ''p'' (fst (run_store (perform sample_codec) sample_life (after sample_codec sample_start))) = 1"
  using spawn_authorised_at_most_once [OF sample_int64 sample_no_delete, of sample_codec]
  unfolding sample_started by (simp add: sample_defs evaluate_defs)

text \<open>
  C2. A process only moves forward and its evidence is never lost.  From any reachable database,
  along any sequence of operations that does not delete process \<open>pid\<close>: its supervisor stays, its
  phase, frontier and flags never go back, a recorded containment never changes, every report of
  the process itself stays byte for byte with a settlement that only progresses, and a report of an
  action disappears only when the resolved frontier has moved.
\<close>
theorem process_evidence_never_lost:
  assumes "list_all seq_int64 (before @ ops)" and "list_all (\<lambda>op. \<not> deletes pid op) ops"
  shows "advances pid (after codec before) (snd (run_store (perform codec) ops (after codec before)))"
  using run_advances [OF db_inv_after, of before ops pid codec] assms by simp

theorem process_evidence_never_lost_witness:
  "advances ''p'' (after sample_codec sample_start)
     (snd (run_store (perform sample_codec) sample_life (after sample_codec sample_start)))"
  using process_evidence_never_lost [OF sample_int64 sample_no_delete, of sample_codec] .



text \<open>
  C6. The guards of the code imply the constraints of the schema.  On a reachable database, with a
  fresh report identifier and a non-empty identity, no operation returns a database error: it
  succeeds or returns one of the package's own errors.
\<close>
theorem operations_never_break_the_schema:
  assumes "list_all seq_int64 ops" and "seq_int64 op" and "supplied op (after codec ops)"
  shows "perform codec op (after codec ops) \<noteq> Inl ErrDatabase"
  by (rule perform_no_error [OF db_invD(1) [OF db_inv_after [OF assms(1)]] assms(2,3)])

theorem operations_never_break_the_schema_witness:
  "perform sample_codec (OpFreezeStartedReport ''r9'' ''p'' ''s'' (sample_report [] ReportProcessStarted ''S''))
     (after sample_codec (sample_start @ sample_life)) \<noteq> Inl ErrDatabase"
  using operations_never_break_the_schema [OF sample_int64, of "OpFreezeStartedReport ''r9'' ''p'' ''s''
      (sample_report [] ReportProcessStarted ''S'')" sample_codec]
  by (simp add: sample_final fresh_id_def)

text \<open>
  C19. A retried \<open>ApplyOnce\<close> never executes again.  On a reachable database, once \<open>ApplyOnce\<close> has
  answered \<open>ApplyExecute\<close>, asking again for the same action answers \<open>ApplyOutcomeUnknown\<close> and
  changes nothing.
\<close>
theorem apply_retry_is_outcome_unknown:
  assumes "list_all seq_int64 ops" and "in_int64 (action_seq a)"
    and "ApplyOnce pid sid a (after codec ops) = Inr ((ApplyExecute, rep), db')"
  shows "ApplyOnce pid sid a db' = Inr ((ApplyOutcomeUnknown, empty_report), db')"
  by (rule ApplyOnce_retry [OF db_invD(1) [OF db_inv_after [OF assms(1)]] assms(2,3)])

definition sample_spawned :: "store_op list" where
  "sample_spawned = sample_start @ [OpAuthorizeSpawnOnce ''p'' ''s'', OpRecordSpawned ''p'' ''s'' ''k'' ''c'']"

lemma sample_spawned_state:
  "after sample_codec sample_spawned =
     \<lparr>machine_identity = Some (''i'', ''m''),
      processes = [sample_process\<lparr>phase := ProcessAccepted, exec_committed := True, containment_kind := ''k'',
        containment_id := ''c''\<rparr>], process_actions = [], frozen_reports = []\<rparr>"
  unfolding sample_spawned_def after_append sample_started by (simp add: sample_defs evaluate_defs)

lemma sample_spawned_int64: "list_all seq_int64 sample_spawned"
  by (simp add: sample_spawned_def sample_start_def)

lemma sample_apply:
  "ApplyOnce ''p'' ''s'' (sample_action ''a1'' 1) (after sample_codec sample_spawned) =
     Inr ((ApplyExecute, empty_report),
       with_action ((sample_action ''a1'' 1)\<lparr>effect_committed := True\<rparr>) (after sample_codec sample_spawned))"
  unfolding sample_spawned_state by (simp add: sample_defs evaluate_defs with_action_def)

theorem apply_retry_is_outcome_unknown_witness:
  "\<exists>db'. ApplyOnce ''p'' ''s'' (sample_action ''a1'' 1) db' = Inr ((ApplyOutcomeUnknown, empty_report), db')"
  using apply_retry_is_outcome_unknown [OF sample_spawned_int64 _ sample_apply]
  by (auto simp: sample_action_def in_int64_def min_int64_def max_int64_def)

section \<open>Reading and settling\<close>

text \<open>
  C20. The snapshot for reconciliation is complete and exact: on a reachable database
  \<open>SnapshotForReconciliation\<close> never fails its joins and returns, for every process in identifier
  order, its row, its actions in sequence order with whether each has evidence, and the identifiers
  of its rejected reports.
\<close>
theorem reachable_snapshot_is_exact:
  assumes "list_all seq_int64 ops"
  shows "SnapshotForReconciliation (after codec ops) =
    Inr (map (snapshot_of (after codec ops)) (Store_Processes (after codec ops)))"
  using SnapshotForReconciliation_eq [OF db_invD(1) [OF db_inv_after [OF assms]]]
  by (simp add: Store_Processes_def)

theorem reachable_snapshot_is_exact_witness:
  "SnapshotForReconciliation (after sample_codec (sample_start @ sample_life)) =
     Inr (map (snapshot_of (after sample_codec (sample_start @ sample_life)))
       (Store_Processes (after sample_codec (sample_start @ sample_life))))"
  using reachable_snapshot_is_exact [OF sample_int64] .



text \<open>
  C15. A closed process is deleted only when nothing would be lost: \<open>DeleteClosedAfterArtifacts\<close>
  that succeeds on a reachable database either found no such process and changed nothing, or the
  process was closed locally and released by the server, had no action left, and all its reports
  were acknowledged; then no row of it remains.
\<close>
theorem delete_closed_loses_nothing:
  assumes "list_all seq_int64 ops" and "DeleteClosedAfterArtifacts pid sid (after codec ops) = Inr db'"
  shows "(GetProcess pid (after codec ops) = None \<and> db' = after codec ops)
    \<or> ((\<exists>p. GetProcess pid (after codec ops) = Some p \<and> local_closed p \<and> server_released p
            \<and> phase p = ProcessTerminal)
       \<and> (\<forall>a \<in> set (process_actions (after codec ops)). action_process_id a \<noteq> pid)
       \<and> (\<forall>r \<in> set (frozen_reports (after codec ops)).
            report_process_id r = pid \<longrightarrow> report_state r = ReportAcknowledged)
       \<and> GetProcess pid db' = None \<and> (\<forall>r \<in> set (frozen_reports db'). report_process_id r \<noteq> pid))"
proof -
  note inv = db_inv_after [OF assms(1), of codec]
  have ok: "schema_ok (after codec ops)" by (rule db_invD(1) [OF inv])
  show ?thesis
    using assms(2)
  proof (cases rule: DeleteClosedAfterArtifactsE)
    case (deleted p)
    have p: "process_id p = pid" using deleted(2) by (simp add: owned_def)
    have "proc_inv p (actions_of pid (after codec ops)) (reports_of pid (after codec ops))"
      by (rule db_invD(2) [OF inv deleted(1) p])
    then have "phase p = ProcessTerminal" using deleted(3) by (simp add: proc_inv_def)
    moreover have "GetProcess pid (after codec ops) = Some p" using deleted(1) p by (simp add: GetProcess_iff [OF ok])
    moreover have "owned pid sid q" if "q \<in> set (processes (after codec ops))" "process_id q = pid" for q
      using process_unique [OF ok that(1) deleted(1)] that(2) p deleted(2) by simp
    then have "GetProcess pid db' = None" by (auto simp: GetProcess_None deleted(7) delete_processes_sets)
    moreover have "report_process_id r \<noteq> pid" if "r \<in> set (frozen_reports db')" for r
      using that deleted(1,2) p unfolding deleted(7) by (auto simp: delete_processes_reports [OF ok])
    ultimately show ?thesis using deleted(3-6) by blast
  qed simp
qed

definition sample_closed :: "store_op list" where
  "sample_closed = sample_start @
     [OpFreezeTerminalReport ''r3'' ''p'' ''s'' (sample_report [] ReportProcessTerminal ''T''),
      OpMarkContainmentEmpty ''p'' ''s'', OpMarkLocalClosed ''p'' ''s'', OpAcknowledgeReport ''r3'']"

lemma sample_closed_state:
  "after sample_codec sample_closed =
     \<lparr>machine_identity = Some (''i'', ''m''),
      processes = [sample_process\<lparr>phase := ProcessTerminal, action_admission_closed := True,
        containment_empty := True, local_closed := True, server_released := True\<rparr>],
      process_actions = [],
      frozen_reports = [acknowledged (frozen_row ''r3'' (sample_report [] ReportProcessTerminal ''T''))]\<rparr>"
  unfolding sample_closed_def after_append sample_started
  by (simp add: sample_defs evaluate_defs frozen_row_def acknowledged_def)

theorem delete_closed_loses_nothing_witness:
  "\<exists>db'. DeleteClosedAfterArtifacts ''p'' ''s'' (after sample_codec sample_closed) = Inr db'
     \<and> GetProcess ''p'' db' = None"
proof -
  obtain db' where del: "DeleteClosedAfterArtifacts ''p'' ''s'' (after sample_codec sample_closed) = Inr db'"
    unfolding sample_closed_state
    by (simp add: DeleteClosedAfterArtifacts_def CountProcessActions_def CountUnsettledProcessReports_def
        acknowledged_def sample_defs evaluate_defs)
  have "list_all seq_int64 sample_closed" by (simp add: sample_closed_def sample_start_def)
  from delete_closed_loses_nothing [OF this del] del show ?thesis
    unfolding sample_closed_state by (auto simp: GetProcess_def sample_process_def)
qed

text \<open>
  C16. Frozen evidence is immutable.  Once a report has been frozen, freezing a valid report for
  the same slot again returns the stored one when the bytes agree and is a state conflict when they
  differ; neither changes the database.
\<close>
theorem frozen_slot_is_immutable:
  assumes "freezeReportTx codec rid q (after codec ops) = Inr (res, db')"
    and "validateReport codec q' = Inr ()"
    and "Kind q' = Kind q" and "ProcessID q' = ProcessID q" and "ActionID q' = ActionID q"
  shows "if Body q' = Body q
         then \<exists>res'. freezeReportTx codec rid' q' db' = Inr (res', db') \<and> ID res' = ID res \<and> Body res' = Body q
         else freezeReportTx codec rid' q' db' = Inl ErrStateConflict"
  by (rule freezeReportTx_again [OF assms])

lemma sample_freeze:
  "freezeReportTx sample_codec ''r1'' (sample_report [] ReportProcessStarted ''S'') (after sample_codec sample_start) =
     Inr ((sample_report [] ReportProcessStarted ''S'')\<lparr>ID := ''r1'', State := ReportPending\<rparr>,
       with_report (frozen_row ''r1'' (sample_report [] ReportProcessStarted ''S'')) (after sample_codec sample_start))"
  unfolding sample_started
  by (simp add: sample_defs evaluate_defs with_report_def frozen_row_def)

theorem frozen_slot_is_immutable_witness:
  "\<exists>res'. freezeReportTx sample_codec ''r2'' (sample_report [] ReportProcessStarted ''S'')
      (with_report (frozen_row ''r1'' (sample_report [] ReportProcessStarted ''S'')) (after sample_codec sample_start))
    = Inr (res', with_report (frozen_row ''r1'' (sample_report [] ReportProcessStarted ''S'')) (after sample_codec sample_start))
    \<and> ID res' = ''r1''"
proof -
  have "validateReport sample_codec (sample_report [] ReportProcessStarted ''S'') = Inr ()"
    by (simp add: sample_defs evaluate_defs)
  from frozen_slot_is_immutable [OF sample_freeze this refl refl refl, of "''r2''"] show ?thesis by auto
qed

text \<open>
  A database belongs to one installation and machine for good.  Once the identity is bound,
  no sequence of operations changes it, and opening the database under another identity fails.
\<close>
theorem identity_is_bound_once:
  assumes "list_all seq_int64 (before @ ops)" and "machine_identity (after codec before) = Some (i, m)"
    and "(i', m') \<noteq> (i, m)"
  shows "machine_identity (after codec (before @ ops)) = Some (i, m)
    \<and> perform codec (OpOpen i' m') (after codec (before @ ops)) =
        Inl (ErrNew ''state database identity mismatch'')"
proof -
  have "machine_identity (after codec (before @ ops)) = Some (i, m)"
    using run_identity [OF db_inv_after, of before ops codec] assms(1,2) by (simp add: after_append)
  with assms(3) show ?thesis
    by (auto simp: finished_def bindOrVerifyIdentity_def readIdentity_def GetMachineIdentity_def verifyIdentityValues_def)
qed

theorem identity_is_bound_once_witness:
  "perform sample_codec (OpOpen ''i'' ''other'') (after sample_codec (sample_start @ sample_life)) =
     Inl (ErrNew ''state database identity mismatch'')"
  using identity_is_bound_once [OF sample_int64, of sample_codec "''i''" "''m''" "''i''" "''other''"]
  by (simp add: sample_started)

end
