(* ===== verification/Daemon_World.thy ===== *)
theory Daemon_World
  imports StateDB_Traces StateDB_Snapshot
begin

text \<open>
  The world in which the machine daemon's own code runs
  (\<open>src/internal/machinedaemon\<close>, above the state database), and the combinators its functions are
  written with.

  A daemon function reads and writes the state database one transaction at a time, and between two
  of its transactions other goroutines and the supervisors run theirs.  \<open>schedule\<close> says what happens
  before each transaction: operations of others, then the transaction itself or a fault (the database
  is busy or full, the context is done) that leaves the database alone.  Calls outside the database
  (a supervisor's socket, a lock file, the file system, a timer) answer from \<open>replies\<close>: an error, or
  success.  An exhausted list means success and no interference.  \<open>newReportID\<close> draws from \<open>ids\<close>.
  The client's map \<open>processes\<close> from process IDs to runtimes is an association list, and is changed
  by the function that runs, not by others.
\<close>

section \<open>Errors\<close>

text \<open>
  \<open>Joined\<close> is \<open>errors.Join\<close> and \<open>fmt.Errorf\<close> with two wrapped errors; wrapping one error keeps it.
  \<open>is_err\<close> is \<open>errors.Is\<close>.
\<close>

datatype daemon_error =
    StateError statedb_error
  | ErrBusy
  | ErrFull
  | ErrNoSpace
  | ContextDone
  | ErrLocalStateChanged
  | ErrProbeUnavailable
  | ErrRunnerIdentityMismatch
  | ErrRunnerStorageExhaustion
  | ErrTerminalReady
  | ErrLockHeld
  | ErrNotExist
  | ErrMessage string
  | Joined daemon_error daemon_error

fun is_err :: "daemon_error \<Rightarrow> daemon_error \<Rightarrow> bool" where
  "is_err (Joined a b) target \<longleftrightarrow> is_err a target \<or> is_err b target"
| "is_err e target \<longleftrightarrow> e = target"

definition isStorageExhaustion :: "daemon_error \<Rightarrow> bool" where
  "isStorageExhaustion e \<longleftrightarrow> is_err e ErrNoSpace \<or> is_err e ErrFull \<or> is_err e ErrRunnerStorageExhaustion"

section \<open>The world\<close>

text \<open>
  A runtime is the client's handle on one process.  Of its runner the model keeps whether it is
  known to be done and whether it has answered that its storage-exhaustion report is ready.
\<close>

record runner =
  runner_done :: bool
  storageFailureReady :: bool

record process_runtime =
  rt_process_id :: string
  rt_supervisor_instance_id :: string
  rt_runner :: "runner option"
  cleanupOnly :: bool
  storageFailureReporting :: bool

type_synonym runtimes = "(string \<times> process_runtime) list"

datatype sched = Other store_op | Fault daemon_error | Proceed

record world =
  store :: statedb
  client_processes :: runtimes
  schedule :: "sched list"
  replies :: "daemon_error option list"
  ids :: "nat \<Rightarrow> string"
  drawn :: nat

type_synonym 'a daemon = "world \<Rightarrow> (daemon_error + 'a) \<times> world"

definition returnD :: "'a \<Rightarrow> 'a daemon" where
  "returnD x = (\<lambda>w. (Inr x, w))"

definition failD :: "daemon_error \<Rightarrow> 'a daemon" where
  "failD e = (\<lambda>w. (Inl e, w))"

definition bindD :: "'a daemon \<Rightarrow> ('a \<Rightarrow> 'b daemon) \<Rightarrow> 'b daemon" where
  "bindD m f = (\<lambda>w. case m w of (Inl e, w') \<Rightarrow> (Inl e, w') | (Inr x, w') \<Rightarrow> f x w')"

text \<open>The result of a call as a value, for code that goes on after an error.\<close>

definition tryD :: "'a daemon \<Rightarrow> (daemon_error + 'a) daemon" where
  "tryD m = (\<lambda>w. case m w of (r, w') \<Rightarrow> (Inr r, w'))"

fun forD :: "'a list \<Rightarrow> ('a \<Rightarrow> unit daemon) \<Rightarrow> unit daemon" where
  "forD [] f = returnD ()"
| "forD (x # xs) f = bindD (f x) (\<lambda>_. forD xs f)"

fun next_tx :: "report_codec \<Rightarrow> sched list \<Rightarrow> statedb \<Rightarrow> daemon_error option \<times> sched list \<times> statedb" where
  "next_tx codec [] db = (None, [], db)"
| "next_tx codec (Other q # s) db = next_tx codec s (snd (commit db (perform codec q db)))"
| "next_tx codec (Fault e # s) db = (Some e, s, db)"
| "next_tx codec (Proceed # s) db = (None, s, db)"

definition tx :: "report_codec \<Rightarrow> (statedb \<Rightarrow> statedb_error + 'a \<times> statedb) \<Rightarrow> 'a daemon" where
  "tx codec f w =
     (case next_tx codec (schedule w) (store w) of (fault, s, db) \<Rightarrow>
        (case fault of
           Some e \<Rightarrow> (Inl e, w\<lparr>schedule := s, store := db\<rparr>)
         | None \<Rightarrow>
             (case f db of
                Inl e \<Rightarrow> (Inl (StateError e), w\<lparr>schedule := s, store := db\<rparr>)
              | Inr (x, db') \<Rightarrow> (Inr x, w\<lparr>schedule := s, store := db'\<rparr>))))"

definition query :: "report_codec \<Rightarrow> (statedb \<Rightarrow> 'a) \<Rightarrow> 'a daemon" where
  "query codec f = tx codec (\<lambda>db. Inr (f db, db))"

definition operate :: "report_codec \<Rightarrow> store_op \<Rightarrow> unit daemon" where
  "operate codec q = bindD (tx codec (perform codec q)) (\<lambda>_. returnD ())"

definition external :: "unit daemon" where
  "external w =
     (case replies w of
        [] \<Rightarrow> (Inr (), w)
      | r # rs \<Rightarrow> (case r of None \<Rightarrow> Inr () | Some e \<Rightarrow> Inl e, w\<lparr>replies := rs\<rparr>))"

definition newReportID :: "string daemon" where
  "newReportID w = (Inr (ids w (drawn w)), w\<lparr>drawn := Suc (drawn w)\<rparr>)"

section \<open>Retrying a busy database\<close>

lemma next_tx_shrinks: "next_tx codec s db = (Some e, s', db') \<Longrightarrow> length s' < length s"
  by (induction codec s db rule: next_tx.induct) auto

lemma next_tx_le: "next_tx codec s db = (fault, s', db') \<Longrightarrow> length s' \<le> length s"
  by (induction codec s db rule: next_tx.induct) auto

lemma bindD_simps [simp]:
  "bindD (returnD x) f = f x" "bindD (failD e) f = failD e"
  "bindD m f w = (case m w of (Inl e, w') \<Rightarrow> (Inl e, w') | (Inr x, w') \<Rightarrow> f x w')"
  by (simp_all add: bindD_def returnD_def failD_def)

lemma tx_schedule: "length (schedule (snd (tx codec f w))) \<le> length (schedule w)"
  by (auto simp: tx_def split: prod.split option.split sum.split dest: next_tx_le)

lemma tx_busy: "tx codec f w = (Inl e, w') \<Longrightarrow> is_err e ErrBusy \<Longrightarrow> length (schedule w') < length (schedule w)"
  by (auto simp: tx_def split: prod.splits option.splits sum.splits dest: next_tx_shrinks)

lemma external_schedule [simp]: "schedule (snd (external w)) = schedule w" "store (snd (external w)) = store w"
  by (auto simp: external_def split: list.split)

lemma operate_Inl:
  "operate codec q w = (Inl e, w') \<longleftrightarrow> tx codec (perform codec q) w = (Inl e, w')"
  by (auto simp: operate_def returnD_def split: prod.splits sum.splits)

text \<open>
  The loop runs until the operation is no longer busy; the pause in between may be cut short by the
  context.  A busy answer uses up an entry of the schedule, so the loop ends.
\<close>

function retryWhileStateDBBusy :: "report_codec \<Rightarrow> store_op \<Rightarrow> unit daemon" where
  "retryWhileStateDBBusy codec q w =
     (case operate codec q w of
        (Inr u, w') \<Rightarrow> (Inr u, w')
      | (Inl e, w') \<Rightarrow>
          if \<not> is_err e ErrBusy then (Inl e, w')
          else case external w' of
                 (Inl e', w'') \<Rightarrow> (Inl e', w'')
               | (Inr _, w'') \<Rightarrow> retryWhileStateDBBusy codec q w'')"
  by pat_completeness auto

termination
proof (relation "measure (\<lambda>(codec, q, w). length (schedule w))", simp)
  fix codec q and w :: world and res w1 e res' w2 and u :: unit
  assume "(res, w1) = operate codec q w" "res = Inl e" "\<not> \<not> is_err e ErrBusy" "(res', w2) = external w1" "res' = Inr u"
  then have "length (schedule w1) < length (schedule w)" and "schedule w2 = schedule w1"
    using tx_busy [of codec "perform codec q" w e w1] external_schedule(1) [of w1]
    by (simp_all add: operate_Inl [symmetric], metis snd_conv)
  then show "((codec, q, w2), codec, q, w) \<in> measure (\<lambda>(codec, q, w). length (schedule w))" by simp
qed

declare retryWhileStateDBBusy.simps [simp del]

section \<open>The client's processes\<close>

definition lookup_runtime :: "runtimes \<Rightarrow> string \<Rightarrow> process_runtime option" where
  "lookup_runtime rs pid = map_of rs pid"

definition set_runtime :: "process_runtime \<Rightarrow> runtimes \<Rightarrow> runtimes" where
  "set_runtime r rs = (rt_process_id r, r) # filter (\<lambda>(pid, _). pid \<noteq> rt_process_id r) rs"

definition delete_runtime :: "string \<Rightarrow> runtimes \<Rightarrow> runtimes" where
  "delete_runtime pid rs = filter (\<lambda>(i, _). i \<noteq> pid) rs"

definition runtime_kept :: "process_runtime \<Rightarrow> bool" where
  "runtime_kept r \<longleftrightarrow> cleanupOnly r \<or> rt_runner r = None \<or> (case rt_runner r of None \<Rightarrow> False | Some n \<Rightarrow> \<not> runner_done n)"

definition addProcess :: "process_runtime \<Rightarrow> runtimes \<Rightarrow> runtimes" where
  "addProcess r rs =
     (case lookup_runtime rs (rt_process_id r) of
        Some current \<Rightarrow>
          if cleanupOnly r \<and> \<not> cleanupOnly current
             \<and> rt_supervisor_instance_id current \<noteq> rt_supervisor_instance_id r
          then rs else if runtime_kept r then set_runtime r rs else rs
      | None \<Rightarrow> if runtime_kept r then set_runtime r rs else rs)"

definition replaceProcesses :: "runtimes \<Rightarrow> runtimes" where
  "replaceProcesses rs = filter (\<lambda>(_, r). runtime_kept r) rs"

definition removeProcessInstance :: "string \<Rightarrow> string \<Rightarrow> runtimes \<Rightarrow> runtimes" where
  "removeProcessInstance pid sid rs =
     (case lookup_runtime rs pid of
        None \<Rightarrow> rs
      | Some r \<Rightarrow> if rt_supervisor_instance_id r = sid then delete_runtime pid rs else rs)"

definition cleanupProcesses :: "runtimes \<Rightarrow> process_runtime list" where
  "cleanupProcesses rs = filter cleanupOnly (map snd rs)"

definition cleanup_process :: "runtimes \<Rightarrow> string \<Rightarrow> bool" where
  "cleanup_process rs pid \<longleftrightarrow> (case lookup_runtime rs pid of None \<Rightarrow> False | Some r \<Rightarrow> cleanupOnly r)"

definition update_processes_map :: "(runtimes \<Rightarrow> runtimes) \<Rightarrow> unit daemon" where
  "update_processes_map f w = (Inr (), w\<lparr>client_processes := f (client_processes w)\<rparr>)"

section \<open>Relations a daemon function keeps\<close>

text \<open>
  \<open>keeps ok R m\<close>: run from a world that is \<open>ok\<close>, the function \<open>m\<close> leads to a world related by \<open>R\<close>.
  For a reflexive and transitive \<open>R\<close> that keeps \<open>ok\<close>, every combinator respects it, so a function
  keeps \<open>R\<close> as soon as the transactions and calls it is made of do.
\<close>

definition keeps :: "(world \<Rightarrow> bool) \<Rightarrow> (world \<Rightarrow> world \<Rightarrow> bool) \<Rightarrow> 'a daemon \<Rightarrow> bool" where
  "keeps ok R m \<longleftrightarrow> (\<forall>w. ok w \<longrightarrow> R w (snd (m w)))"

locale world_relation =
  fixes ok :: "world \<Rightarrow> bool" and R :: "world \<Rightarrow> world \<Rightarrow> bool"
  assumes rel_refl: "ok w \<Longrightarrow> R w w"
    and rel_trans: "R a b \<Longrightarrow> R b c \<Longrightarrow> R a c"
    and rel_ok: "R a b \<Longrightarrow> ok b"
begin

lemma keepsD: "keeps ok R m \<Longrightarrow> ok w \<Longrightarrow> m w = (r, w') \<Longrightarrow> R w w'"
  unfolding keeps_def by (metis snd_conv)

lemma keeps_returnD: "keeps ok R (returnD x)" and keeps_failD: "keeps ok R (failD e)"
  by (simp_all add: keeps_def returnD_def failD_def rel_refl)

lemma keeps_bindD:
  assumes "keeps ok R m" "\<And>x. keeps ok R (f x)"
  shows "keeps ok R (bindD m f)"
  unfolding keeps_def
proof (intro allI impI)
  fix w assume w: "ok w"
  obtain r w' where m: "m w = (r, w')" by force
  have "R w w'" by (rule keepsD [OF assms(1) w m])
  moreover from this have "ok w'" by (rule rel_ok)
  ultimately show "R w (snd (bindD m f w))"
    using assms(2) m by (cases r) (auto simp: keeps_def intro: rel_trans)
qed

lemma keeps_tryD: "keeps ok R m \<Longrightarrow> keeps ok R (tryD m)"
  by (auto simp: keeps_def tryD_def split: prod.split)

lemma keeps_forD: "(\<And>x. x \<in> set xs \<Longrightarrow> keeps ok R (f x)) \<Longrightarrow> keeps ok R (forD xs f)"
  by (induction xs) (auto intro: keeps_bindD keeps_returnD)

lemma keeps_retry:
  assumes "keeps ok R external" "keeps ok R (operate codec q)"
  shows "keeps ok R (retryWhileStateDBBusy codec q)"
proof -
  have "R w (snd (retryWhileStateDBBusy codec q w))" if "ok w" for w
    using that assms(2)
  proof (induction codec q w rule: retryWhileStateDBBusy.induct)
    case (1 codec q w)
    obtain r w1 where o: "operate codec q w = (r, w1)" by force
    obtain r' w2 where x: "external w1 = (r', w2)" by force
    have f1: "R w w1" by (rule keepsD [OF "1.prems"(2,1) o])
    have f2: "R w w2" by (rule rel_trans [OF f1 keepsD [OF assms(1) rel_ok [OF f1] x]])
    have f3: "R w (snd (retryWhileStateDBBusy codec q w2))" if "r = Inl e" "is_err e ErrBusy" "r' = Inr u" for e u
      using "1.IH" [of r w1 e r' w2 u] "1.prems"(2) o x that rel_ok [OF f2] rel_trans [OF f2] by simp
    show ?case
      using f1 f2 f3 by (subst retryWhileStateDBBusy.simps) (auto simp: o x split: sum.split)
  qed
  then show ?thesis by (simp add: keeps_def)
qed

end

section \<open>Daemon functions as traces of store operations\<close>

text \<open>
  \<open>follows codec w w'\<close>: the database of \<open>w'\<close> is that of \<open>w\<close> after some sequence of operations of
  the store.  A daemon function is \<open>traced\<close> if it always leads to such a world, so that what holds
  along every sequence of store operations holds across it, whatever faults and interference occur.
\<close>

fun sched_ok :: "sched \<Rightarrow> bool" where
  "sched_ok (Other q) = seq_int64 q"
| "sched_ok _ = True"

definition world_ok :: "world \<Rightarrow> bool" where
  "world_ok w \<longleftrightarrow> list_all sched_ok (schedule w)"

definition follows :: "report_codec \<Rightarrow> world \<Rightarrow> world \<Rightarrow> bool" where
  "follows codec w w' \<longleftrightarrow> world_ok w' \<and>
     (\<exists>qs. list_all seq_int64 qs \<and> store w' = snd (run_store (perform codec) qs (store w)))"

abbreviation traced :: "report_codec \<Rightarrow> 'a daemon \<Rightarrow> bool" where
  "traced codec \<equiv> keeps world_ok (follows codec)"

lemma follows_refl: "world_ok w \<Longrightarrow> follows codec w w"
  by (auto simp: follows_def intro: exI [of _ "[]"])

lemma follows_trans:
  assumes "follows codec a b" "follows codec b c"
  shows "follows codec a c"
proof -
  from assms obtain qs rs where "list_all seq_int64 (qs @ rs)" and "world_ok c"
    and "store b = snd (run_store (perform codec) qs (store a))"
    and "store c = snd (run_store (perform codec) rs (store b))"
    by (auto simp: follows_def)
  then show ?thesis unfolding follows_def
    by (intro conjI exI [of _ "qs @ rs"]) (simp_all add: run_store_append Let_def split: prod.split)
qed

lemma follows_same: "world_ok w \<Longrightarrow> store w' = store w \<Longrightarrow> schedule w' = schedule w \<Longrightarrow> follows codec w w'"
  using follows_refl [of w codec] by (simp add: follows_def world_ok_def)

lemma follows_db_inv: "follows codec w w' \<Longrightarrow> db_inv codec (store w) \<Longrightarrow> db_inv codec (store w')"
  by (auto simp: follows_def intro: statedb.run_inv)

lemma follows_ok: "follows codec w w' \<Longrightarrow> world_ok w'"
  by (simp add: follows_def)

interpretation traces: world_relation world_ok "follows codec" for codec
  by unfold_locales (auto intro: follows_refl follows_trans follows_ok)

lemmas traced_def = keeps_def [of world_ok "follows codec" for codec]
lemmas tracedD = traces.keepsD
lemmas traced_returnD [simp] = traces.keeps_returnD
lemmas traced_failD [simp] = traces.keeps_failD
lemmas traced_bindD = traces.keeps_bindD
lemmas traced_tryD = traces.keeps_tryD
lemmas traced_forD = traces.keeps_forD

lemma next_tx_follows:
  assumes "next_tx codec s db = (fault, s', db')" "list_all sched_ok s"
  shows "list_all sched_ok s' \<and> (\<exists>qs. list_all seq_int64 qs \<and> db' = snd (run_store (perform codec) qs db))"
  using assms
proof (induction codec s db rule: next_tx.induct)
  case (2 codec q s db)
  then obtain qs where "list_all sched_ok s'" "list_all seq_int64 (q # qs)"
    "db' = snd (run_store (perform codec) (q # qs) db)" by auto
  then show ?case by blast
qed (auto intro: exI [of _ "[]"])

lemma tx_follows:
  assumes "world_ok w" "\<And>db. snd (commit db (f db)) = db \<or> (\<exists>q. seq_int64 q \<and> snd (commit db (f db)) = snd (commit db (perform codec q db)))"
  shows "follows codec w (snd (tx codec f w))"
proof -
  obtain fault s db where n: "next_tx codec (schedule w) (store w) = (fault, s, db)" by (metis prod_cases3)
  define w1 where "w1 = w\<lparr>schedule := s, store := db\<rparr>"
  have 1: "follows codec w w1"
    using next_tx_follows [OF n] assms(1) by (auto simp: follows_def world_ok_def w1_def)
  have 2: "store w' = db \<or> store w' = snd (commit db (f db))" "schedule w' = s" if "tx codec f w = (r, w')" for r w'
    using that by (auto simp: tx_def n split: option.splits sum.splits)
  obtain r w' where t: "tx codec f w = (r, w')" by force
  have ok: "world_ok w1" using 1 by (simp add: follows_def)
  show ?thesis
  proof (cases "store w' = db")
    case True
    with 1 2(2) [OF t] have "follows codec w1 w'" using ok by (intro follows_same) (simp_all add: w1_def)
    with 1 t show ?thesis by (auto intro: follows_trans)
  next
    case False
    then obtain q where "seq_int64 q" "store w' = snd (commit db (perform codec q db))"
      using 2(1) [OF t] assms(2) [of db] by auto
    then have "follows codec w1 w'" using ok 2(2) [OF t]
      by (auto simp: follows_def world_ok_def w1_def intro!: exI [of _ "[q]"])
    with 1 t show ?thesis by (auto intro: follows_trans)
  qed
qed

lemma traced_query [simp]: "traced codec (query codec f)"
  unfolding traced_def query_def by (intro allI impI tx_follows) auto

lemma traced_operate: "seq_int64 q \<Longrightarrow> traced codec (operate codec q)"
  unfolding operate_def
  by (rule traced_bindD [OF _ traced_returnD]) (auto simp: traced_def intro!: tx_follows)

lemma traced_external [simp]: "traced codec external"
  by (auto simp: traced_def intro: follows_same)

lemma traced_newReportID [simp]: "traced codec newReportID"
  by (auto simp: traced_def newReportID_def intro: follows_same)

lemma traced_update_processes_map [simp]: "traced codec (update_processes_map f)"
  by (auto simp: traced_def update_processes_map_def intro: follows_same)

lemma traced_retry: "seq_int64 q \<Longrightarrow> traced codec (retryWhileStateDBBusy codec q)"
  by (intro traces.keeps_retry traced_external traced_operate)

lemmas traced_intros = traced_bindD traced_tryD traced_forD traced_operate traced_retry

section \<open>Undisturbed runs\<close>

text \<open>Nothing interferes and every call outside the database succeeds.\<close>

definition calm :: "world \<Rightarrow> bool" where
  "calm w \<longleftrightarrow> schedule w = [] \<and> replies w = []"

lemma tx_calm:
  "calm w \<Longrightarrow> tx codec f w =
     (case f (store w) of Inl e \<Rightarrow> (Inl (StateError e), w) | Inr (x, db') \<Rightarrow> (Inr x, w\<lparr>store := db'\<rparr>))"
  by (cases w) (auto simp: tx_def calm_def split: sum.split)

lemma query_calm: "calm w \<Longrightarrow> query codec f w = (Inr (f (store w)), w)"
  by (cases w) (simp add: query_def tx_calm)

lemma external_calm: "calm w \<Longrightarrow> external w = (Inr (), w)"
  by (simp add: external_def calm_def)

lemma calm_store [simp]: "calm (w\<lparr>store := db\<rparr>) = calm w"
  by (simp add: calm_def)

lemma operate_calm:
  "calm w \<Longrightarrow> operate codec q w =
     (case perform codec q (store w) of Inl e \<Rightarrow> (Inl (StateError e), w) | Inr (x, db') \<Rightarrow> (Inr (), w\<lparr>store := db'\<rparr>))"
  by (auto simp: operate_def tx_calm returnD_def split: sum.split)

lemma retry_calm:
  "calm w \<Longrightarrow> perform codec q (store w) = Inr (x, db') \<Longrightarrow>
     retryWhileStateDBBusy codec q w = (Inr (), w\<lparr>store := db'\<rparr>)"
  by (simp add: retryWhileStateDBBusy.simps operate_calm)

end
