(* ===== verification/Daemon_Outbox.thy ===== *)
theory Daemon_Outbox
  imports Daemon_World
begin

text \<open>
  The report outbox of the machine daemon (\<open>src/internal/machinedaemon/report_outbox.go\<close>): which
  frozen reports are sent next, what an answer of the server does to the report it answers, and the
  loop that sends them.

  The loop runs until its context ends.  A run is given by the answers of the server in each of its
  rounds; the end of the list is the end of the context.
\<close>

section \<open>Answers\<close>

datatype ack_status =
    AckStatusCommitted | AckStatusCleanupOnly | AckStatusPermanentReject | AckStatusTransientError
  | AckStatusOther string

record report_ack =
  ack_status :: ack_status
  ack_code :: string
  ack_err :: string

definition ErrorCodeValidationFailed :: string where
  "ErrorCodeValidationFailed = ''validation_failed''"

type_synonym server = "report \<Rightarrow> daemon_error + report_ack"

section \<open>Selecting reports\<close>

fun select_reports ::
    "(string \<Rightarrow> bool) \<Rightarrow> string list \<Rightarrow> nat \<Rightarrow> string list \<Rightarrow> string list \<Rightarrow> report list \<Rightarrow> report list" where
  "select_reports cleanup forced n blockedProcesses blockedActions [] = []"
| "select_reports cleanup forced n blockedProcesses blockedActions (report # candidates) =
     (if cleanup (ProcessID report)
      then select_reports cleanup forced n blockedProcesses blockedActions candidates
      else if ProcessID report \<in> set blockedProcesses
      then select_reports cleanup forced n blockedProcesses blockedActions candidates
      else if ProcessID report \<in> set blockedActions \<and> Kind report \<noteq> ReportProcessTerminal
      then select_reports cleanup forced n blockedProcesses blockedActions candidates
      else if State report \<noteq> ReportPending \<and> ID report \<notin> set forced
      then (if Kind report = ReportActionTerminal \<and> State report = ReportRejected
            then select_reports cleanup forced n blockedProcesses (ProcessID report # blockedActions) candidates
            else select_reports cleanup forced n (ProcessID report # blockedProcesses) blockedActions candidates)
      else report # (if n \<le> 1 then []
                     else select_reports cleanup forced (n - 1) blockedProcesses blockedActions candidates))"

definition outboxReports :: "report_codec \<Rightarrow> string list \<Rightarrow> report list daemon" where
  "outboxReports codec forced =
     bindD (query codec DeliveryCandidates) (\<lambda>candidates w.
       (Inr (select_reports (cleanup_process (client_processes w)) forced 128 [] [] candidates), w))"

section \<open>Settling an answer\<close>

definition acknowledgeFrozenReport :: "report_codec \<Rightarrow> string \<Rightarrow> unit daemon" where
  "acknowledgeFrozenReport codec reportID = retryWhileStateDBBusy codec (OpAcknowledgeReport reportID)"

definition settleReport :: "report_codec \<Rightarrow> report_ack \<Rightarrow> report \<Rightarrow> unit daemon" where
  "settleReport codec ack report =
     (case ack_status ack of
        AckStatusCommitted \<Rightarrow> acknowledgeFrozenReport codec (ID report)
      | AckStatusCleanupOnly \<Rightarrow> acknowledgeFrozenReport codec (ID report)
      | AckStatusPermanentReject \<Rightarrow>
          retryWhileStateDBBusy codec (OpRejectReport (ID report)
            (if ack_code ack = [] then ErrorCodeValidationFailed else ack_code ack) (ack_err ack))
      | AckStatusTransientError \<Rightarrow> failD (ErrMessage ''transient report rejection'')
      | AckStatusOther _ \<Rightarrow> failD (ErrMessage ''unsupported daemon report acknowledgement''))"

text \<open>The inner loop: the forced reports that remain, whether a report was settled, and the world.\<close>

fun send_reports ::
    "report_codec \<Rightarrow> server \<Rightarrow> report list \<Rightarrow> string list \<Rightarrow> bool \<Rightarrow> world \<Rightarrow> string list \<times> bool \<times> world" where
  "send_reports codec server [] forced progress w = (forced, progress, w)"
| "send_reports codec server (report # reports) forced progress w =
     (case server report of
        Inl _ \<Rightarrow> (forced, progress, w)
      | Inr ack \<Rightarrow>
          (case settleReport codec ack report w of
             (Inl _, w') \<Rightarrow> (forced, progress, w')
           | (Inr _, w') \<Rightarrow>
               if ack_status ack = AckStatusPermanentReject then (removeAll (ID report) forced, True, w')
               else send_reports codec server reports (removeAll (ID report) forced) True w'))"

fun replayReportOutbox :: "report_codec \<Rightarrow> server list \<Rightarrow> string list \<Rightarrow> world \<Rightarrow> string list \<times> world" where
  "replayReportOutbox codec [] forced w = (forced, w)"
| "replayReportOutbox codec (server # rounds) forced w =
     (case outboxReports codec forced w of
        (Inl _, w1) \<Rightarrow>
          (case external w1 of
             (Inl _, w2) \<Rightarrow> (forced, w2)
           | (Inr _, w2) \<Rightarrow> replayReportOutbox codec rounds forced w2)
      | (Inr reports, w1) \<Rightarrow>
          if reports = [] then
            (case external w1 of
               (Inl _, w2) \<Rightarrow> (forced, w2)
             | (Inr _, w2) \<Rightarrow> replayReportOutbox codec rounds forced w2)
          else
            (case send_reports codec server reports forced False w1 of
               (forced', progress, w2) \<Rightarrow>
                 if progress then replayReportOutbox codec rounds forced' w2
                 else case external w2 of
                        (Inl _, w3) \<Rightarrow> (forced', w3)
                      | (Inr _, w3) \<Rightarrow> replayReportOutbox codec rounds forced' w3))"

section \<open>What the selection chooses\<close>

text \<open>
  A report is ready when it is pending or its renewed delivery is forced.  It is eligible when it is
  ready, its process is not being cleaned up, and every report of its process that comes before it is
  ready too; only a process's terminal report may pass a rejected action report.
\<close>

definition ready :: "string list \<Rightarrow> report \<Rightarrow> bool" where
  "ready forced r \<longleftrightarrow> State r = ReportPending \<or> ID r \<in> set forced"

definition passes :: "string list \<Rightarrow> report \<Rightarrow> report \<Rightarrow> bool" where
  "passes forced r c \<longleftrightarrow> ready forced c \<or> Kind c = ReportActionTerminal \<and> Kind r = ReportProcessTerminal"

definition eligible :: "(string \<Rightarrow> bool) \<Rightarrow> string list \<Rightarrow> report list \<Rightarrow> report \<Rightarrow> bool" where
  "eligible cleanup forced candidates r \<longleftrightarrow>
     \<not> cleanup (ProcessID r) \<and> ready forced r
   \<and> list_all (\<lambda>c. ProcessID c = ProcessID r \<and> kind_rank (Kind c) < kind_rank (Kind r) \<longrightarrow> passes forced r c) candidates"

text \<open>The order of the candidates: one report per process and rank, rising in rank within a process.\<close>

definition rank_below :: "report \<Rightarrow> report \<Rightarrow> bool" where
  "rank_below c d \<longleftrightarrow> (ProcessID c = ProcessID d \<longrightarrow> kind_rank (Kind c) < kind_rank (Kind d))"

definition known_report :: "report \<Rightarrow> bool" where
  "known_report r \<longleftrightarrow> (State r = ReportPending \<or> State r = ReportRejected)
     \<and> (Kind r = ReportProcessStarted \<or> Kind r = ReportActionTerminal \<or> Kind r = ReportProcessTerminal)"

lemma kind_rank_simps [simp]:
  "kind_rank ReportProcessStarted = 0" "kind_rank ReportActionTerminal = 1" "kind_rank ReportProcessTerminal = 2"
  by (simp_all add: kind_rank_def)

text \<open>Eligibility among the candidates \<open>c # cs\<close> from eligibility among \<open>cs\<close>.\<close>

lemma eligible_later:
  "sorted_wrt rank_below (c # cs) \<Longrightarrow> d \<in> set cs \<Longrightarrow> eligible cleanup forced (c # cs) d \<longleftrightarrow>
     eligible cleanup forced cs d \<and> (ProcessID c = ProcessID d \<longrightarrow> passes forced d c)"
  by (auto simp: eligible_def rank_below_def)

lemma eligible_head:
  "sorted_wrt rank_below (c # cs) \<Longrightarrow>
     eligible cleanup forced (c # cs) c \<longleftrightarrow> \<not> cleanup (ProcessID c) \<and> ready forced c"
  by (fastforce simp: eligible_def list_all_iff rank_below_def)

lemma eligible_filter:
  assumes "sorted_wrt rank_below (c # cs)"
    and "\<And>d. d \<in> set cs \<Longrightarrow> eligible cleanup forced cs d \<Longrightarrow>
      (ProcessID d \<notin> set bp \<and> (ProcessID c = ProcessID d \<longrightarrow> passes forced d c)) \<longleftrightarrow> ProcessID d \<notin> set bp'"
  shows "filter (\<lambda>r. ProcessID r \<notin> set bp \<and> eligible cleanup forced (c # cs) r) cs
       = filter (\<lambda>r. ProcessID r \<notin> set bp' \<and> eligible cleanup forced cs r) cs"
  using assms(2) eligible_later [OF assms(1)] by (intro filter_cong) auto

lemma select_reports_eq:
  assumes "sorted_wrt rank_below cs" "\<forall>c \<in> set cs. known_report c" "0 < n"
    and "\<forall>c \<in> set cs. ProcessID c \<in> set ba \<longrightarrow> Kind c = ReportProcessTerminal"
  shows "select_reports cleanup forced n bp ba cs =
     take n (filter (\<lambda>r. ProcessID r \<notin> set bp \<and> eligible cleanup forced cs r) cs)"
  using assms
proof (induction cs arbitrary: n bp ba)
  case (Cons c cs)
  have below: "\<forall>d \<in> set cs. ProcessID c = ProcessID d \<longrightarrow> kind_rank (Kind c) < kind_rank (Kind d)"
    and ba: "ProcessID c \<in> set ba \<Longrightarrow> Kind c = ReportProcessTerminal"
    and ba': "\<forall>c \<in> set cs. ProcessID c \<in> set ba \<longrightarrow> Kind c = ReportProcessTerminal"
    and known: "known_report c" "\<forall>c \<in> set cs. known_report c"
    using Cons.prems by (simp_all add: rank_below_def)
  note head = eligible_head [OF Cons.prems(1), of cleanup forced]
  note IH = Cons.IH [OF _ known(2) Cons.prems(3)] and filter = eligible_filter [OF Cons.prems(1)]
  let ?elig = "\<lambda>xs bp. filter (\<lambda>r. ProcessID r \<notin> set bp \<and> eligible cleanup forced xs r) cs"
  consider (skipped) "cleanup (ProcessID c) \<or> ProcessID c \<in> set bp"
    | (action) "\<not> cleanup (ProcessID c)" "ProcessID c \<notin> set bp" "\<not> ready forced c" "Kind c = ReportActionTerminal"
    | (process) "\<not> cleanup (ProcessID c)" "ProcessID c \<notin> set bp" "\<not> ready forced c" "Kind c \<noteq> ReportActionTerminal"
    | (sent) "\<not> cleanup (ProcessID c)" "ProcessID c \<notin> set bp" "ready forced c" by blast
  note cases = this
  have sorted: "sorted_wrt rank_below cs" using Cons.prems(1) by simp
  from \<open>0 < n\<close> obtain m where n: "n = Suc m" by (cases n) auto
  from cases show ?case
  proof cases
    case skipped
    have "?elig (c # cs) bp = ?elig cs bp"
      by (rule filter) (use skipped in \<open>auto simp: eligible_def\<close>)
    with skipped head IH [OF sorted ba', of bp] show ?thesis by auto
  next
    case action
    have terminal: "\<forall>d \<in> set cs. ProcessID d \<in> set (ProcessID c # ba) \<longrightarrow> Kind d = ReportProcessTerminal"
      using ba' below known(2) action(4) by (fastforce simp: known_report_def)
    have "?elig (c # cs) bp = ?elig cs bp"
      by (rule filter) (use terminal action(4) in \<open>auto simp: passes_def\<close>)
    with action head ba known(1) IH [OF sorted terminal, of bp] show ?thesis
      by (auto simp: ready_def known_report_def)
  next
    case process
    have "?elig (c # cs) bp = ?elig cs (ProcessID c # bp)"
      by (rule filter) (use process(3,4) in \<open>auto simp: passes_def\<close>)
    with process head ba IH [OF sorted ba', of "ProcessID c # bp"] show ?thesis by (auto simp: ready_def)
  next
    case sent
    have "?elig (c # cs) bp = ?elig cs bp"
      by (rule filter) (use sent(3) in \<open>auto simp: passes_def\<close>)
    moreover have "0 < m \<Longrightarrow> select_reports cleanup forced m bp ba cs = take m (?elig cs bp)"
      by (rule Cons.IH [OF sorted known(2) _ ba'])
    ultimately show ?thesis using sent head ba n by (cases "m = 0") (auto simp: ready_def)
  qed
qed simp

section \<open>The candidates of a database in order\<close>

lemma one_action:
  assumes "db_inv codec db" "a \<in> actions_of pid db" "b \<in> actions_of pid db"
  shows "a = b"
proof -
  have ok: "schema_ok db" by (rule db_invD(1) [OF assms(1)])
  have mem: "a \<in> set (process_actions db)" "b \<in> set (process_actions db)"
    and pid: "action_process_id a = pid" "action_process_id b = pid"
    using assms(2,3) by (auto simp: actions_of_def)
  obtain p where p: "p \<in> set (processes db)" "process_id p = pid"
    using schema_ok_action_process [OF ok mem(1)] pid by blast
  have "action_seq a = action_seq b"
    using db_invD(2) [OF assms(1) p] assms(2,3) by (auto simp: proc_inv_def)
  with pid have "action_key a = action_key b" by (simp add: action_key_def)
  with distinct_map_eq [OF schema_okD(6) [OF ok] mem] show ?thesis by simp
qed

lemma report_check_kind:
  "report_check r \<Longrightarrow> report_kind r \<in> {ReportProcessStarted, ReportActionTerminal, ReportProcessTerminal}"
  by (auto simp: report_check_def)

lemma one_report_per_rank:
  assumes inv: "db_inv codec db" and mem: "r \<in> set (frozen_reports db)" "s \<in> set (frozen_reports db)"
    and same: "report_process_id r = report_process_id s" "kind_rank (report_kind r) = kind_rank (report_kind s)"
  shows "r = s"
proof (rule report_slot_unique [OF db_invD(1) [OF inv] mem])
  have ok: "schema_ok db" by (rule db_invD(1) [OF inv])
  note chk = schema_okD(3) [OF ok mem(1)] schema_okD(3) [OF ok mem(2)]
  have kind: "report_kind r = report_kind s" using chk [THEN report_check_kind] same(2) by auto
  show "report_slot r = report_slot s"
  proof (cases "report_action_id r")
    case None
    with chk kind same show ?thesis by (auto simp: report_check_def report_slot_def)
  next
    case (Some i)
    with chk kind obtain j where j: "report_action_id s = Some j" by (auto simp: report_check_def)
    obtain a b where "a \<in> actions_of (report_process_id r) db" "action_id a = i"
      "b \<in> actions_of (report_process_id r) db" "action_id b = j"
      using schema_ok_report_action [OF ok mem(1) Some] schema_ok_report_action [OF ok mem(2) j] same(1)
      by (auto simp: actions_of_def)
    with one_action [OF inv] Some j show ?thesis by (auto simp: report_slot_def)
  qed
qed

lemma set_candidates:
  "set (ListFrozenReportDeliveryCandidates db) = {r \<in> set (frozen_reports db). deliverable db r}"
  by (auto simp: ListFrozenReportDeliveryCandidates_def)

lemma sorted_wrt_nth: "(\<And>i j. i < j \<Longrightarrow> j < length xs \<Longrightarrow> P (xs ! i) (xs ! j)) \<Longrightarrow> sorted_wrt P xs"
  by (simp add: sorted_wrt_iff_nth_less)

lemma candidates_sorted:
  assumes "db_inv codec db"
  shows "sorted_wrt rank_below (DeliveryCandidates db)"
  unfolding DeliveryCandidates_def sorted_wrt_map
proof (rule sorted_wrt_nth)
  let ?key = "\<lambda>r. (report_process_id r, kind_rank (report_kind r), joined_seq db r, report_id r)"
  let ?xs = "ListFrozenReportDeliveryCandidates db"
  fix i j assume ij: "i < j" "j < length ?xs"
  have "sorted (map ?key ?xs)" by (simp add: ListFrozenReportDeliveryCandidates_def)
  then have le: "?key (?xs ! i) \<le> ?key (?xs ! j)" using ij sorted_nth_mono [of "map ?key ?xs" i j] by simp
  have "distinct ?xs"
    using schema_okD(7) [OF db_invD(1) [OF assms]]
    by (auto simp: ListFrozenReportDeliveryCandidates_def distinct_map intro: distinct_filter)
  then have ne: "?xs ! i \<noteq> ?xs ! j" using ij by (simp add: nth_eq_iff_index_eq)
  have "?xs ! i \<in> set (frozen_reports db)" "?xs ! j \<in> set (frozen_reports db)"
    using ij nth_mem [of i ?xs] nth_mem [of j ?xs] by (auto simp: set_candidates)
  with one_report_per_rank [OF assms] ne le
  show "rank_below (reportFromSQLC (?xs ! i)) (reportFromSQLC (?xs ! j))"
    by (auto simp: rank_below_def reportFromSQLC_def less_eq_prod_def le_less)
qed

lemma candidates_known:
  assumes "schema_ok db"
  shows "\<forall>c \<in> set (DeliveryCandidates db). known_report c"
  using schema_okD(3) [OF assms]
  by (auto simp: DeliveryCandidates_def set_candidates known_report_def reportFromSQLC_def report_check_def
      deliverable_def)

lemma selection_eq:
  assumes "db_inv codec db"
  shows "select_reports cleanup forced 128 [] [] (DeliveryCandidates db) =
     take 128 (filter (eligible cleanup forced (DeliveryCandidates db)) (DeliveryCandidates db))"
  using select_reports_eq [OF candidates_sorted [OF assms] candidates_known [OF db_invD(1) [OF assms]], of 128 "[]"]
  by simp

section \<open>Acknowledging\<close>

definition unsettled :: "statedb \<Rightarrow> frozen_report set" where
  "unsettled db = {r \<in> set (frozen_reports db). report_state r \<noteq> ReportAcknowledged}"

definition all_reported :: "statedb \<Rightarrow> bool" where
  "all_reported db \<longleftrightarrow> (\<forall>a \<in> set (process_actions db). reported (set (frozen_reports db)) a)"

lemma update_processes_Inl: "update_processes P f db = Inl e \<Longrightarrow> e = ErrDatabase"
  by (auto simp: update_processes_def bindE_eq_Inl)

lemma unsettledD:
  assumes "db_inv codec db" "r \<in> unsettled db"
  shows "r \<in> set (frozen_reports db)" "report_state r = ReportPending \<or> report_state r = ReportRejected"
    and "GetFrozenReportByID (report_id r) db = Some r"
  using assms schema_okD(3) [OF db_invD(1) [OF assms(1)]] GetFrozenReportByID_iff [OF db_invD(1) [OF assms(1)]]
  by (auto simp: unsettled_def report_check_def)

text \<open>The server's acknowledgement of an unsettled report never fails on a database in order.\<close>

lemma acknowledge_action_succeeds:
  assumes inv: "db_inv codec db" and r: "r \<in> unsettled db" "report_action_id r = Some i"
  shows "acknowledgeActionReport (reportFromSQLC r) db = Inl e \<Longrightarrow> e = ErrDatabase"
proof -
  have ok: "schema_ok db" by (rule db_invD(1) [OF inv])
  note mem = unsettledD [OF inv r(1)]
  obtain a where a: "a \<in> set (process_actions db)" "action_id a = i" "action_process_id a = report_process_id r"
    using schema_ok_report_action [OF ok mem(1) r(2)] by blast
  obtain p where p: "p \<in> set (processes db)" "process_id p = report_process_id r"
    using schema_ok_report_process [OF ok mem(1)] by blast
  have "proc_inv p (actions_of (report_process_id r) db) (reports_of (report_process_id r) db)"
    by (rule db_invD(2) [OF inv p])
  then have seq: "action_seq a = resolved_action_seq p + 1" "action_seq a \<le> max_int64"
    using a by (auto simp: proc_inv_def actions_of_def)
  have "0 \<le> resolved_action_seq p" using schema_okD(1) [OF ok p(1)] by (simp add: process_check_def)
  with seq have "action_seq a = wrap64 (resolved_action_seq p + 1)"
    by (subst wrap64_in_range) (simp_all add: in_int64_def min_int64_def)
  moreover have "actionTx i db = Some a" "processTx (report_process_id r) db = Some p"
    using a p by (simp_all add: actionTx_def processTx_def GetProcessAction_iff [OF ok] GetProcess_iff [OF ok])
  ultimately show "acknowledgeActionReport (reportFromSQLC r) db = Inl e \<Longrightarrow> e = ErrDatabase"
    using a mem(2) r(2)
    by (auto simp: acknowledgeActionReport_def reportFromSQLC_def bindE_eq_Inl AdvanceResolvedActionSequence_def
        dest: update_processes_Inl)
qed

lemma acknowledge_succeeds:
  assumes inv: "db_inv codec db" and r: "r \<in> unsettled db"
  shows "\<exists>db'. AcknowledgeReport (report_id r) db = Inr db'"
proof (cases "AcknowledgeReport (report_id r) db")
  case (Inl e)
  note mem = unsettledD [OF inv r]
  have chk: "report_check r" by (rule schema_okD(3) [OF db_invD(1) [OF inv] mem(1)])
  have "e = ErrDatabase"
  proof (cases "report_kind r = ReportActionTerminal")
    case True
    with chk obtain i where "report_action_id r = Some i" by (auto simp: report_check_def)
    moreover have "acknowledgeActionReport (reportFromSQLC r) db = Inl e"
      using Inl mem(3) True by (simp add: AcknowledgeReport_def reportFromSQLC_def Let_def)
    ultimately show ?thesis using acknowledge_action_succeeds [OF inv r] by blast
  next
    case False
    with report_check_kind [OF chk] have "acknowledgeProcessReport (reportFromSQLC r) db = Inl e"
      using Inl mem(3) by (auto simp: AcknowledgeReport_def reportFromSQLC_def Let_def)
    with mem(2) show ?thesis
      by (auto simp: acknowledgeProcessReport_def reportFromSQLC_def bindE_eq_Inl AcknowledgeProcessReport_def
          update_reports_def MarkTerminalProcessServerReleased_def split: if_splits dest: update_processes_Inl)
  qed
  with Inl AcknowledgeReport_no_error [OF db_invD(1) [OF inv]] show ?thesis by simp
qed simp

lemma acknowledge_settles:
  assumes inv: "db_inv codec db" and r: "r \<in> unsettled db" and ack: "AcknowledgeReport (report_id r) db = Inr db'"
  shows "unsettled db' = unsettled db - {r}" "all_reported db \<Longrightarrow> all_reported db'"
proof -
  have ok: "schema_ok db" by (rule db_invD(1) [OF inv])
  note mem = unsettledD [OF inv r]
  have uniq: "q = r" if "q \<in> set (frozen_reports db)" "report_id q = report_id r" for q
    using that mem(1) by (auto intro: report_unique [OF ok])
  have "unsettled db' = unsettled db - {r} \<and> (all_reported db \<longrightarrow> all_reported db')"
    using ok ack
  proof (cases rule: AcknowledgeReportE)
    case (action q a p)
    have "q = r" using action(1,2) uniq by blast
    have gone: "report_action_id s = Some (action_id a) \<longleftrightarrow> s = r" if "s \<in> set (frozen_reports db)" for s
      using report_slot_unique [OF ok that mem(1)] action(3) \<open>q = r\<close> by (auto simp: report_slot_def)
    have reports: "set (frozen_reports db') = set (frozen_reports db) - {r}"
      using action(4,5) gone \<open>q = r\<close> by (auto simp: action(9) resolve_def reports_delete_actions)
    have "set (process_actions db') = set (process_actions db) - {a}"
      using action(4,5) by (auto simp: action(9) resolve_def intro: action_unique [OF ok])
    moreover have "action_id b \<noteq> action_id a" if "b \<in> set (process_actions db) - {a}" for b
      using that action(4) by (auto dest: action_unique [OF ok])
    ultimately have "all_reported db \<longrightarrow> all_reported db'"
      using reports gone [OF mem(1)] by (fastforce simp: all_reported_def reported_def)
    with reports show ?thesis by (auto simp: unsettled_def)
  next
    case (process q db1 p)
    have ne: "acknowledged s \<noteq> r" for s using r by (auto simp: unsettled_def acknowledged_def)
    have state: "report_state (acknowledged r) = ReportAcknowledged" by (simp add: acknowledged_def)
    have "q = r" using process(1,2) uniq by blast
    then have "db1 = settle (report_id r) acknowledged db" using process(7) r by (auto simp: unsettled_def)
    moreover have image: "(\<lambda>q. if report_id q = report_id r then acknowledged q else q) ` set (frozen_reports db)
        = insert (acknowledged r) (set (frozen_reports db) - {r})"
      using mem(1) uniq ne by (auto split: if_splits intro: rev_image_eqI)
    ultimately have reports: "set (frozen_reports db') = insert (acknowledged r) (set (frozen_reports db) - {r})"
      and actions: "process_actions db' = process_actions db"
      using process(9) image by (auto simp: set_settle released_def)
    have "report_action_id (acknowledged r) = report_action_id r" by (simp add: acknowledged_def)
    with reports actions mem(1) ne state show ?thesis
      by (auto simp: unsettled_def all_reported_def reported_def)
  qed
  then show "unsettled db' = unsettled db - {r}" "all_reported db \<Longrightarrow> all_reported db'" by auto
qed

section \<open>The outbox drains\<close>

text \<open>A server that takes every report.\<close>

definition accepting :: "server \<Rightarrow> bool" where
  "accepting server \<longleftrightarrow>
     (\<forall>r. \<exists>ack. server r = Inr ack \<and> (ack_status ack = AckStatusCommitted \<or> ack_status ack = AckStatusCleanupOnly))"

text \<open>What a drained report leaves: the invariant, the rest of the work, and processes that moved forward.\<close>

definition drains :: "report_codec \<Rightarrow> statedb \<Rightarrow> frozen_report set \<Rightarrow> statedb \<Rightarrow> bool" where
  "drains codec db Rs db' \<longleftrightarrow>
     (db_inv codec db \<longrightarrow> db_inv codec db') \<and> unsettled db' = unsettled db - Rs
   \<and> (all_reported db \<longrightarrow> all_reported db') \<and> (\<forall>pid. advances pid db db')
   \<and> process_id ` set (processes db') = process_id ` set (processes db)"

lemma touch_process_ids:
  assumes "\<And>q. process_id (f q) = process_id q"
  shows "process_id ` set (update_where (owned pid sid) f ps) = process_id ` set ps"
proof -
  have "map process_id (update_where (owned pid sid) f ps) = map process_id ps"
    using assms by (auto simp: update_where_def)
  then show ?thesis by (metis set_map)
qed

lemma acknowledge_process_ids:
  assumes "schema_ok db" "AcknowledgeReport rid db = Inr db'"
  shows "process_id ` set (processes db') = process_id ` set (processes db)"
  using assms
proof (cases rule: AcknowledgeReportE)
  case (action r a p)
  then show ?thesis by (simp add: resolve_def frontier_def touch_process_ids)
next
  case (process r db1 p)
  from process(7,9) show ?thesis by (auto simp: released_def touch_process_ids)
qed

lemma drains_trans: "drains codec a Rs b \<Longrightarrow> drains codec b Qs c \<Longrightarrow> drains codec a (Rs \<union> Qs) c"
  unfolding drains_def by (auto intro: advances_trans)

lemma send_one:
  assumes "db_inv codec (store w)" "calm w" "accepting server" "r \<in> unsettled (store w)"
  obtains ack db' where "server (reportFromSQLC r) = Inr ack" "ack_status ack \<noteq> AckStatusPermanentReject"
    "settleReport codec ack (reportFromSQLC r) w = (Inr (), w\<lparr>store := db'\<rparr>)" "drains codec (store w) {r} db'"
proof -
  from assms(3) obtain ack where ack: "server (reportFromSQLC r) = Inr ack"
    "ack_status ack = AckStatusCommitted \<or> ack_status ack = AckStatusCleanupOnly"
    unfolding accepting_def by blast
  obtain db' where db': "AcknowledgeReport (report_id r) (store w) = Inr db'"
    using acknowledge_succeeds [OF assms(1,4)] by blast
  have "ID (reportFromSQLC r) = report_id r" by (simp add: reportFromSQLC_def)
  then have settled: "settleReport codec ack (reportFromSQLC r) w = (Inr (), w\<lparr>store := db'\<rparr>)"
    using ack(2) db' assms(2) by (auto simp: settleReport_def acknowledgeFrozenReport_def intro!: retry_calm)
  have "drains codec (store w) {r} db'"
    using acknowledge_settles [OF assms(1,4) db'] AcknowledgeReport_advances [OF assms(1) db']
      AcknowledgeReport_inv [OF assms(1) db'] acknowledge_process_ids [OF db_invD(1) [OF assms(1)] db']
    by (simp add: drains_def)
  with ack settled show thesis by (intro that) auto
qed

lemma send_all:
  assumes "accepting server"
  shows "db_inv codec (store w) \<Longrightarrow> calm w \<Longrightarrow> set rs \<subseteq> unsettled (store w) \<Longrightarrow> distinct rs \<Longrightarrow>
    \<exists>db'. send_reports codec server (map reportFromSQLC rs) forced progress w =
        (filter (\<lambda>i. i \<notin> report_id ` set rs) forced, progress \<or> rs \<noteq> [], w\<lparr>store := db'\<rparr>)
      \<and> drains codec (store w) (set rs) db'"
proof (induction rs arbitrary: forced progress w)
  case Nil
  show ?case by (cases w) (auto simp: drains_def)
next
  case (Cons r rs)
  obtain ack db1 where a: "server (reportFromSQLC r) = Inr ack" "ack_status ack \<noteq> AckStatusPermanentReject"
    "settleReport codec ack (reportFromSQLC r) w = (Inr (), w\<lparr>store := db1\<rparr>)" "drains codec (store w) {r} db1"
    using send_one [OF Cons.prems(1,2) assms] Cons.prems(3) by (metis list.set_intros(1) subsetD)
  let ?w1 = "w\<lparr>store := db1\<rparr>"
  have "set rs \<subseteq> unsettled (store ?w1)" "db_inv codec (store ?w1)"
    using Cons.prems a(4) by (auto simp: drains_def)
  then obtain db' where IH: "send_reports codec server (map reportFromSQLC rs) (removeAll (report_id r) forced) True ?w1 =
        (filter (\<lambda>i. i \<notin> report_id ` set rs) (removeAll (report_id r) forced), True, ?w1\<lparr>store := db'\<rparr>)"
      "drains codec db1 (set rs) db'"
    using Cons.IH [of ?w1 "removeAll (report_id r) forced" True] Cons.prems(2,4) by auto
  have "drains codec (store w) (set (r # rs)) db'" using drains_trans [OF a(4) IH(2)] by simp
  moreover have "ID (reportFromSQLC r) = report_id r" by (simp add: reportFromSQLC_def)
  moreover have "filter (\<lambda>i. i \<notin> report_id ` set rs) (removeAll (report_id r) forced)
      = filter (\<lambda>i. i \<notin> report_id ` set (r # rs)) forced"
    by (induction forced) auto
  ultimately show ?case using a(1-3) IH(1) by auto
qed

text \<open>The outbox can send every unsettled report: it is pending or forced, and its process is not being cleaned up.\<close>

definition sendable :: "string list \<Rightarrow> world \<Rightarrow> bool" where
  "sendable forced w \<longleftrightarrow> (\<forall>r \<in> unsettled (store w).
     (report_state r = ReportPending \<or> report_id r \<in> set forced)
   \<and> \<not> cleanup_process (client_processes w) (report_process_id r))"

lemma candidates_unsettled:
  "schema_ok db \<Longrightarrow> set (ListFrozenReportDeliveryCandidates db) = {r \<in> unsettled db. deliverable db r}"
  using schema_okD(3) by (fastforce simp: set_candidates unsettled_def deliverable_def report_check_def)

lemma candidates_exist:
  assumes inv: "db_inv codec db" and "all_reported db" "unsettled db \<noteq> {}"
  shows "ListFrozenReportDeliveryCandidates db \<noteq> []"
proof -
  have ok: "schema_ok db" by (rule db_invD(1) [OF inv])
  have other: "r \<in> set (ListFrozenReportDeliveryCandidates db)"
    if "r \<in> unsettled db" "report_kind r \<noteq> ReportProcessTerminal" for r
    using that unsettledD(2) [OF inv that(1)] by (auto simp: candidates_unsettled [OF ok] deliverable_def)
  from assms(3) obtain r where r: "r \<in> unsettled db" by blast
  show ?thesis
  proof (cases "deliverable db r")
    case True
    with r have "r \<in> set (ListFrozenReportDeliveryCandidates db)" by (simp add: candidates_unsettled [OF ok])
    then show ?thesis by auto
  next
    case False
    then obtain a where a: "a \<in> set (process_actions db)" "\<not> action_rejected db a"
      using unsettledD(2) [OF inv r] by (auto simp: deliverable_def list_ex_iff)
    then obtain q where q: "q \<in> set (frozen_reports db)" "report_action_id q = Some (action_id a)"
      using assms(2) by (auto simp: all_reported_def reported_def)
    then have "q \<in> unsettled db" "report_kind q \<noteq> ReportProcessTerminal"
      using schema_okD(3) [OF ok q(1)] by (auto simp: unsettled_def report_check_def)
    with other have "q \<in> set (ListFrozenReportDeliveryCandidates db)" by blast
    then show ?thesis by auto
  qed
qed

lemma outbox_calm:
  assumes inv: "db_inv codec (store w)" and "calm w" "sendable forced w"
  shows "outboxReports codec forced w =
     (Inr (map reportFromSQLC (take 128 (ListFrozenReportDeliveryCandidates (store w)))), w)"
proof -
  let ?cs = "DeliveryCandidates (store w)" and ?cleanup = "cleanup_process (client_processes w)"
  have "ready forced c \<and> \<not> ?cleanup (ProcessID c)" if "c \<in> set ?cs" for c
    using that assms(3) candidates_unsettled [OF db_invD(1) [OF inv]]
    by (fastforce simp: DeliveryCandidates_def sendable_def ready_def reportFromSQLC_def)
  then have "\<forall>c \<in> set ?cs. eligible ?cleanup forced ?cs c"
    by (auto simp: eligible_def passes_def list_all_iff)
  then have "filter (eligible ?cleanup forced ?cs) ?cs = ?cs" by (simp add: filter_id_conv)
  with selection_eq [OF inv, of ?cleanup forced] show ?thesis
    by (simp add: outboxReports_def query_calm [OF assms(2)] DeliveryCandidates_def take_map)
qed

lemma replay_round:
  assumes inv: "db_inv codec (store w)" and calm: "calm w" and all: "all_reported (store w)"
    and sendable: "sendable forced w" and server: "accepting server" and "unsettled (store w) \<noteq> {}"
  obtains forced' db' rs where "replayReportOutbox codec (server # rounds) forced w =
       replayReportOutbox codec rounds forced' (w\<lparr>store := db'\<rparr>)"
    "drains codec (store w) rs db'" "rs \<noteq> {}" "rs \<subseteq> unsettled (store w)" "sendable forced' (w\<lparr>store := db'\<rparr>)"
proof -
  let ?rs = "take 128 (ListFrozenReportDeliveryCandidates (store w))"
  have ok: "schema_ok (store w)" by (rule db_invD(1) [OF inv])
  have rs: "set ?rs \<subseteq> unsettled (store w)"
    using set_take_subset [of 128 "ListFrozenReportDeliveryCandidates (store w)"] candidates_unsettled [OF ok] by auto
  have "distinct ?rs"
    using schema_okD(7) [OF ok] by (auto simp: ListFrozenReportDeliveryCandidates_def distinct_map)
  then obtain db' where sent: "send_reports codec server (map reportFromSQLC ?rs) forced False w =
        (filter (\<lambda>i. i \<notin> report_id ` set ?rs) forced, ?rs \<noteq> [], w\<lparr>store := db'\<rparr>)"
      "drains codec (store w) (set ?rs) db'"
    using send_all [OF server inv calm rs, of forced False] by auto
  have ne: "?rs \<noteq> []" using candidates_exist [OF inv all assms(6)] by simp
  have "report_id r \<notin> report_id ` set ?rs" if "r \<in> unsettled (store w) - set ?rs" for r
    using that rs by (auto simp: unsettled_def dest: report_unique [OF ok])
  then have "sendable (filter (\<lambda>i. i \<notin> report_id ` set ?rs) forced) (w\<lparr>store := db'\<rparr>)"
    using sendable sent(2) by (auto simp: sendable_def drains_def)
  moreover have "replayReportOutbox codec (server # rounds) forced w =
       replayReportOutbox codec rounds (filter (\<lambda>i. i \<notin> report_id ` set ?rs) forced) (w\<lparr>store := db'\<rparr>)"
    using ne outbox_calm [OF inv calm sendable] sent(1) by simp
  ultimately show thesis using sent(2) ne rs by (intro that [of _ db' "set ?rs"]) auto
qed

lemma replay_settled:
  assumes "db_inv codec (store w)" "calm w" "unsettled (store w) = {}"
  shows "snd (replayReportOutbox codec rounds forced w) = w"
proof (induction rounds)
  case (Cons server rounds)
  have "ListFrozenReportDeliveryCandidates (store w) = []"
    using candidates_unsettled [OF db_invD(1) [OF assms(1)]] assms(3) by simp
  moreover have "sendable forced w" using assms(3) by (simp add: sendable_def)
  ultimately have "outboxReports codec forced w = (Inr [], w)" using outbox_calm [OF assms(1,2)] by simp
  with Cons show ?case by (simp add: external_calm [OF assms(2)])
qed simp

lemma finite_unsettled [simp]: "finite (unsettled db)"
  by (simp add: unsettled_def)

lemma outbox_drained:
  assumes "db_inv codec (store w)" "calm w" "all_reported (store w)" "sendable forced w"
    and "list_all accepting rounds" "card (unsettled (store w)) \<le> length rounds"
  shows "\<exists>db'. snd (replayReportOutbox codec rounds forced w) = w\<lparr>store := db'\<rparr>
     \<and> drains codec (store w) (unsettled (store w)) db'"
  using assms
proof (induction rounds arbitrary: forced w)
  case Nil
  then have "unsettled (store w) = {}" by simp
  then show ?case by (cases w) (auto simp: drains_def)
next
  case (Cons server rounds)
  show ?case
  proof (cases "unsettled (store w) = {}")
    case True
    with replay_settled [OF Cons.prems(1,2)] have "snd (replayReportOutbox codec (server # rounds) forced w) = w" by blast
    moreover have "w = w\<lparr>store := store w\<rparr>" by simp
    ultimately show ?thesis using True by (auto simp: drains_def intro!: exI [of _ "store w"])
  next
    case False
    have server: "accepting server" and rounds: "list_all accepting rounds" using Cons.prems(5) by simp_all
    obtain forced' db1 rs where r: "replayReportOutbox codec (server # rounds) forced w =
         replayReportOutbox codec rounds forced' (w\<lparr>store := db1\<rparr>)"
      "drains codec (store w) rs db1" "rs \<noteq> {}" "rs \<subseteq> unsettled (store w)" "sendable forced' (w\<lparr>store := db1\<rparr>)"
      by (rule replay_round [OF Cons.prems(1-4) server False])
    have left: "unsettled db1 = unsettled (store w) - rs" "db_inv codec db1" "all_reported db1"
      using r(2) Cons.prems(1,3) by (simp_all add: drains_def)
    have "card (unsettled db1) < card (unsettled (store w))"
      unfolding left(1) using r(3,4) by (intro psubset_card_mono) auto
    with Cons.prems(2,6) left rounds r(5) Cons.IH [of "w\<lparr>store := db1\<rparr>" forced'] obtain db' where
      "snd (replayReportOutbox codec rounds forced' (w\<lparr>store := db1\<rparr>)) = w\<lparr>store := db'\<rparr>"
      "drains codec db1 (unsettled db1) db'" by auto
    moreover have "rs \<union> unsettled db1 = unsettled (store w)" using left(1) r(4) by auto
    ultimately show ?thesis unfolding r(1) using drains_trans [OF r(2), of "unsettled db1" db'] by auto
  qed
qed

section \<open>Under faults and interference\<close>

lemma traced_settleReport: "traced codec (settleReport codec ack report)"
  by (auto simp: settleReport_def acknowledgeFrozenReport_def split: ack_status.split intro: traced_retry)

lemma traced_outboxReports: "traced codec (outboxReports codec forced)"
  unfolding outboxReports_def by (rule traced_bindD [OF traced_query]) (auto simp: traced_def follows_refl)

lemma send_follows: "world_ok w \<Longrightarrow> follows codec w (snd (snd (send_reports codec server rs forced progress w)))"
proof (induction rs arbitrary: forced progress w)
  case (Cons r rs)
  show ?case
  proof (cases "server r")
    case (Inr ack)
    obtain res w1 where s: "settleReport codec ack r w = (res, w1)" by force
    have f: "follows codec w w1" by (rule tracedD [OF traced_settleReport Cons.prems s])
    show ?thesis
      using f follows_trans [OF f Cons.IH [OF follows_ok [OF f]]]
      by (cases res) (simp_all add: Inr s)
  qed (simp add: follows_refl [OF Cons.prems])
qed (simp add: follows_refl)

lemma replay_follows: "world_ok w \<Longrightarrow> follows codec w (snd (replayReportOutbox codec rounds forced w))"
proof (induction rounds arbitrary: forced w)
  case (Cons server rounds)
  have pause: "follows codec v (snd (case external v of (Inl _, v') \<Rightarrow> (f, v')
      | (Inr _, v') \<Rightarrow> replayReportOutbox codec rounds f v'))" if v: "world_ok v" for v f
  proof -
    obtain res v' where x: "external v = (res, v')" by force
    have f: "follows codec v v'" by (rule tracedD [OF traced_external v x])
    show ?thesis using f follows_trans [OF f Cons.IH [OF follows_ok [OF f]]] by (cases res) (simp_all add: x)
  qed
  obtain res w1 where o: "outboxReports codec forced w = (res, w1)" by force
  have f: "follows codec w w1" by (rule tracedD [OF traced_outboxReports Cons.prems o])
  note f' = follows_trans [OF f pause [OF follows_ok [OF f]]]
  show ?case
  proof (cases res)
    case (Inl e)
    with f' show ?thesis by (simp add: o)
  next
    case (Inr reports)
    obtain forced' progress w2 where s: "send_reports codec server reports forced False w1 = (forced', progress, w2)"
      by (metis prod_cases3)
    have g: "follows codec w w2"
      using send_follows [OF follows_ok [OF f], of codec server reports forced False] s follows_trans [OF f] by simp
    show ?thesis
      using f' s follows_trans [OF g Cons.IH [OF follows_ok [OF g]]] follows_trans [OF g pause [OF follows_ok [OF g]]]
      by (simp add: o Inr)
  qed
qed (simp add: follows_refl)

end
