(* ===== verification/Daemon_Recovery.thy ===== *)
theory Daemon_Recovery
  imports Daemon_Outbox
begin

text \<open>
  What the machine daemon does with a process whose supervisor is gone
  (\<open>src/internal/machinedaemon/reconciliation.go\<close>) and how it removes a process the server has
  released (\<open>finalizeReleasedProcesses\<close> of \<open>report_outbox.go\<close>): missing evidence is frozen as
  unknown, containment is closed, the process is closed locally, and its rows and files go once every
  report is settled.

  \<open>daemon_env\<close> holds what the functions get from outside: the JSON encoding of an event and of a
  terminal result, the decoding the store uses, and the output that is on disk for a process.
  A function that returns \<open>(bool, error)\<close> returns the pair.
\<close>

section \<open>Reports of a recovered process\<close>

record process_output =
  out_text :: string
  out_cursor :: int
  out_next :: int
  out_truncated :: bool

record daemon_env =
  env_codec :: report_codec
  marshal_event :: "reported_event \<Rightarrow> bytes option"
  marshal_result :: "process_state \<Rightarrow> process_output \<Rightarrow> string \<Rightarrow> bytes option"
  process_output_of :: "string \<Rightarrow> process_output"

definition empty_event :: reported_event where
  "empty_event =
     \<lparr>event_type = EventOther [], event_process_id = [], event_process_action_id = [],
      event_state = ProcessStateOther [], event_exit_code = None, event_exit_signal = [],
      event_state_reason_code = [], event_state_reason_message = [], event_result = [],
      event_started_at = 0, event_ended_at = 0, event_observed_at = 0\<rparr>"

definition marshalD :: "bytes option \<Rightarrow> bytes daemon" where
  "marshalD b = (case b of None \<Rightarrow> failD (ErrMessage ''json'') | Some body \<Rightarrow> returnD body)"

definition unknown_action_event :: "string \<Rightarrow> string \<Rightarrow> reported_event" where
  "unknown_action_event processID actionID =
     empty_event\<lparr>event_type := EventProcessActionUnknown, event_process_id := processID,
       event_process_action_id := actionID, event_state_reason_code := ''action_outcome_unknown'',
       event_state_reason_message := ''the action crossed its effect boundary without recoverable result evidence''\<rparr>"

definition unknownActionRecoveryReport :: "daemon_env \<Rightarrow> string \<Rightarrow> string \<Rightarrow> report daemon" where
  "unknownActionRecoveryReport env processID actionID =
     bindD (marshalD (marshal_event env (unknown_action_event processID actionID))) (\<lambda>body.
       returnD (empty_report\<lparr>ProcessID := processID, ActionID := actionID, Kind := ReportActionTerminal, Body := body\<rparr>))"

definition no_output :: process_output where
  "no_output = \<lparr>out_text = [], out_cursor = 0, out_next = 0, out_truncated = False\<rparr>"

definition terminal_event :: "string \<Rightarrow> process_state \<Rightarrow> string \<Rightarrow> string \<Rightarrow> bytes \<Rightarrow> reported_event" where
  "terminal_event processID state reason message result =
     empty_event\<lparr>event_type := EventProcessFinished, event_process_id := processID, event_state := state,
       event_state_reason_code := reason, event_state_reason_message := message, event_result := result\<rparr>"

text \<open>
  The output is read only when execution was committed, from the process's directory: the machine
  store, the directory's path, opening it and reading it are calls that may fail, the last two with
  a report that says so.
\<close>

definition stopped_output :: "daemon_env \<Rightarrow> process \<Rightarrow> (string \<times> string \<times> process_output) daemon" where
  "stopped_output env process =
     bindD external (\<lambda>_. bindD external (\<lambda>_.
       bindD (tryD (bindD external (\<lambda>_. external))) (\<lambda>res.
         returnD (case res of
             Inr _ \<Rightarrow> (''local_process_unrecoverable'', ''the accepted process no longer has a live supervisor'',
                       process_output_of env (process_id process))
           | Inl _ \<Rightarrow> (''local_process_and_output_unrecoverable'',
                       ''the accepted process no longer has a live supervisor and its durable output could not be recovered'',
                       no_output\<lparr>out_truncated := True\<rparr>)))))"

definition stoppedProcessTerminalReport :: "daemon_env \<Rightarrow> process \<Rightarrow> report daemon" where
  "stoppedProcessTerminalReport env process =
     bindD (if exec_committed process then stopped_output env process
            else returnD (''execution_not_started'', ''the process grant closed before execution was committed'', no_output))
       (\<lambda>(reason, message, output).
         let state = (if exec_committed process then ProcessStateUnknown else ProcessStateFailed) in
         bindD (marshalD (marshal_result env state output message)) (\<lambda>result.
         bindD (marshalD (marshal_event env (terminal_event (process_id process) state reason message result))) (\<lambda>body.
           returnD (empty_report\<lparr>ProcessID := process_id process, Kind := ReportProcessTerminal, Body := body\<rparr>))))"

section \<open>Files\<close>

definition removeProcessArtifacts :: "string \<Rightarrow> bool \<Rightarrow> unit daemon" where
  "removeProcessArtifacts supervisorInstanceID removeOutput =
     forD ([''machine store'', ''process directory''] @ (if removeOutput then [''remove directory''] else [])
         @ [''endpoint path'', ''clean endpoint''] @ (if supervisorInstanceID \<noteq> [] then [''identity''] else [])
         @ (if removeOutput then [''sync''] else []))
       (\<lambda>_. external)"

definition removeProcessRuntimeArtifacts :: "string \<Rightarrow> bool \<Rightarrow> unit daemon" where
  "removeProcessRuntimeArtifacts supervisorInstanceID removeOutput =
     bindD external (\<lambda>_. bindD external (\<lambda>_.
       bindD (tryD external) (\<lambda>lock.
         bindD (case lock of
                  Inr _ \<Rightarrow> returnD True
                | Inl e \<Rightarrow> if is_err e ErrNotExist then returnD False else failD e)
           (\<lambda>held. bindD (removeProcessArtifacts supervisorInstanceID removeOutput)
              (\<lambda>_. if held then external else returnD ())))))"

section \<open>Closing a preparation that was rejected\<close>

definition joinErr :: "daemon_error option \<Rightarrow> daemon_error \<Rightarrow> daemon_error" where
  "joinErr closeErr e = (case closeErr of None \<Rightarrow> e | Some c \<Rightarrow> Joined c e)"

definition joinErrs :: "(daemon_error + unit) \<Rightarrow> (daemon_error + unit) \<Rightarrow> daemon_error option" where
  "joinErrs a b =
     (case a of
        Inl e \<Rightarrow> Some (case b of Inl e' \<Rightarrow> Joined e e' | Inr _ \<Rightarrow> e)
      | Inr _ \<Rightarrow> (case b of Inl e' \<Rightarrow> Some e' | Inr _ \<Rightarrow> None))"

text \<open>\<open>if err != nil { return pending, errors.Join(closeErr, err) }\<close>.\<close>

definition orElse ::
    "(daemon_error \<Rightarrow> bool) \<Rightarrow> daemon_error option \<Rightarrow> 'a daemon \<Rightarrow> ('a \<Rightarrow> (bool \<times> daemon_error option) daemon)
       \<Rightarrow> (bool \<times> daemon_error option) daemon" where
  "orElse pending closeErr m f =
     bindD (tryD m) (\<lambda>res. case res of
        Inl e \<Rightarrow> returnD (pending e, Some (joinErr closeErr e))
      | Inr x \<Rightarrow> f x)"

text \<open>\<open>TryAcquireExistingLock\<close>, and \<open>TryAcquireLock\<close> when there is no lock file.\<close>

definition acquireLock :: "unit daemon" where
  "acquireLock =
     bindD (tryD external) (\<lambda>res. case res of
        Inr _ \<Rightarrow> returnD ()
      | Inl e \<Rightarrow> if is_err e ErrNotExist then external else failD e)"

lemma external_replies: "external w = (res, w') \<Longrightarrow> length (replies w') \<le> length (replies w)"
  by (auto simp: external_def split: list.splits)

lemma external_error: "external w = (Inl e, w') \<Longrightarrow> length (replies w') < length (replies w)"
  by (auto simp: external_def split: list.splits option.splits)

lemma acquireLock_error: "acquireLock w = (Inl e, w') \<Longrightarrow> length (replies w') < length (replies w)"
  by (auto simp: acquireLock_def tryD_def failD_def returnD_def split: prod.splits sum.splits if_splits
      dest!: external_error)

text \<open>
  The loop that waits for the supervisor to let go of its lock.  Every turn it does not get the lock
  uses up a reply, so it ends; \<open>Inr\<close> is the lock, \<open>Inl\<close> what the caller returns.
\<close>

function waitForLock ::
    "daemon_error option \<Rightarrow> world \<Rightarrow> ((bool \<times> daemon_error option) + unit) \<times> world" where
  "waitForLock closeErr w =
     (case acquireLock w of
        (Inr _, w1) \<Rightarrow> (Inr (), w1)
      | (Inl e, w1) \<Rightarrow>
          if \<not> is_err e ErrLockHeld
          then (Inl (closeErr = None \<and> isStorageExhaustion e, Some (joinErr closeErr e)), w1)
          else case external w1 of
                 (Inl e', w2) \<Rightarrow> (Inl (closeErr = None, Some (joinErr closeErr e')), w2)
               | (Inr _, w2) \<Rightarrow> waitForLock closeErr w2)"
  by pat_completeness auto

termination
  by (relation "measure (\<lambda>(c, w). length (replies w))")
    (auto dest!: acquireLock_error [OF sym] external_replies [OF sym])

declare waitForLock.simps [simp del]

definition permanent :: "daemon_error \<Rightarrow> bool" where
  "permanent e \<longleftrightarrow> is_err e (StateError ErrSupervisorIdentityMismatch) \<or> is_err e (StateError ErrStateConflict)"

text \<open>The part of \<open>closeRejectedPreparation\<close> that runs with the lock held.\<close>

definition deleteRejected ::
    "daemon_env \<Rightarrow> string \<Rightarrow> string \<Rightarrow> daemon_error option \<Rightarrow> (bool \<times> daemon_error option) daemon" where
  "deleteRejected env processID supervisorInstanceID closeErr =
     orElse (\<lambda>_. True) closeErr (removeProcessArtifacts supervisorInstanceID True) (\<lambda>_.
     orElse (\<lambda>e. \<not> permanent e) closeErr
       (operate (env_codec env) (OpDeleteRejectedPreparation processID supervisorInstanceID)) (\<lambda>_.
     orElse (\<lambda>_. True) closeErr external (\<lambda>_. returnD (False, None))))"

definition closeLockedPreparation ::
    "daemon_env \<Rightarrow> string \<Rightarrow> string \<Rightarrow> daemon_error option \<Rightarrow> (bool \<times> daemon_error option) daemon" where
  "closeLockedPreparation env processID supervisorInstanceID closeErr =
     orElse (\<lambda>_. True) closeErr external (\<lambda>_.
     orElse (\<lambda>_. True) closeErr (query (env_codec env) (Store_Process processID)) (\<lambda>found.
       case found of
         Some process \<Rightarrow>
           if supervisor_instance_id process \<noteq> supervisorInstanceID
           then returnD (False, Some (joinErr closeErr (StateError ErrSupervisorIdentityMismatch)))
           else if exec_committed process \<or> (phase process \<noteq> ProcessPreparing \<and> phase process \<noteq> ProcessPrepared)
           then returnD (False, Some (joinErr closeErr (StateError ErrStateConflict)))
           else deleteRejected env processID supervisorInstanceID closeErr
       | None \<Rightarrow> deleteRejected env processID supervisorInstanceID closeErr))"

text \<open>The error of closing the ungranted supervisor and its reconciliation session.\<close>

definition closeUngranted :: "process_runtime option \<Rightarrow> daemon_error option daemon" where
  "closeUngranted runtime =
     (case runtime of
        None \<Rightarrow> returnD None
      | Some r \<Rightarrow>
          (case rt_runner r of
             None \<Rightarrow> returnD None
           | Some n \<Rightarrow>
               if runner_done n then returnD None
               else bindD (tryD external) (\<lambda>closed. bindD (tryD external) (\<lambda>ended. returnD (joinErrs closed ended)))))"

definition closeRejectedPreparation ::
    "daemon_env \<Rightarrow> string \<Rightarrow> string \<Rightarrow> process_runtime option \<Rightarrow> bool \<Rightarrow> (bool \<times> daemon_error option) daemon" where
  "closeRejectedPreparation env processID supervisorInstanceID runtime heldLock =
     bindD (closeUngranted runtime) (\<lambda>closeErr.
       if heldLock then closeLockedPreparation env processID supervisorInstanceID closeErr
       else
         orElse (\<lambda>_. False) closeErr external (\<lambda>_.
         orElse (\<lambda>_. False) closeErr external (\<lambda>_ w.
           case waitForLock closeErr w of
             (Inl r, w') \<Rightarrow> (Inr r, w')
           | (Inr _, w') \<Rightarrow> closeLockedPreparation env processID supervisorInstanceID closeErr w')))"

section \<open>Recovering a stopped process\<close>

text \<open>\<open>strconv.Atoi\<close>: an optional sign and decimal digits, within \<open>int64\<close>.\<close>

fun digits_value :: "string \<Rightarrow> int \<Rightarrow> int option" where
  "digits_value [] n = Some n"
| "digits_value (c # cs) n =
     (if c \<in> set ''0123456789'' then digits_value cs (10 * n + (of_char c - 48)) else None)"

definition Atoi :: "string \<Rightarrow> int option" where
  "Atoi s =
     (let (sign, ds) = (case s of
          [] \<Rightarrow> (1, [])
        | c # cs \<Rightarrow> if c = CHR ''-'' then (-1, cs) else if c = CHR ''+'' then (1, cs) else (1, s))
      in if ds = [] then None
         else case digits_value ds 0 of
                None \<Rightarrow> None
              | Some n \<Rightarrow> if in_int64 (sign * n) then Some (sign * n) else None)"

definition recoverAction :: "daemon_env \<Rightarrow> string \<Rightarrow> string \<Rightarrow> action \<Rightarrow> unit daemon" where
  "recoverAction env processID supervisorInstanceID action =
     bindD (query (env_codec env) (ReportBySlot ReportActionTerminal processID (action_id action))) (\<lambda>found.
       case found of
         Some _ \<Rightarrow> returnD ()
       | None \<Rightarrow>
           bindD (unknownActionRecoveryReport env processID (action_id action)) (\<lambda>report.
           bindD newReportID (\<lambda>rid.
             operate (env_codec env) (OpFreezeActionReport rid processID supervisorInstanceID (action_id action) report))))"

definition recoverTerminal :: "daemon_env \<Rightarrow> string \<Rightarrow> string \<Rightarrow> process \<Rightarrow> unit daemon" where
  "recoverTerminal env processID supervisorInstanceID process =
     (if phase process = ProcessTerminal then returnD ()
      else bindD (stoppedProcessTerminalReport env process) (\<lambda>report.
           bindD newReportID (\<lambda>rid.
             operate (env_codec env) (OpFreezeTerminalReport rid processID supervisorInstanceID report))))"

definition recoverContainment :: "daemon_env \<Rightarrow> string \<Rightarrow> string \<Rightarrow> process \<Rightarrow> unit daemon" where
  "recoverContainment env processID supervisorInstanceID process =
     (if containment_empty process then returnD ()
      else if \<not> exec_committed process
      then operate (env_codec env) (OpMarkContainmentEmpty processID supervisorInstanceID)
      else if containment_kind process = []
      then failD (ErrMessage ''execution was committed without a recoverable containment identity'')
      else case Atoi (containment_id process) of
             None \<Rightarrow> failD (ErrMessage ''parse recorded process containment'')
           | Some _ \<Rightarrow>
               bindD external (\<lambda>_. operate (env_codec env) (OpMarkContainmentEmpty processID supervisorInstanceID)))"

definition recoverStoppedReleasedProcess :: "daemon_env \<Rightarrow> string \<Rightarrow> string \<Rightarrow> bool \<Rightarrow> unit daemon" where
  "recoverStoppedReleasedProcess env processID supervisorInstanceID heldLock =
     bindD external (\<lambda>_.
     bindD (query (env_codec env) (Store_Process processID)) (\<lambda>found.
       case found of
         None \<Rightarrow> returnD ()
       | Some process \<Rightarrow>
           if supervisor_instance_id process \<noteq> supervisorInstanceID
           then failD (StateError ErrSupervisorIdentityMismatch)
           else if phase process = ProcessPreparing \<or> phase process = ProcessPrepared
           then bindD (closeRejectedPreparation env processID supervisorInstanceID None heldLock)
                  (\<lambda>(_, err). case err of None \<Rightarrow> returnD () | Some e \<Rightarrow> failD e)
           else
             bindD (retryWhileStateDBBusy (env_codec env) (OpCloseActionAdmission processID supervisorInstanceID)) (\<lambda>_.
             bindD (query (env_codec env) (Store_Actions processID)) (\<lambda>actions.
             bindD (forD actions (recoverAction env processID supervisorInstanceID)) (\<lambda>_.
             bindD (recoverTerminal env processID supervisorInstanceID process) (\<lambda>_.
             bindD (recoverContainment env processID supervisorInstanceID process) (\<lambda>_.
               operate (env_codec env) (OpMarkLocalClosed processID supervisorInstanceID))))))))"

section \<open>A process whose machine ran out of storage\<close>

definition terminateForCleanup :: "process_runtime \<Rightarrow> unit daemon" where
  "terminateForCleanup runtime =
     (case rt_runner runtime of
        None \<Rightarrow> returnD ()
      | Some n \<Rightarrow>
          if runner_done n then returnD ()
          else bindD (tryD external) (\<lambda>terminated. bindD (tryD external) (\<lambda>ended.
            (case joinErrs terminated ended of
               Some e \<Rightarrow> failD e
             | None \<Rightarrow> update_processes_map (\<lambda>rs. map (\<lambda>(i, r).
                   (i, if r = runtime then r\<lparr>rt_runner := None\<rparr> else r)) rs)))))"

definition removeExhausted :: "daemon_env \<Rightarrow> process_runtime \<Rightarrow> (bool \<times> daemon_error option) daemon" where
  "removeExhausted env runtime =
     bindD (tryD (bindD acquireLock (\<lambda>_.
        bindD (removeProcessArtifacts (rt_supervisor_instance_id runtime) True) (\<lambda>_.
        bindD (operate (env_codec env)
            (OpDeleteStorageExhausted (rt_process_id runtime) (rt_supervisor_instance_id runtime))) (\<lambda>_. external)))))
       (\<lambda>res. returnD (case res of
           Inr _ \<Rightarrow> (False, None)
         | Inl e \<Rightarrow> (\<not> permanent e, Some e)))"

definition closeStorageExhaustedProcess :: "daemon_env \<Rightarrow> process_runtime \<Rightarrow> (bool \<times> daemon_error option) daemon" where
  "closeStorageExhaustedProcess env runtime =
     orElse (\<lambda>_. True) None (terminateForCleanup runtime) (\<lambda>_.
     orElse (\<lambda>_. True) None external (\<lambda>_.
     orElse (\<lambda>_. True) None (query (env_codec env) (Store_Process (rt_process_id runtime))) (\<lambda>found.
       if (case found of None \<Rightarrow> False
           | Some process \<Rightarrow> supervisor_instance_id process \<noteq> rt_supervisor_instance_id runtime)
       then returnD (False, Some (StateError ErrSupervisorIdentityMismatch))
       else if (case found of None \<Rightarrow> False
                | Some process \<Rightarrow> phase process \<noteq> ProcessAccepted \<and> phase process \<noteq> ProcessTerminal)
       then returnD (False, Some (StateError ErrStateConflict))
       else
         orElse (\<lambda>_. True) None external (\<lambda>_.
         orElse (\<lambda>_. True) None external (\<lambda>_. removeExhausted env runtime)))))"

section \<open>Removing released processes\<close>

text \<open>One cleanup-only runtime, the body of the first loop of \<open>finalizeReleasedProcesses\<close>.\<close>

definition cleanupRuntime :: "daemon_env \<Rightarrow> process_runtime \<Rightarrow> unit daemon" where
  "cleanupRuntime env runtime =
     bindD (tryD (query (env_codec env) (Store_Process (rt_process_id runtime)))) (\<lambda>res.
       case res of
         Inl _ \<Rightarrow> returnD ()
       | Inr found \<Rightarrow>
           let forget = update_processes_map
                 (removeProcessInstance (rt_process_id runtime) (rt_supervisor_instance_id runtime))
           in case found of
             None \<Rightarrow>
               bindD (tryD (removeProcessRuntimeArtifacts (rt_supervisor_instance_id runtime) True)) (\<lambda>removed.
                 case removed of Inl _ \<Rightarrow> returnD () | Inr _ \<Rightarrow> forget)
           | Some process \<Rightarrow>
               bindD (if phase process = ProcessPreparing \<or> phase process = ProcessPrepared
                      then closeRejectedPreparation env (rt_process_id runtime)
                             (rt_supervisor_instance_id runtime) None False
                      else closeStorageExhaustedProcess env runtime)
                 (\<lambda>(cleanupPending, err). if cleanupPending \<or> err \<noteq> None then returnD () else forget))"

text \<open>
  Closing a released process that is still open: whether the second loop goes on with it.
\<close>

definition recoverLocked :: "daemon_env \<Rightarrow> process \<Rightarrow> bool daemon" where
  "recoverLocked env process =
     bindD external (\<lambda>_. bindD external (\<lambda>_.
     bindD (tryD external) (\<lambda>lock.
       case lock of
         Inr _ \<Rightarrow>
           bindD (tryD (recoverStoppedReleasedProcess env (process_id process) (supervisor_instance_id process) True))
             (\<lambda>recovered. bindD (tryD external) (\<lambda>released.
               case recovered of
                 Inl _ \<Rightarrow> returnD False
               | Inr _ \<Rightarrow> (case released of Inl e \<Rightarrow> failD e | Inr _ \<Rightarrow> returnD True)))
       | Inl e \<Rightarrow>
           if is_err e ErrLockHeld then returnD False
           else if is_err e ErrNotExist then returnD True
           else failD e)))"

definition closeReleased :: "daemon_env \<Rightarrow> process \<Rightarrow> bool daemon" where
  "closeReleased env process = (\<lambda>w.
     (case lookup_runtime (client_processes w) (process_id process) of
        None \<Rightarrow> recoverLocked env process w
      | Some runtime \<Rightarrow>
          if cleanupOnly runtime \<or> rt_runner runtime = None then (Inr False, w)
          else
            bindD (tryD external) (\<lambda>probe.
              case probe of
                Inr _ \<Rightarrow> returnD False
              | Inl _ \<Rightarrow>
                  bindD (update_processes_map (removeProcessInstance (process_id process) (supervisor_instance_id process)))
                    (\<lambda>_. recoverLocked env process)) w))"

definition removeSettled :: "daemon_env \<Rightarrow> string \<Rightarrow> unit daemon" where
  "removeSettled env processID =
     bindD (query (env_codec env) (Store_Process processID)) (\<lambda>found.
       case found of
         None \<Rightarrow> returnD ()
       | Some current \<Rightarrow>
           if \<not> local_closed current \<or> \<not> server_released current then returnD ()
           else
             bindD (query (env_codec env) (Store_Actions processID)) (\<lambda>actions.
               if actions \<noteq> [] then returnD ()
               else
                 bindD (query (env_codec env) (ReportsForProcess processID)) (\<lambda>reports.
                   if \<not> list_all (\<lambda>r. State r = ReportAcknowledged) reports then returnD ()
                   else
                     bindD (tryD (removeProcessRuntimeArtifacts (supervisor_instance_id current) False)) (\<lambda>released.
                       case released of
                         Inl e \<Rightarrow> if is_err e ErrLockHeld then returnD () else failD e
                       | Inr _ \<Rightarrow>
                           bindD (operate (env_codec env) (OpDeleteClosed processID (supervisor_instance_id current)))
                             (\<lambda>_. update_processes_map
                                (removeProcessInstance processID (supervisor_instance_id current)))))))"

definition finalizeReleased :: "daemon_env \<Rightarrow> process \<Rightarrow> unit daemon" where
  "finalizeReleased env process =
     (if \<not> server_released process then returnD ()
      else bindD (if local_closed process then returnD True else closeReleased env process)
        (\<lambda>go_on. if go_on then removeSettled env (process_id process) else returnD ()))"

definition finalizeReleasedProcesses :: "daemon_env \<Rightarrow> unit daemon" where
  "finalizeReleasedProcesses env =
     bindD external (\<lambda>_.
     bindD (\<lambda>w. (Inr (cleanupProcesses (client_processes w)), w)) (\<lambda>runtimes.
     bindD (forD runtimes (cleanupRuntime env)) (\<lambda>_.
     bindD (query (env_codec env) Store_Processes) (\<lambda>processes.
       forD processes (finalizeReleased env)))))"

end
