(* ===== verification/Daemon_Finalize.thy ===== *)
theory Daemon_Finalize
  imports Daemon_Recovery
begin

text \<open>
  Recovery and removal of released processes when nothing interferes: each step of
  \<open>recoverStoppedReleasedProcess\<close> succeeds on a database in order, closes the process, and leaves the
  other processes alone; a settled process is removed.
\<close>

section \<open>What recovery relies on\<close>

text \<open>
  The JSON encoding gives back what it encoded, and the output read from disk respects the limit it
  is read with.
\<close>

definition faithful_env :: "daemon_env \<Rightarrow> bool" where
  "faithful_env env \<longleftrightarrow>
     (\<forall>e b. marshal_event env e = Some b \<longrightarrow> b \<noteq> [] \<and> unmarshal_event (env_codec env) b = Some e)
   \<and> (\<forall>st out msg b. marshal_result env st out msg = Some b \<longrightarrow>
        unmarshal_observation (env_codec env) b = Some (Some (out_text out)))
   \<and> (\<forall>pid. length (out_text (process_output_of env pid)) \<le> MaxObservationBytes)"

text \<open>An event that encodes within the limits of the protocol, alone and in its envelope.\<close>

definition encodable :: "daemon_env \<Rightarrow> (nat \<Rightarrow> string) \<Rightarrow> reported_event \<Rightarrow> bool" where
  "encodable env rids e \<longleftrightarrow>
     (\<exists>b. marshal_event env e = Some b \<and> length b \<le> MaxMessageBytes)
   \<and> (\<forall>n. \<exists>m. marshal_report (env_codec env) (rids n) e = Some m \<and> length m \<le> MaxMessageBytes)"

definition final_output :: "daemon_env \<Rightarrow> process \<Rightarrow> process_state \<times> string \<times> string \<times> process_output" where
  "final_output env p =
     (if exec_committed p
      then (ProcessStateUnknown, ''local_process_unrecoverable'',
            ''the accepted process no longer has a live supervisor'', process_output_of env (process_id p))
      else (ProcessStateFailed, ''execution_not_started'',
            ''the process grant closed before execution was committed'', no_output))"

text \<open>
  A process that can be recovered: its containment is empty, was never entered, or is known, and the
  reports to freeze for it encode.
\<close>

definition recoverable :: "daemon_env \<Rightarrow> (nat \<Rightarrow> string) \<Rightarrow> statedb \<Rightarrow> process \<Rightarrow> bool" where
  "recoverable env rids db p \<longleftrightarrow>
     (containment_empty p \<or> \<not> exec_committed p \<or> containment_kind p \<noteq> [] \<and> Atoi (containment_id p) \<noteq> None)
   \<and> list_all (\<lambda>a. action_process_id a = process_id p \<longrightarrow>
        encodable env rids (unknown_action_event (process_id p) (action_id a))) (process_actions db)
   \<and> (case final_output env p of (st, reason, msg, out) \<Rightarrow>
        (case marshal_result env st out msg of
           None \<Rightarrow> False
         | Some res \<Rightarrow> encodable env rids (terminal_event (process_id p) st reason msg res)))"

definition fresh_ids :: "world \<Rightarrow> bool" where
  "fresh_ids w \<longleftrightarrow> inj (ids w) \<and> (\<forall>n. ids w n \<noteq> [])
     \<and> (\<forall>n \<ge> drawn w. \<forall>r \<in> set (frozen_reports (store w)). report_id r \<noteq> ids w n)"

section \<open>Single steps\<close>

text \<open>A step of process \<open>pid\<close> that only adds evidence.\<close>

definition pid_step :: "report_codec \<Rightarrow> string \<Rightarrow> world \<Rightarrow> world \<Rightarrow> bool" where
  "pid_step codec pid w w' \<longleftrightarrow>
     calm w' \<and> db_inv codec (store w') \<and> fresh_ids w' \<and> ids w' = ids w
   \<and> client_processes w' = client_processes w
   \<and> elsewhere_same pid (store w) (store w')
   \<and> actions_of pid (store w') = actions_of pid (store w)
   \<and> reports_of pid (store w) \<subseteq> reports_of pid (store w')"

lemma pid_step_trans: "pid_step codec pid a b \<Longrightarrow> pid_step codec pid b c \<Longrightarrow> pid_step codec pid a c"
  unfolding pid_step_def using elsewhere_trans by auto

lemma pid_step_refl: "calm w \<Longrightarrow> db_inv codec (store w) \<Longrightarrow> fresh_ids w \<Longrightarrow> pid_step codec pid w w"
  by (simp add: pid_step_def)

lemma pid_stepD:
  assumes "pid_step codec pid w w'"
  shows "calm w'" "db_inv codec (store w')" "fresh_ids w'" "ids w' = ids w"
  using assms by (simp_all add: pid_step_def)

lemma updateProcess_succeeds:
  assumes ok: "schema_ok db" and p: "p \<in> set (processes db)" "owned pid sid p" "Q p" and "lbl \<noteq> []"
    and f: "\<And>q. process_id (f q) = process_id q" "\<And>q. process_check q \<Longrightarrow> owned pid sid q \<and> Q q \<Longrightarrow> process_check (f q)"
  shows "updateProcess lbl (update_processes (\<lambda>p. owned pid sid p \<and> Q p) f) db = Inr (touch pid sid f db)"
proof -
  let ?P = "\<lambda>p. owned pid sid p \<and> Q p"
  have "count_where ?P (processes db) \<noteq> 0" using p by auto
  with count_owned_le [OF ok, of pid sid Q] have one: "count_where ?P (processes db) = 1" by linarith
  have "update_processes ?P f db = Inr (count_where ?P (processes db), db\<lparr>processes := update_where ?P f (processes db)\<rparr>)"
    by (rule update_processes_ok [OF ok]) (use f in auto)
  with one \<open>lbl \<noteq> []\<close> show ?thesis
    by (simp add: updateProcess_def touch_def update_where_guard [OF ok p(1,2), of Q, OF p(3)])
qed

text \<open>A row update that the invariant does not look at is a step.\<close>

lemma touch_step:
  assumes "calm w" "fresh_ids w" "db_inv codec (touch pid sid f (store w))" "\<And>q. process_id (f q) = process_id q"
  shows "pid_step codec pid w (w\<lparr>store := touch pid sid f (store w)\<rparr>)"
  using assms elsewhere_touch [of f pid "store w" sid] by (simp add: pid_step_def fresh_ids_def)

lemma touched_row:
  assumes "p \<in> set (processes db)" "owned pid sid p"
  shows "f p \<in> set (processes (touch pid sid f db))"
  using assms by (auto simp: set_update_where)

lemma touch_op:
  assumes "calm w" "fresh_ids w" "db_inv codec (store w)" "p \<in> set (processes (store w))" "owned pid sid p"
    and op: "perform codec q (store w) = Inr (ans, touch pid sid f (store w))" "seq_int64 q"
    and f: "\<And>q. process_id (f q) = process_id q"
  obtains w' where "operate codec q w = (Inr (), w')" "retryWhileStateDBBusy codec q w = (Inr (), w')"
    "pid_step codec pid w w'" "f p \<in> set (processes (store w'))"
proof (rule that)
  let ?w = "w\<lparr>store := touch pid sid f (store w)\<rparr>"
  show "operate codec q w = (Inr (), ?w)" using assms(1) op(1) by (simp add: operate_calm)
  show "retryWhileStateDBBusy codec q w = (Inr (), ?w)" using assms(1) op(1) by (rule retry_calm)
  have "db_inv codec (touch pid sid f (store w))" by (rule perform_db_inv [OF assms(3) op(2,1)])
  then show "pid_step codec pid w ?w" by (rule touch_step [OF assms(1,2) _ f])
  show "f p \<in> set (processes (store ?w))" using touched_row [OF assms(4,5)] by simp
qed

lemma close_admission_calm:
  assumes "calm w" "fresh_ids w" "db_inv codec (store w)" "p \<in> set (processes (store w))" "owned pid sid p"
    and "phase p = ProcessAccepted \<or> phase p = ProcessTerminal"
  obtains w' where "retryWhileStateDBBusy codec (OpCloseActionAdmission pid sid) w = (Inr (), w')"
    "pid_step codec pid w w'" "p\<lparr>action_admission_closed := True\<rparr> \<in> set (processes (store w'))"
proof -
  have "closeActionAdmission pid sid (store w) = Inr (touch pid sid (\<lambda>p. p\<lparr>action_admission_closed := True\<rparr>) (store w))"
    unfolding closeActionAdmission_def CloseProcessActionAdmission_def
    by (rule updateProcess_succeeds [OF db_invD(1) [OF assms(3)] assms(4,5)]) (use assms(6) in \<open>auto simp: process_check_def\<close>)
  then have "perform codec (OpCloseActionAdmission pid sid) (store w) =
      Inr (Done, touch pid sid (\<lambda>p. p\<lparr>action_admission_closed := True\<rparr>) (store w))" by (simp add: finished_def)
  from touch_op [OF assms(1-5) this] show thesis using that by auto
qed

lemma containment_empty_calm:
  assumes "calm w" "fresh_ids w" "db_inv codec (store w)" "p \<in> set (processes (store w))" "owned pid sid p"
    and "phase p = ProcessAccepted \<or> phase p = ProcessTerminal"
  obtains w' where "operate codec (OpMarkContainmentEmpty pid sid) w = (Inr (), w')"
    "pid_step codec pid w w'" "p\<lparr>containment_empty := True\<rparr> \<in> set (processes (store w'))"
proof -
  have "markContainmentEmpty pid sid (store w) = Inr (touch pid sid (\<lambda>p. p\<lparr>containment_empty := True\<rparr>) (store w))"
    unfolding markContainmentEmpty_def MarkProcessContainmentEmpty_def
    by (rule updateProcess_succeeds [OF db_invD(1) [OF assms(3)] assms(4,5)]) (use assms(6) in \<open>auto simp: process_check_def\<close>)
  then have "perform codec (OpMarkContainmentEmpty pid sid) (store w) =
      Inr (Done, touch pid sid (\<lambda>p. p\<lparr>containment_empty := True\<rparr>) (store w))" by (simp add: finished_def)
  from touch_op [OF assms(1-5) this] show thesis using that by auto
qed

section \<open>Freezing recovered evidence\<close>

definition recovery_report :: "report_kind \<Rightarrow> reported_event \<Rightarrow> bytes \<Rightarrow> report" where
  "recovery_report k e b =
     empty_report\<lparr>ProcessID := event_process_id e, ActionID := event_process_action_id e, Kind := k, Body := b\<rparr>"

lemma recovery_report_simps [simp]:
  "ProcessID (recovery_report k e b) = event_process_id e" "ActionID (recovery_report k e b) = event_process_action_id e"
  "Kind (recovery_report k e b) = k" "Body (recovery_report k e b) = b" "ID (recovery_report k e b) = []"
  "State (recovery_report k e b) = ReportStateOther []" "ErrorCode (recovery_report k e b) = []"
  "Error (recovery_report k e b) = []"
  by (simp_all add: recovery_report_def empty_report_def)

lemma recovery_report_valid:
  assumes "faithful_env env" "marshal_event env e = Some b" "length b \<le> MaxMessageBytes"
    and "event_process_id e \<noteq> []" "k = ReportActionTerminal \<longleftrightarrow> event_process_action_id e \<noteq> []"
    and "validateReportKind k e = Inr ()" "validateReportResult (env_codec env) (event_result e) = Inr ()"
  shows "validateReport (env_codec env) (recovery_report k e b) = Inr ()"
proof -
  have "b \<noteq> []" "unmarshal_event (env_codec env) b = Some e" using assms(1,2) by (auto simp: faithful_env_def)
  moreover have "k \<noteq> ReportKindOther []" using assms(6) by (auto simp: validateReportKind_def)
  ultimately show ?thesis
    using assms(3-7) by (auto simp: validateReport_def maxFrozenReportBytes_def)
qed

lemma recovery_freezes:
  assumes env: "faithful_env env" "encodable env rids e" "marshal_event env e = Some b" and rid: "rid = rids n"
    and "fresh_id rid db" and ok: "schema_ok db"
    and valid: "validateReport (env_codec env) (recovery_report k e b) = Inr ()"
    and slot: "reportBySlotTx k (event_process_id e) (event_process_action_id e) db = None"
    and "event_process_id e \<in> process_id ` set (processes db)"
    and "event_process_action_id e \<noteq> [] \<Longrightarrow>
       \<exists>a \<in> set (process_actions db). action_id a = event_process_action_id e \<and> action_process_id a = event_process_id e"
  shows "\<exists>res. freezeReportTx (env_codec env) rid (recovery_report k e b) db =
     Inr (res, with_report (frozen_row rid (recovery_report k e b)) db)"
proof -
  let ?q = "recovery_report k e b"
  obtain m where m: "marshal_report (env_codec env) rid e = Some m" "length m \<le> MaxMessageBytes"
    using env(2) rid by (auto simp: encodable_def)
  have "unmarshal_event (env_codec env) b = Some e" using env(1,3) by (auto simp: faithful_env_def)
  with m have wire: "validateReportWireEnvelope (env_codec env) (?q\<lparr>ID := rid, State := ReportPending\<rparr>) = Inr ()"
    by (simp add: validateReportWireEnvelope_def)
  have "freezeReportTx (env_codec env) rid ?q db \<noteq> Inl ErrDatabase"
    using assms(9,10) by (intro freezeReportTx_no_error [OF ok assms(5)]) simp_all
  with valid slot wire show ?thesis
    by (auto simp: freezeReportTx_def Let_def InsertFrozenReport_def checked_def with_report_def frozen_row_def
        split: if_splits)
qed

text \<open>A world in which one report more is frozen under a drawn identifier.\<close>

definition froze :: "report \<Rightarrow> world \<Rightarrow> world" where
  "froze q w = w\<lparr>drawn := Suc (drawn w), store := with_report (frozen_row (ids w (drawn w)) q) (store w)\<rparr>"

lemma fresh_drawn: "fresh_ids w \<Longrightarrow> fresh_id (ids w (drawn w)) (store w)"
  unfolding fresh_ids_def fresh_id_def by (metis imageE order_refl)

lemma froze_fresh: "fresh_ids w \<Longrightarrow> fresh_ids (froze q w)"
  by (auto simp: fresh_ids_def froze_def dest: injD)

lemma froze_step:
  assumes "calm w" "fresh_ids w" "db_inv codec (store (froze q w))" "ProcessID q = pid"
  shows "pid_step codec pid w (froze q w)"
  using assms froze_fresh [OF assms(2), of q] elsewhere_with_report [of "frozen_row (ids w (drawn w)) q" pid "store w"]
  by (auto simp: pid_step_def froze_def calm_def)

text \<open>Drawing an identifier and freezing with it.\<close>

lemma freeze_drawn:
  assumes "calm w" "perform codec (f (ids w (drawn w))) (store w) = Inr (ans, store (froze q w))"
  shows "bindD newReportID (\<lambda>rid. operate codec (f rid)) w = (Inr (), froze q w)"
proof -
  let ?w1 = "w\<lparr>drawn := Suc (drawn w)\<rparr>"
  have "calm ?w1" using assms(1) by (simp add: calm_def)
  with assms(2) show ?thesis by (simp add: newReportID_def operate_calm froze_def)
qed

lemma unreported_slot:
  assumes "schema_ok db" "action_id a \<noteq> []" "ReportBySlot ReportActionTerminal pid (action_id a) db = None"
  shows "reportBySlotTx ReportActionTerminal pid (action_id a) db = None" "\<not> reported (reports_of pid db) a"
  using assms report_check_action [OF schema_okD(3) [OF assms(1)]]
  by (auto simp: ReportBySlot_def reportBySlotTx_def GetFrozenActionReportBySlot_def find_None_iff reported_def reports_of_def)

lemma unknown_action_freezes:
  assumes w: "db_inv (env_codec env) (store w)" "fresh_ids w" and env: "faithful_env env"
    and a: "a \<in> actions_of pid (store w)" and p: "p \<in> set (processes (store w))" "owned pid sid p"
    and enc: "encodable env (ids w) (unknown_action_event pid (action_id a))"
    and none: "ReportBySlot ReportActionTerminal pid (action_id a) (store w) = None"
    and b: "marshal_event env (unknown_action_event pid (action_id a)) = Some b" "length b \<le> MaxMessageBytes"
    and q: "q = recovery_report ReportActionTerminal (unknown_action_event pid (action_id a)) b"
  shows "\<exists>res. freezeActionReport (env_codec env) (ids w (drawn w)) pid sid (action_id a) q (store w)
     = Inr (res, store (froze q w))"
proof -
  let ?e = "unknown_action_event pid (action_id a)"
  have ok: "schema_ok (store w)" by (rule db_invD(1) [OF w(1)])
  have act: "a \<in> set (process_actions (store w))" "action_process_id a = pid" using a by (auto simp: actions_of_def)
  then have aid: "action_id a \<noteq> []" using schema_okD(2) [OF ok] by (auto simp: action_check_def)
  have pid: "pid \<noteq> []" "process_id p = pid" using p schema_okD(1) [OF ok p(1)] by (auto simp: owned_def process_check_def)
  have e: "event_process_id ?e = pid" "event_process_action_id ?e = action_id a" "event_result ?e = []"
    by (simp_all add: unknown_action_event_def empty_event_def)
  have "validateReportKind ReportActionTerminal ?e = Inr ()"
    by (simp add: validateReportKind_def unknown_action_event_def empty_event_def validTerminalActionEvent_def time_is_zero_def)
  then have valid: "validateReport (env_codec env) (recovery_report ReportActionTerminal ?e b) = Inr ()"
    using e pid aid by (intro recovery_report_valid [OF env b]) (simp_all add: validateReportResult_def)
  note free = unreported_slot [OF ok aid none]
  have "pid \<in> process_id ` set (processes (store w))" using p(1) pid(2) by blast
  then obtain res where fr: "freezeReportTx (env_codec env) (ids w (drawn w)) q (store w) = Inr (res, store (froze q w))"
    using recovery_freezes [OF env enc b(1) refl fresh_drawn [OF w(2)] ok valid] e free(1) act by (auto simp: froze_def q)
  have "effect_committed a"
    using db_invD(2) [OF w(1) p(1) pid(2)] a free(2) by (auto simp: proc_inv_def split: if_splits)
  moreover have "processTx pid (store w) = Some p" "actionTx (action_id a) (store w) = Some a"
    using p(1) pid(2) act by (simp_all add: processTx_def actionTx_def GetProcess_iff [OF ok] GetProcessAction_iff [OF ok])
  ultimately have "freezeActionReport (env_codec env) (ids w (drawn w)) pid sid (action_id a) q (store w)
      = freezeReportTx (env_codec env) (ids w (drawn w)) q (store w)"
    using act(2) p(2) e by (simp add: freezeActionReport_def validateActionReportInput_def owned_def q)
  with fr show ?thesis by simp
qed

lemma recover_action_calm:
  assumes w: "calm w" "db_inv (env_codec env) (store w)" "fresh_ids w" and env: "faithful_env env"
    and a: "a \<in> actions_of pid (store w)" and p: "p \<in> set (processes (store w))" "owned pid sid p"
    and enc: "encodable env (ids w) (unknown_action_event pid (action_id a))"
  shows "\<exists>w'. recoverAction env pid sid a w = (Inr (), w') \<and> pid_step (env_codec env) pid w w'
     \<and> processes (store w') = processes (store w) \<and> reported (reports_of pid (store w')) a"
proof -
  have aid: "action_id a \<noteq> []"
    using a schema_okD(2) [OF db_invD(1) [OF w(2)]] by (auto simp: action_check_def actions_of_def)
  note q = query_calm [OF w(1), of "env_codec env" "ReportBySlot ReportActionTerminal pid (action_id a)"]
  show ?thesis
  proof (cases "ReportBySlot ReportActionTerminal pid (action_id a) (store w)")
    case (Some r)
    then have "reported (reports_of pid (store w)) a"
      using aid by (auto simp: ReportBySlot_def GetFrozenActionReportBySlot_def reported_def reports_of_def dest!: find_SomeD)
    with Some q pid_step_refl [OF w] show ?thesis by (simp add: recoverAction_def returnD_def)
  next
    case None
    let ?e = "unknown_action_event pid (action_id a)"
    obtain b where b: "marshal_event env ?e = Some b" "length b \<le> MaxMessageBytes" using enc by (auto simp: encodable_def)
    define r where "r = recovery_report ReportActionTerminal ?e b"
    have e: "event_process_id ?e = pid" "event_process_action_id ?e = action_id a"
      by (simp_all add: unknown_action_event_def)
    obtain res where op: "freezeActionReport (env_codec env) (ids w (drawn w)) pid sid (action_id a) r (store w)
        = Inr (res, store (froze r w))"
      using unknown_action_freezes [OF w(2,3) env a p enc None b r_def] by blast
    have step: "pid_step (env_codec env) pid w (froze r w)"
      using froze_step [OF w(1,3) freezeActionReport_inv(1) [OF w(2) op]] e by (simp add: r_def)
    have "unknownActionRecoveryReport env pid (action_id a) = returnD r"
      by (simp add: unknownActionRecoveryReport_def b marshalD_def r_def recovery_report_def e)
    then have "recoverAction env pid sid a w = (Inr (), froze r w)"
      unfolding recoverAction_def
      using freeze_drawn [OF w(1), of "env_codec env" "\<lambda>rid. OpFreezeActionReport rid pid sid (action_id a) r"] op None q
      by (simp add: answering_def del: bindD_simps(3)) (simp add: bindD_simps(3))
    moreover have "reported (reports_of pid (store (froze r w))) a"
      using e aid by (auto simp: froze_def reported_def frozen_row_def r_def)
    ultimately show ?thesis using step by (auto simp: froze_def)
  qed
qed

lemma recover_actions_calm:
  assumes env: "faithful_env env"
  shows "calm w \<Longrightarrow> db_inv (env_codec env) (store w) \<Longrightarrow> fresh_ids w \<Longrightarrow> set as \<subseteq> actions_of pid (store w) \<Longrightarrow>
     p \<in> set (processes (store w)) \<Longrightarrow> owned pid sid p \<Longrightarrow>
     \<forall>a \<in> set as. encodable env (ids w) (unknown_action_event pid (action_id a)) \<Longrightarrow>
     \<exists>w'. forD as (recoverAction env pid sid) w = (Inr (), w') \<and> pid_step (env_codec env) pid w w'
       \<and> processes (store w') = processes (store w) \<and> (\<forall>a \<in> set as. reported (reports_of pid (store w')) a)"
proof (induction as arbitrary: w)
  case Nil
  then show ?case by (simp add: returnD_def pid_step_refl)
next
  case (Cons a as)
  then obtain w1 where w1: "recoverAction env pid sid a w = (Inr (), w1)" "pid_step (env_codec env) pid w w1"
    "processes (store w1) = processes (store w)" "reported (reports_of pid (store w1)) a"
    using recover_action_calm [OF Cons.prems(1-3) env, of a pid p sid] by auto
  have "set as \<subseteq> actions_of pid (store w1)" using Cons.prems(4) w1(2) by (auto simp: pid_step_def)
  then obtain w2 where w2: "forD as (recoverAction env pid sid) w1 = (Inr (), w2)" "pid_step (env_codec env) pid w1 w2"
    "processes (store w2) = processes (store w1)" "\<forall>a \<in> set as. reported (reports_of pid (store w2)) a"
    using Cons.IH [of w1] pid_stepD [OF w1(2)] Cons.prems w1(3) by auto
  have "reports_of pid (store w1) \<subseteq> reports_of pid (store w2)" using w2(2) by (simp add: pid_step_def)
  with w1(4) have "reported (reports_of pid (store w2)) a" by (rule reported_mono)
  with w1 w2 pid_step_trans [OF w1(2) w2(2)] show ?case by auto
qed

section \<open>Freezing the terminal report\<close>

definition final_report :: "daemon_env \<Rightarrow> process \<Rightarrow> bytes \<Rightarrow> bytes \<Rightarrow> report" where
  "final_report env p res b = (case final_output env p of (st, reason, msg, out) \<Rightarrow>
     recovery_report ReportProcessTerminal (terminal_event (process_id p) st reason msg res) b)"

lemma recoverable_final:
  assumes "recoverable env rids db p" "final_output env p = (st, reason, msg, out)"
  obtains res b where "marshal_result env st out msg = Some res"
    "marshal_event env (terminal_event (process_id p) st reason msg res) = Some b" "length b \<le> MaxMessageBytes"
    "encodable env rids (terminal_event (process_id p) st reason msg res)"
  using assms by (auto simp: recoverable_def encodable_def split: option.splits)

lemma final_report_calm:
  assumes "calm w" "final_output env p = (st, reason, msg, out)" "marshal_result env st out msg = Some res"
    and "marshal_event env (terminal_event (process_id p) st reason msg res) = Some b"
  shows "stoppedProcessTerminalReport env p w = (Inr (final_report env p res b), w)"
proof -
  have "(if exec_committed p then stopped_output env p
      else returnD (''execution_not_started'', ''the process grant closed before execution was committed'', no_output)) w
      = (Inr (reason, msg, out), w)"
    using assms(1,2) by (auto simp: stopped_output_def external_calm tryD_def returnD_def final_output_def split: if_splits)
  moreover have "st = (if exec_committed p then ProcessStateUnknown else ProcessStateFailed)"
    using assms(2) by (auto simp: final_output_def split: if_splits)
  ultimately show ?thesis
    using assms(2-4)
    by (simp add: stoppedProcessTerminalReport_def marshalD_def returnD_def final_report_def recovery_report_def
        terminal_event_def empty_event_def empty_report_def)
qed

lemma final_report_valid:
  assumes env: "faithful_env env" and f: "final_output env p = (st, reason, msg, out)"
    and m: "marshal_result env st out msg = Some res"
    and b: "marshal_event env (terminal_event (process_id p) st reason msg res) = Some b" "length b \<le> MaxMessageBytes"
    and pid: "process_id p \<noteq> []"
  shows "validateReport (env_codec env) (final_report env p res b) = Inr ()"
proof -
  let ?e = "terminal_event (process_id p) st reason msg res"
  have "out_text out = [] \<or> out = process_output_of env (process_id p)"
    using f by (auto simp: final_output_def no_output_def split: if_splits)
  then have "length (out_text out) \<le> MaxObservationBytes" using env by (auto simp: faithful_env_def)
  moreover have "unmarshal_observation (env_codec env) res = Some (Some (out_text out))"
    using env m by (auto simp: faithful_env_def)
  ultimately have "validateReportResult (env_codec env) (event_result ?e) = Inr ()"
    by (simp add: validateReportResult_def terminal_event_def)
  moreover have "validateReportKind ReportProcessTerminal ?e = Inr ()"
    using f by (auto simp: final_output_def validateReportKind_def terminal_event_def empty_event_def time_is_zero_def
        ValidProcessTerminalSourceTimes_def split: if_splits)
  ultimately show ?thesis
    unfolding final_report_def f prod.case
    using pid by (intro recovery_report_valid [OF env b]) (simp_all add: terminal_event_def empty_event_def)
qed

lemma terminal_report_freezes:
  assumes inv: "db_inv (env_codec env) (store w)" and fresh: "fresh_ids w" and env: "faithful_env env"
    and f: "final_output env p = (st, reason, msg, out)" and m: "marshal_result env st out msg = Some res"
    and b: "marshal_event env (terminal_event (process_id p) st reason msg res) = Some b" "length b \<le> MaxMessageBytes"
    and enc: "encodable env (ids w) (terminal_event (process_id p) st reason msg res)"
    and p': "p' \<in> set (processes (store w))" "owned (process_id p) sid p'" "phase p' = ProcessAccepted"
  shows "\<exists>r. freezeTerminalReport (env_codec env) (ids w (drawn w)) (process_id p) sid (final_report env p res b) (store w)
     = Inr (r, touch (process_id p) sid (\<lambda>p. p\<lparr>phase := ProcessTerminal, action_admission_closed := True\<rparr>)
         (with_report (frozen_row (ids w (drawn w)) (final_report env p res b)) (store w)))"
proof -
  let ?e = "terminal_event (process_id p) st reason msg res" and ?q = "final_report env p res b"
  have ok: "schema_ok (store w)" by (rule db_invD(1) [OF inv])
  have q: "?q = recovery_report ReportProcessTerminal ?e b" by (simp add: final_report_def f)
  have e: "event_process_id ?e = process_id p" "event_process_action_id ?e = []"
    by (simp_all add: terminal_event_def empty_event_def)
  have id: "process_id p' = process_id p" using p'(2) by (simp add: owned_def)
  have "process_id p \<noteq> []" using schema_okD(1) [OF ok p'(1)] id by (simp add: process_check_def)
  note valid = final_report_valid [OF env f m b this]
  have "\<forall>r \<in> reports_of (process_id p) (store w). report_kind r \<noteq> ReportProcessTerminal"
    using db_invD(2) [OF inv p'(1) id] p'(3) by (auto simp: proc_inv_def)
  then have slot: "reportBySlotTx ReportProcessTerminal (event_process_id ?e) (event_process_action_id ?e) (store w) = None"
    by (auto simp: reportBySlotTx_def GetFrozenProcessReportBySlot_def find_None_iff reports_of_def e)
  have "process_id p \<in> process_id ` set (processes (store w))" using p'(1) id by (metis imageI)
  then obtain r where fr: "freezeReportTx (env_codec env) (ids w (drawn w)) ?q (store w)
      = Inr (r, with_report (frozen_row (ids w (drawn w)) ?q) (store w))"
    using recovery_freezes [OF env enc b(1) refl fresh_drawn [OF fresh] ok valid [unfolded q] slot] e q by auto
  let ?db1 = "with_report (frozen_row (ids w (drawn w)) ?q) (store w)"
  have "\<exists>db2. SetProcessTerminal (process_id p) sid ?db1 = Inr db2"
    by (rule SetProcessTerminal_ok [OF freezeReportTx_frame(4) [OF ok fr]])
  moreover have "processTx (process_id p) (store w) = Some p'"
    using p'(1) id by (simp add: processTx_def GetProcess_iff [OF ok])
  ultimately show ?thesis
    using fr p'(2,3) e by (auto simp: freezeTerminalReport_def q owned_def SetProcessTerminal_Inr)
qed

lemma recover_terminal_calm:
  assumes w: "calm w" "db_inv (env_codec env) (store w)" "fresh_ids w" and env: "faithful_env env"
    and rec: "recoverable env (ids w) db p"
    and p': "p' \<in> set (processes (store w))" "owned (process_id p) sid p'" "phase p' = phase p"
    and phase: "phase p = ProcessAccepted \<or> phase p = ProcessTerminal" "action_admission_closed p'"
  obtains w' where "recoverTerminal env (process_id p) sid p w = (Inr (), w')"
    "pid_step (env_codec env) (process_id p) w w'" "p'\<lparr>phase := ProcessTerminal\<rparr> \<in> set (processes (store w'))"
proof (cases "phase p = ProcessTerminal")
  case True
  with p' phase have "p'\<lparr>phase := ProcessTerminal\<rparr> = p'" by simp
  with True p'(1) pid_step_refl [OF w] show thesis by (intro that [of w]) (simp_all add: recoverTerminal_def returnD_def)
next
  case False
  let ?f = "\<lambda>p :: process. p\<lparr>phase := ProcessTerminal, action_admission_closed := True\<rparr>"
  obtain st reason msg out where f: "final_output env p = (st, reason, msg, out)" by (metis prod_cases4)
  obtain res b where m: "marshal_result env st out msg = Some res"
    "marshal_event env (terminal_event (process_id p) st reason msg res) = Some b" "length b \<le> MaxMessageBytes"
    "encodable env (ids w) (terminal_event (process_id p) st reason msg res)"
    by (rule recoverable_final [OF rec f])
  define q where "q = final_report env p res b"
  define w' where "w' = (froze q w)\<lparr>store := touch (process_id p) sid ?f (store (froze q w))\<rparr>"
  have "phase p' = ProcessAccepted" using False p'(3) phase by simp
  then obtain r where op: "freezeTerminalReport (env_codec env) (ids w (drawn w)) (process_id p) sid q (store w)
      = Inr (r, store w')"
    using terminal_report_freezes [OF w(2,3) env f m p'(1,2)] by (auto simp: q_def w'_def froze_def)
  have inv: "db_inv (env_codec env) (store w')" "elsewhere_same (process_id p) (store w) (store w')"
    using freezeTerminalReport_inv [OF w(2) op] by blast+
  have pid: "ProcessID q = process_id p" by (simp add: q_def final_report_def f terminal_event_def)
  have step: "pid_step (env_codec env) (process_id p) w w'"
    using inv w(1) froze_fresh [OF w(3), of q] pid
    by (auto simp: pid_step_def w'_def froze_def calm_def fresh_ids_def)
  have "p'\<lparr>phase := ProcessTerminal\<rparr> \<in> set (processes (store w'))"
    using touched_row [of p' "store (froze q w)" "process_id p" sid ?f] p'(1,2) phase(2)
    by (cases p') (simp add: w'_def froze_def)
  moreover have "recoverTerminal env (process_id p) sid p w = (Inr (), w')"
  proof -
    have "bindD newReportID (\<lambda>rid. operate (env_codec env) (OpFreezeTerminalReport rid (process_id p) sid q)) w = (Inr (), w')"
    proof -
      have "calm (w\<lparr>drawn := Suc (drawn w)\<rparr>)" using w(1) by (simp add: calm_def)
      with op show ?thesis by (simp add: newReportID_def operate_calm answering_def w'_def froze_def)
    qed
    with False final_report_calm [OF w(1) f m(1,2)] show ?thesis
      by (simp add: recoverTerminal_def q_def)
  qed
  ultimately show thesis using step that by blast
qed

section \<open>Closing\<close>

lemma recover_containment_calm:
  assumes "calm w" "db_inv (env_codec env) (store w)" "fresh_ids w" "recoverable env rids db p"
    and p': "p' \<in> set (processes (store w))" "owned pid sid p'" "phase p' = ProcessTerminal"
    and same: "containment_empty p' = containment_empty p"
  obtains w' where "recoverContainment env pid sid p w = (Inr (), w')"
    "pid_step (env_codec env) pid w w'" "p'\<lparr>containment_empty := True\<rparr> \<in> set (processes (store w'))"
proof (cases "containment_empty p")
  case True
  with same have "p'\<lparr>containment_empty := True\<rparr> = p'" by simp
  with True p'(1) pid_step_refl [OF assms(1-3)] show thesis
    by (intro that [of w]) (simp_all add: recoverContainment_def returnD_def)
next
  case False
  obtain w' where w': "operate (env_codec env) (OpMarkContainmentEmpty pid sid) w = (Inr (), w')"
    "pid_step (env_codec env) pid w w'" "p'\<lparr>containment_empty := True\<rparr> \<in> set (processes (store w'))"
    using containment_empty_calm [OF assms(1,3,2) p'(1,2)] p'(3) by blast
  moreover have "recoverContainment env pid sid p w = operate (env_codec env) (OpMarkContainmentEmpty pid sid) w"
    using False assms(1,4) by (auto simp: recoverContainment_def recoverable_def external_calm split: option.split)
  ultimately show thesis using that by simp
qed

lemma processTx_row: "schema_ok db \<Longrightarrow> p \<in> set (processes db) \<Longrightarrow> owned pid sid p \<Longrightarrow> processTx pid db = Some p"
  by (simp add: processTx_def GetProcess_iff owned_def)

lemma one_terminal_report:
  assumes "db_inv codec db" "r \<in> reports_of pid db" "report_kind r = ReportProcessTerminal"
  shows "CountTerminalProcessReports pid db = 1"
proof -
  let ?P = "\<lambda>r. report_process_id r = pid \<and> report_action_id r = None \<and> report_kind r = ReportProcessTerminal"
  have ok: "schema_ok db" by (rule db_invD(1) [OF assms(1)])
  have "report_action_id r = None"
    using assms(2,3) schema_okD(3) [OF ok, of r] by (auto simp: reports_of_def report_check_def)
  then have "set (filter ?P (frozen_reports db)) = {r}"
    using assms one_report_per_rank [OF assms(1)] by (fastforce simp: reports_of_def)
  moreover have "distinct (filter ?P (frozen_reports db))"
    using schema_okD(7) [OF ok] by (auto simp: distinct_map)
  ultimately have "length (filter ?P (frozen_reports db)) = 1"
    using distinct_card [of "filter ?P (frozen_reports db)"] by simp
  then show ?thesis by (simp add: CountTerminalProcessReports_def count_where_def)
qed

lemma local_close_calm:
  assumes w: "calm w" "fresh_ids w" "db_inv codec (store w)" and p: "p \<in> set (processes (store w))" "owned pid sid p"
    and closed: "phase p = ProcessTerminal" "action_admission_closed p" "containment_empty p"
    and reported: "\<forall>a \<in> actions_of pid (store w). reported (reports_of pid (store w)) a"
  obtains w' where "operate codec (OpMarkLocalClosed pid sid) w = (Inr (), w')"
    "pid_step codec pid w w'" "p\<lparr>local_closed := True\<rparr> \<in> set (processes (store w'))"
proof (cases "local_closed p")
  case True
  have "markLocalClosed pid sid (store w) = Inr (store w)"
    using True p processTx_row [OF db_invD(1) [OF w(3)] p] by (simp add: markLocalClosed_def owned_def)
  then have "operate codec (OpMarkLocalClosed pid sid) w = (Inr (), w)"
    using w(1) by (simp add: operate_calm finished_def)
  moreover have "p\<lparr>local_closed := True\<rparr> = p" using True by simp
  ultimately show thesis using p(1) pid_step_refl [OF w(1,3,2)] by (intro that [of w]) simp_all
next
  case False
  have ok: "schema_ok (store w)" by (rule db_invD(1) [OF w(3)])
  have id: "process_id p = pid" using p(2) by (simp add: owned_def)
  note tx = processTx_row [OF ok p]
  obtain r where r: "r \<in> reports_of pid (store w)" "report_kind r = ReportProcessTerminal"
    using db_invD(2) [OF w(3) p(1) id] closed(1) by (auto simp: proc_inv_def)
  have "CountTerminalProcessReports pid (store w) = 1" by (rule one_terminal_report [OF w(3) r])
  moreover have "CountUnresolvedProcessActions pid (store w) = 0"
    using reported by (auto simp: CountUnresolvedProcessActions_def reported_def reports_of_def actions_of_def list_ex_iff)
  ultimately have "markLocalClosed pid sid (store w) = MarkProcessLocalClosed pid sid (store w)"
    using tx p(2) closed False by (simp add: markLocalClosed_def owned_def)
  moreover have "markLocalClosed pid sid (store w) \<noteq> Inl ErrDatabase" by (rule markLocalClosed_no_error [OF ok])
  ultimately have "markLocalClosed pid sid (store w) = Inr (touch pid sid (\<lambda>p. p\<lparr>local_closed := True\<rparr>) (store w))"
    by (auto simp: MarkProcessLocalClosed_def update_processes_def checked_def touch_def split: if_splits)
  then have "perform codec (OpMarkLocalClosed pid sid) (store w) =
      Inr (Done, touch pid sid (\<lambda>p. p\<lparr>local_closed := True\<rparr>) (store w))" by (simp add: finished_def)
  from touch_op [OF w p this] show thesis using that by auto
qed

section \<open>The whole recovery\<close>

text \<open>
  A process row that is closed, under the same supervisor and as released as it was.
\<close>

definition closed_row :: "process \<Rightarrow> process \<Rightarrow> bool" where
  "closed_row p p' \<longleftrightarrow> process_id p' = process_id p \<and> supervisor_instance_id p' = supervisor_instance_id p
     \<and> server_released p' = server_released p \<and> local_closed p' \<and> phase p' = ProcessTerminal"

lemma Store_Actions_set: "set (Store_Actions pid db) = actions_of pid db"
  by (auto simp: Store_Actions_def ListProcessActions_def actions_of_def)

lemma recover_started_calm:
  assumes w: "calm w" "db_inv (env_codec env) (store w)" "fresh_ids w" and env: "faithful_env env"
    and p: "p \<in> set (processes (store w))" "phase p = ProcessAccepted \<or> phase p = ProcessTerminal"
    and rec: "recoverable env (ids w) (store w) p"
  shows "\<exists>w'. recoverStoppedReleasedProcess env (process_id p) (supervisor_instance_id p) lock w = (Inr (), w')
     \<and> pid_step (env_codec env) (process_id p) w w' \<and> (\<exists>p' \<in> set (processes (store w')). closed_row p p')"
proof -
  let ?pid = "process_id p" and ?sid = "supervisor_instance_id p" and ?step = "pid_step (env_codec env) (process_id p)"
  have own: "owned ?pid ?sid p" by (simp add: owned_def)
  have found: "Store_Process ?pid (store w) = Some p"
    using processTx_row [OF db_invD(1) [OF w(2)] p(1) own] by (simp add: processTx_def Store_Process_def)
  obtain w1 where w1: "retryWhileStateDBBusy (env_codec env) (OpCloseActionAdmission ?pid ?sid) w = (Inr (), w1)"
    "?step w w1" "p\<lparr>action_admission_closed := True\<rparr> \<in> set (processes (store w1))"
    using close_admission_calm [OF w(1,3,2) p(1) own p(2)] by blast
  let ?p1 = "p\<lparr>action_admission_closed := True\<rparr>" and ?as = "Store_Actions ?pid (store w1)"
  have own1: "owned ?pid ?sid ?p1" using own by (simp add: owned_def)
  have as: "set ?as = actions_of ?pid (store w)" using w1(2) by (simp add: Store_Actions_set pid_step_def)
  have "\<forall>a \<in> set ?as. encodable env (ids w1) (unknown_action_event ?pid (action_id a))"
    using rec as pid_stepD(4) [OF w1(2)] by (auto simp: recoverable_def list_all_iff actions_of_def)
  then obtain w2 where w2: "forD ?as (recoverAction env ?pid ?sid) w1 = (Inr (), w2)" "?step w1 w2"
    "processes (store w2) = processes (store w1)" "\<forall>a \<in> set ?as. reported (reports_of ?pid (store w2)) a"
    using recover_actions_calm [OF env pid_stepD(1-3) [OF w1(2)], of ?as ?pid ?p1 ?sid] w1(3) own1
    by (auto simp: Store_Actions_set)
  have rec2: "recoverable env (ids w2) (store w) p" using rec pid_stepD(4) [OF w1(2)] pid_stepD(4) [OF w2(2)] by simp
  obtain w3 where w3: "recoverTerminal env ?pid ?sid p w2 = (Inr (), w3)" "?step w2 w3"
    "?p1\<lparr>phase := ProcessTerminal\<rparr> \<in> set (processes (store w3))"
    using recover_terminal_calm [OF pid_stepD(1-3) [OF w2(2)] env rec2, of ?p1 ?sid] w1(3) w2(3) own1 p(2) by auto
  obtain w4 where w4: "recoverContainment env ?pid ?sid p w3 = (Inr (), w4)" "?step w3 w4"
    "?p1\<lparr>phase := ProcessTerminal, containment_empty := True\<rparr> \<in> set (processes (store w4))"
    using recover_containment_calm [OF pid_stepD(1-3) [OF w3(2)] rec2 w3(3), of ?pid ?sid] own1 by (auto simp: owned_def)
  have "?step w2 w4" by (rule pid_step_trans [OF w3(2) w4(2)])
  then have "\<forall>a \<in> actions_of ?pid (store w4). reported (reports_of ?pid (store w4)) a"
    using w2(2,4) reported_mono [of "reports_of ?pid (store w2)" _ "reports_of ?pid (store w4)"]
    by (auto simp: pid_step_def Store_Actions_set)
  then obtain w5 where w5: "operate (env_codec env) (OpMarkLocalClosed ?pid ?sid) w4 = (Inr (), w5)" "?step w4 w5"
    "?p1\<lparr>phase := ProcessTerminal, containment_empty := True, local_closed := True\<rparr> \<in> set (processes (store w5))"
    using local_close_calm [OF pid_stepD(1,3,2) [OF w4(2)] w4(3), of ?pid ?sid] own1 by (auto simp: owned_def)
  have "recoverStoppedReleasedProcess env ?pid ?sid lock w = (Inr (), w5)"
    using p(2) found w1(1) w2(1) w3(1) w4(1) w5(1) query_calm [OF pid_stepD(1) [OF w1(2)], of "env_codec env" "Store_Actions ?pid"]
    by (auto simp: recoverStoppedReleasedProcess_def external_calm [OF w(1)] query_calm [OF w(1)])
  moreover have "?step w w5"
    by (rule pid_step_trans [OF w1(2) pid_step_trans [OF w2(2) pid_step_trans [OF w3(2) pid_step_trans [OF w4(2) w5(2)]]]])
  ultimately show ?thesis using w5(3) by (auto simp: closed_row_def intro!: bexI [OF _ w5(3)])
qed

end
