(* ===== verification/Daemon_Relations.thy ===== *)
theory Daemon_Relations
  imports Daemon_Recovery
begin

text \<open>
  What the recovery of one process keeps, whatever the relation: a relation between worlds that the
  calls outside the database, the queries and the operations on that process respect is respected by
  closing a rejected preparation and by recovering a stopped process.  It is used for two relations:
  that the database changes by operations of the store only (here), and that the other processes are
  left alone (\<open>Daemon_Frame\<close>).
\<close>

section \<open>The operations on one process\<close>

text \<open>The operations the daemon itself runs on a process while it recovers or reconciles it.\<close>

fun tends :: "string \<Rightarrow> store_op \<Rightarrow> bool" where
  "tends pid (OpMarkAccepted q sid) \<longleftrightarrow> q = pid"
| "tends pid (OpDeleteRejectedPreparation q sid) \<longleftrightarrow> q = pid"
| "tends pid (OpCloseActionAdmission q sid) \<longleftrightarrow> q = pid"
| "tends pid (OpMarkContainmentEmpty q sid) \<longleftrightarrow> q = pid"
| "tends pid (OpMarkLocalClosed q sid) \<longleftrightarrow> q = pid"
| "tends pid (OpMarkServerReleased q sid) \<longleftrightarrow> q = pid"
| "tends pid (OpFreezeActionReport rid q sid aid r) \<longleftrightarrow> q = pid"
| "tends pid (OpFreezeTerminalReport rid q sid r) \<longleftrightarrow> q = pid"
| "tends pid (OpReleaseAction q sid aid seq) \<longleftrightarrow> q = pid \<and> in_int64 seq"
| "tends pid _ \<longleftrightarrow> False"

lemma tends_names: "tends pid q \<Longrightarrow> names_process q = Some pid \<and> seq_int64 q"
  by (cases q) auto

section \<open>What recovery keeps\<close>

text \<open>What a query reads does not matter to the world it leaves.\<close>

lemma query_world: "snd (query codec f w) = snd (query codec (\<lambda>_. ()) w)"
  by (simp add: query_def tx_def split: prod.split option.split)

locale recovery_relation = world_relation ok R for ok :: "world \<Rightarrow> bool" and R :: "world \<Rightarrow> world \<Rightarrow> bool" +
  fixes env :: daemon_env and pid :: string
  assumes keeps_external: "keeps ok R external"
    and keeps_newReportID: "keeps ok R newReportID"
    and keeps_unit_query: "keeps ok R (query (env_codec env) (\<lambda>_. ()))"
    and keeps_operate: "tends pid q \<Longrightarrow> keeps ok R (operate (env_codec env) q)"
begin

lemma keeps_query: "keeps ok R (query (env_codec env) f)"
  using keeps_unit_query by (simp add: keeps_def query_world [of _ f])

lemma keeps_orElse: "keeps ok R m \<Longrightarrow> (\<And>x. keeps ok R (f x)) \<Longrightarrow> keeps ok R (orElse pending closeErr m f)"
  unfolding orElse_def by (intro keeps_bindD keeps_tryD) (auto split: sum.split intro: keeps_returnD)

lemma keeps_marshalD: "keeps ok R (marshalD b)"
  by (simp add: marshalD_def keeps_failD keeps_returnD split: option.split)

lemma keeps_acquireLock: "keeps ok R acquireLock"
  unfolding acquireLock_def
  by (intro keeps_bindD keeps_tryD keeps_external) (auto split: sum.split intro: keeps_returnD keeps_failD keeps_external)

lemma keeps_artifacts: "keeps ok R (removeProcessArtifacts sid out)" "keeps ok R (removeProcessRuntimeArtifacts sid out)"
proof -
  show *: "keeps ok R (removeProcessArtifacts sid out)" unfolding removeProcessArtifacts_def
    by (rule keeps_forD) (rule keeps_external)
  show "keeps ok R (removeProcessRuntimeArtifacts sid out)" unfolding removeProcessRuntimeArtifacts_def
    by (intro keeps_bindD keeps_tryD keeps_external *) (auto split: sum.split intro: keeps_returnD keeps_failD keeps_external)
qed

lemmas keeps_steps = keeps_bindD keeps_tryD keeps_orElse keeps_returnD keeps_failD keeps_external
  keeps_query keeps_newReportID keeps_marshalD keeps_acquireLock keeps_artifacts

lemma waitForLock_keeps: "ok w \<Longrightarrow> R w (snd (waitForLock closeErr w))"
proof (induction closeErr w rule: waitForLock.induct)
  case (1 closeErr w)
  obtain r w1 where a: "acquireLock w = (r, w1)" by force
  obtain r' w2 where x: "external w1 = (r', w2)" by force
  have f1: "R w w1" by (rule keepsD [OF keeps_acquireLock "1.prems" a])
  have f2: "R w w2" by (rule rel_trans [OF f1 keepsD [OF keeps_external rel_ok [OF f1] x]])
  have f3: "R w (snd (waitForLock closeErr w2))" if "r = Inl e" "is_err e ErrLockHeld" "r' = Inr u" for e u
    using "1.IH" [of r w1 e r' w2 u] a x that rel_ok [OF f2] rel_trans [OF f2] by simp
  show ?case
    using f1 f2 f3 by (subst waitForLock.simps) (auto simp: a x split: sum.split)
qed

lemma keeps_closeLocked: "keeps ok R (closeLockedPreparation env pid sid closeErr)"
proof -
  have "keeps ok R (deleteRejected env pid sid closeErr)"
    unfolding deleteRejected_def by (intro keeps_steps keeps_operate) simp
  then show ?thesis unfolding closeLockedPreparation_def
    by (intro keeps_steps) (auto split: option.split intro: keeps_steps)
qed

lemma keeps_closeRejected: "keeps ok R (closeRejectedPreparation env pid sid runtime lock)"
proof -
  have "keeps ok R (\<lambda>w. case waitForLock closeErr w of (Inl r, w') \<Rightarrow> (Inr r, w')
           | (Inr _, w') \<Rightarrow> closeLockedPreparation env pid sid closeErr w')" for closeErr
    unfolding keeps_def
  proof (intro allI impI)
    fix w assume w: "ok w"
    obtain r w1 where l: "waitForLock closeErr w = (r, w1)" by force
    have f: "R w w1" using waitForLock_keeps [OF w, of closeErr] l by simp
    have "R w (snd (closeLockedPreparation env pid sid closeErr w1))"
      using rel_trans [OF f] keeps_closeLocked rel_ok [OF f] by (auto simp: keeps_def)
    with f show "R w (snd (case waitForLock closeErr w of (Inl r, w') \<Rightarrow> (Inr r, w')
           | (Inr _, w') \<Rightarrow> closeLockedPreparation env pid sid closeErr w'))"
      by (auto simp: l split: sum.split)
  qed
  moreover have "keeps ok R (closeUngranted runtime)"
    unfolding closeUngranted_def by (auto split: option.split intro!: keeps_steps)
  ultimately show ?thesis unfolding closeRejectedPreparation_def
    by (auto intro!: keeps_steps keeps_closeLocked)
qed

lemma keeps_recovery_reports: "keeps ok R (unknownActionRecoveryReport env q aid)"
    "keeps ok R (stoppedProcessTerminalReport env p)"
  unfolding unknownActionRecoveryReport_def stoppedProcessTerminalReport_def stopped_output_def Let_def
  by (auto intro!: keeps_steps split: prod.split simp del: bindD_simps)

lemma keeps_recover: "keeps ok R (recoverStoppedReleasedProcess env pid sid lock)"
proof -
  have action: "keeps ok R (recoverAction env pid sid a)" for sid a
    unfolding recoverAction_def
    by (intro keeps_steps) (auto intro!: keeps_steps keeps_recovery_reports keeps_operate split: option.split)
  have terminal: "keeps ok R (recoverTerminal env pid sid p)" for sid p
    unfolding recoverTerminal_def by (auto intro!: keeps_steps keeps_recovery_reports keeps_operate)
  have containment: "keeps ok R (recoverContainment env pid sid p)" for sid p
    unfolding recoverContainment_def by (auto intro!: keeps_steps keeps_operate split: option.split)
  show ?thesis unfolding recoverStoppedReleasedProcess_def
    by (intro keeps_steps)
      (auto intro!: keeps_steps keeps_closeRejected keeps_retry keeps_forD action terminal containment keeps_operate
        split: option.split)
qed

end

interpretation recovery_traces: recovery_relation world_ok "follows (env_codec env)" env pid for env pid
  by unfold_locales (auto intro: traced_operate dest: tends_names)

end
