(* ===== verification/Daemon_Removal.thy ===== *)
theory Daemon_Removal
  imports Daemon_Finalize Daemon_Relations
begin

text \<open>
  The life of a released process, to its end: finalisation closes it, the outbox delivers its reports,
  and the next finalisation removes it.  The loop over the processes is treated once, for a body that
  works on one process at a time, and used for each of the two finalisations.
\<close>

section \<open>One process at a time\<close>

definition rows_of :: "string \<Rightarrow> statedb \<Rightarrow> process set" where
  "rows_of pid db = {p \<in> set (processes db). process_id p = pid}"

definition same_for :: "string \<Rightarrow> statedb \<Rightarrow> statedb \<Rightarrow> bool" where
  "same_for pid db db' \<longleftrightarrow> rows_of pid db' = rows_of pid db
     \<and> actions_of pid db' = actions_of pid db \<and> reports_of pid db' = reports_of pid db"

lemma same_for_elsewhere: "elsewhere_same pid db db' \<Longrightarrow> q \<noteq> pid \<Longrightarrow> same_for q db db'"
  unfolding elsewhere_same_def same_for_def rows_of_def by blast

lemma same_for_trans: "same_for q a b \<Longrightarrow> same_for q b c \<Longrightarrow> same_for q a c"
  by (simp add: same_for_def)

text \<open>
  A loop over process rows whose body keeps an invariant \<open>I\<close> of the world, changes the process it is
  given and no other, and establishes \<open>Q\<close> for it from \<open>R\<close>.
\<close>

locale row_loop =
  fixes body :: "process \<Rightarrow> unit daemon"
    and I :: "world \<Rightarrow> bool"
    and R :: "(nat \<Rightarrow> string) \<Rightarrow> statedb \<Rightarrow> process \<Rightarrow> bool"
    and Q :: "process \<Rightarrow> statedb \<Rightarrow> bool"
  assumes body_step: "I w \<Longrightarrow> p \<in> set (processes (store w)) \<Longrightarrow> R (ids w) (store w) p \<Longrightarrow>
      \<exists>w'. body p w = (Inr (), w') \<and> I w' \<and> ids w' = ids w
         \<and> elsewhere_same (process_id p) (store w) (store w') \<and> Q p (store w')"
    and pre_local: "same_for (process_id p) db db' \<Longrightarrow> R i db p \<Longrightarrow> R i db' p"
    and post_local: "same_for (process_id p) db db' \<Longrightarrow> Q p db \<Longrightarrow> Q p db'"
begin

lemma loop:
  assumes "I w" "distinct (map process_id ps)" "\<forall>p \<in> set ps. p \<in> set (processes (store w)) \<and> R (ids w) (store w) p"
  shows "\<exists>w'. forD ps body w = (Inr (), w') \<and> I w' \<and> ids w' = ids w
     \<and> (\<forall>q. q \<notin> process_id ` set ps \<longrightarrow> same_for q (store w) (store w')) \<and> (\<forall>p \<in> set ps. Q p (store w'))"
  using assms
proof (induction ps arbitrary: w)
  case Nil
  then show ?case by (simp add: returnD_def same_for_def)
next
  case (Cons p ps)
  then obtain w1 where w1: "body p w = (Inr (), w1)" "I w1" "ids w1 = ids w"
    "elsewhere_same (process_id p) (store w) (store w1)" "Q p (store w1)"
    using body_step [of w p] by auto
  have other: "same_for q (store w) (store w1)" if "q \<noteq> process_id p" for q
    by (rule same_for_elsewhere [OF w1(4) that])
  have "q \<in> set (processes (store w1)) \<and> R (ids w1) (store w1) q" if q: "q \<in> set ps" for q
  proof -
    have s: "same_for (process_id q) (store w) (store w1)" using Cons.prems(2) imageI [OF q, of process_id] by (intro other) auto
    have "q \<in> rows_of (process_id q) (store w)" using Cons.prems(3) q by (simp add: rows_of_def)
    with s have "q \<in> rows_of (process_id q) (store w1)" by (simp add: same_for_def)
    then show ?thesis using pre_local [OF s] Cons.prems(3) q w1(3) by (simp add: rows_of_def)
  qed
  then obtain w2 where w2: "forD ps body w1 = (Inr (), w2)" "I w2" "ids w2 = ids w1"
    "\<forall>q. q \<notin> process_id ` set ps \<longrightarrow> same_for q (store w1) (store w2)" "\<forall>p \<in> set ps. Q p (store w2)"
    using Cons.IH [OF w1(2)] Cons.prems(2) by auto
  have "Q p (store w2)" using post_local [OF _ w1(5)] w2(4) Cons.prems(2) by simp
  moreover have "same_for q (store w) (store w2)" if "q \<notin> process_id ` set (p # ps)" for q
    using same_for_trans [OF other [of q]] w2(4) that by simp
  ultimately show ?case using w1(1,3) w2 by (intro exI [of _ w2]) simp
qed

end

section \<open>Deleting a process\<close>

lemma delete_rows:
  assumes "schema_ok db" "p \<in> set (processes db)"
  shows "rows_of (process_id p) (delete_processes (owned (process_id p) (supervisor_instance_id p)) db) = {}"
  using process_unique [OF assms(1) _ assms(2)] by (auto simp: rows_of_def delete_processes_sets owned_def)

text \<open>A world in which the daemon has no runtime and nothing interferes.\<close>

definition idle :: "daemon_env \<Rightarrow> world \<Rightarrow> bool" where
  "idle env w \<longleftrightarrow> calm w \<and> db_inv (env_codec env) (store w) \<and> client_processes w = []"

definition poised :: "daemon_env \<Rightarrow> world \<Rightarrow> bool" where
  "poised env w \<longleftrightarrow> idle env w \<and> fresh_ids w \<and> faithful_env env"

lemma idle_delete: "idle env w \<Longrightarrow> idle env (w\<lparr>store := delete_processes (owned pid sid) (store w)\<rparr>)"
  by (simp add: idle_def db_inv_delete)

lemma poised_delete: "poised env w \<Longrightarrow> poised env (w\<lparr>store := delete_processes (owned pid sid) (store w)\<rparr>)"
  using idle_delete [of env w pid sid]
  by (auto simp: poised_def fresh_ids_def idle_def delete_processes_reports [OF db_invD(1)])

lemma forD_external_calm: "calm w \<Longrightarrow> forD xs (\<lambda>_. external) w = (Inr (), w)"
  by (induction xs) (simp_all add: returnD_def external_calm)

lemma artifacts_calm:
  assumes "calm w"
  shows "removeProcessArtifacts sid out w = (Inr (), w)" "removeProcessRuntimeArtifacts sid out w = (Inr (), w)"
proof -
  show *: "removeProcessArtifacts sid out w = (Inr (), w)"
    unfolding removeProcessArtifacts_def by (rule forD_external_calm [OF assms])
  show "removeProcessRuntimeArtifacts sid out w = (Inr (), w)"
    by (simp add: removeProcessRuntimeArtifacts_def external_calm [OF assms] * tryD_def returnD_def)
qed

lemma Store_Process_row: "schema_ok db \<Longrightarrow> p \<in> set (processes db) \<Longrightarrow> Store_Process (process_id p) db = Some p"
  using processTx_row [of db p "process_id p" "supervisor_instance_id p"]
  by (simp add: processTx_def Store_Process_def owned_def)

lemma waitForLock_calm: "calm w \<Longrightarrow> waitForLock closeErr w = (Inr (), w)"
  by (subst waitForLock.simps) (simp add: acquireLock_def tryD_def external_calm returnD_def)

lemma closeUngranted_calm: "calm w \<Longrightarrow> closeUngranted runtime w = (Inr None, w)"
  by (auto simp: closeUngranted_def tryD_def external_calm returnD_def joinErrs_def split: option.split)

lemma close_rejected_calm:
  assumes calm: "calm w" and inv: "db_inv (env_codec env) (store w)"
    and p: "p \<in> set (processes (store w))" "phase p = ProcessPreparing \<or> phase p = ProcessPrepared"
  shows "closeRejectedPreparation env (process_id p) (supervisor_instance_id p) runtime lock w =
     (Inr (False, None), w\<lparr>store := delete_processes (owned (process_id p) (supervisor_instance_id p)) (store w)\<rparr>)"
proof -
  let ?pid = "process_id p" and ?sid = "supervisor_instance_id p"
  have ok: "schema_ok (store w)" by (rule db_invD(1) [OF inv])
  have row: "Store_Process ?pid (store w) = Some p" by (rule Store_Process_row [OF ok p(1)])
  have clean: "\<not> exec_committed p" using schema_okD(1) [OF ok p(1)] p(2) by (auto simp: process_check_def)
  have "DeleteRejectedPreparationAfterArtifacts ?pid ?sid (store w) = Inr (delete_processes (owned ?pid ?sid) (store w))"
    using row p(2) clean by (auto simp: DeleteRejectedPreparationAfterArtifacts_def deleteProcessAfterArtifacts_def
        processTx_def Store_Process_def DeleteProcess_def Let_def)
  then have op: "operate (env_codec env) (OpDeleteRejectedPreparation ?pid ?sid) w =
      (Inr (), w\<lparr>store := delete_processes (owned ?pid ?sid) (store w)\<rparr>)"
    by (simp add: operate_calm [OF calm] finished_def)
  have "deleteRejected env ?pid ?sid None w =
      (Inr (False, None), w\<lparr>store := delete_processes (owned ?pid ?sid) (store w)\<rparr>)"
    using calm by (simp add: deleteRejected_def orElse_def tryD_def artifacts_calm op external_calm returnD_def)
  then have "closeLockedPreparation env ?pid ?sid None w =
      (Inr (False, None), w\<lparr>store := delete_processes (owned ?pid ?sid) (store w)\<rparr>)"
    using p(2) clean calm row by (auto simp: closeLockedPreparation_def orElse_def tryD_def query_calm external_calm)
  then show ?thesis
    using calm by (simp add: closeRejectedPreparation_def closeUngranted_calm waitForLock_calm orElse_def tryD_def external_calm)
qed

section \<open>Closing a released process\<close>

text \<open>Every row that is left of a process is closed.\<close>

definition closed_in :: "process \<Rightarrow> statedb \<Rightarrow> bool" where
  "closed_in p db \<longleftrightarrow> (\<forall>p' \<in> rows_of (process_id p) db. closed_row p p')"

lemma pid_step_poised: "poised env w \<Longrightarrow> pid_step (env_codec env) pid w w' \<Longrightarrow> poised env w'"
  by (auto simp: poised_def idle_def pid_step_def)

lemma closed_in_row:
  assumes "schema_ok db" "p' \<in> set (processes db)" "closed_row p p'"
  shows "closed_in p db"
  using assms process_unique [OF assms(1) _ assms(2)] by (auto simp: closed_in_def rows_of_def closed_row_def)

lemma recover_calm:
  assumes w: "poised env w" and p: "p \<in> set (processes (store w))" and rec: "recoverable env (ids w) (store w) p"
  shows "\<exists>w'. recoverStoppedReleasedProcess env (process_id p) (supervisor_instance_id p) True w = (Inr (), w')
     \<and> poised env w' \<and> ids w' = ids w \<and> elsewhere_same (process_id p) (store w) (store w') \<and> closed_in p (store w')"
proof (cases "phase p = ProcessPreparing \<or> phase p = ProcessPrepared")
  case True
  let ?w = "w\<lparr>store := delete_processes (owned (process_id p) (supervisor_instance_id p)) (store w)\<rparr>"
  have calm: "calm w" and inv: "db_inv (env_codec env) (store w)" using w by (auto simp: poised_def idle_def)
  have ok: "schema_ok (store w)" by (rule db_invD(1) [OF inv])
  have "recoverStoppedReleasedProcess env (process_id p) (supervisor_instance_id p) True w = (Inr (), ?w)"
    using close_rejected_calm [OF calm inv p True] True Store_Process_row [OF ok p]
    by (auto simp: recoverStoppedReleasedProcess_def external_calm [OF calm] query_calm [OF calm] returnD_def)
  moreover have "closed_in p (store ?w)" by (simp add: closed_in_def delete_rows [OF ok p])
  moreover have "elsewhere_same (process_id p) (store w) (store ?w)"
    using elsewhere_delete_processes [OF ok] by simp
  ultimately show ?thesis using poised_delete [OF w] by (intro exI [of _ ?w]) simp
next
  case False
  then have started: "phase p = ProcessAccepted \<or> phase p = ProcessTerminal" by (cases "phase p") auto
  have h: "calm w" "db_inv (env_codec env) (store w)" "fresh_ids w" "faithful_env env"
    using w by (auto simp: poised_def idle_def)
  obtain w' p' where w': "recoverStoppedReleasedProcess env (process_id p) (supervisor_instance_id p) True w = (Inr (), w')"
    "pid_step (env_codec env) (process_id p) w w'" "p' \<in> set (processes (store w'))" "closed_row p p'"
    using recover_started_calm [OF h p started rec] by blast
  have "closed_in p (store w')" using closed_in_row [OF db_invD(1) [OF pid_stepD(2) [OF w'(2)]] w'(3,4)] .
  with w' pid_step_poised [OF w w'(2)] show ?thesis by (auto simp: pid_step_def)
qed

section \<open>Removing a settled process\<close>

definition settled :: "string \<Rightarrow> statedb \<Rightarrow> bool" where
  "settled pid db \<longleftrightarrow> actions_of pid db = {} \<and> (\<forall>r \<in> reports_of pid db. report_state r = ReportAcknowledged)"

lemma ReportsForProcess_settled:
  "list_all (\<lambda>r. State r = ReportAcknowledged) (ReportsForProcess pid db)
     \<longleftrightarrow> (\<forall>r \<in> reports_of pid db. report_state r = ReportAcknowledged)"
  by (auto simp: ReportsForProcess_def ListFrozenReportsForProcess_def list_all_iff reports_of_def reportFromSQLC_def)

lemma remove_settled_calm:
  assumes "idle env w"
  shows "\<exists>db'. removeSettled env pid w = (Inr (), w\<lparr>store := db'\<rparr>)
     \<and> (db' = store w \<or> (\<exists>sid. db' = delete_processes (owned pid sid) (store w)))
     \<and> (settled pid (store w) \<and> (\<forall>p \<in> rows_of pid (store w). local_closed p \<and> server_released p) \<longrightarrow> rows_of pid db' = {})"
proof -
  have calm: "calm w" and ok: "schema_ok (store w)" and none: "client_processes w = []"
    using assms by (auto simp: idle_def dest: db_invD(1))
  have keep: "w\<lparr>store := store w\<rparr> = w" by simp
  show ?thesis
  proof (cases "Store_Process pid (store w)")
    case None
    then have "rows_of pid (store w) = {}" using Store_Process_row [OF ok] by (auto simp: rows_of_def)
    with None keep show ?thesis
      by (intro exI [of _ "store w"]) (simp add: removeSettled_def query_calm [OF calm] returnD_def)
  next
    case (Some p)
    then have p: "p \<in> set (processes (store w))" "process_id p = pid"
      by (auto simp: Store_Process_def GetProcess_iff [OF ok])
    let ?sid = "supervisor_instance_id p"
    let ?db = "delete_processes (owned pid ?sid) (store w)"
    show ?thesis
    proof (cases "local_closed p \<and> server_released p \<and> settled pid (store w)")
      case True
      then have none': "Store_Actions pid (store w) = []" using Store_Actions_set [of pid "store w"] by (simp add: settled_def)
      have "CountProcessActions pid (store w) = 0" "CountUnsettledProcessReports pid (store w) = 0"
        using True by (auto simp: settled_def CountProcessActions_def CountUnsettledProcessReports_def actions_of_def
            reports_of_def)
      then have "DeleteClosedAfterArtifacts pid ?sid (store w) = Inr ?db"
        using True Some by (simp add: DeleteClosedAfterArtifacts_def processTx_def Store_Process_def DeleteProcess_def)
      then have op: "operate (env_codec env) (OpDeleteClosed pid ?sid) w = (Inr (), w\<lparr>store := ?db\<rparr>)"
        by (simp add: operate_calm [OF calm] finished_def)
      have "removeSettled env pid w = (Inr (), w\<lparr>store := ?db\<rparr>)"
        using True Some none none' op ReportsForProcess_settled [of pid "store w"]
        by (simp add: removeSettled_def query_calm [OF calm] artifacts_calm [OF calm] tryD_def settled_def
            update_processes_map_def removeProcessInstance_def lookup_runtime_def)
      moreover have "rows_of pid ?db = {}" using delete_rows [OF ok p(1)] p(2) by simp
      ultimately show ?thesis by blast
    next
      case False
      then have "removeSettled env pid w = (Inr (), w)"
        using Some Store_Actions_set [of pid "store w"] ReportsForProcess_settled [of pid "store w"]
        by (auto simp: removeSettled_def query_calm [OF calm] settled_def returnD_def)
      moreover have "p \<in> rows_of pid (store w)" using p by (simp add: rows_of_def)
      ultimately show ?thesis using False keep by (intro exI [of _ "store w"]) auto
    qed
  qed
qed

lemma remove_settled_step:
  assumes "idle env w"
  obtains w' where "removeSettled env pid w = (Inr (), w')" "idle env w'" "fresh_ids w \<Longrightarrow> fresh_ids w'"
    "ids w' = ids w" "elsewhere_same pid (store w) (store w')" "rows_of pid (store w') \<subseteq> rows_of pid (store w)"
    "settled pid (store w) \<Longrightarrow> (\<forall>p \<in> rows_of pid (store w). local_closed p \<and> server_released p) \<Longrightarrow>
       rows_of pid (store w') = {}"
proof -
  from remove_settled_calm [OF assms, of pid] obtain db' where
    r: "removeSettled env pid w = (Inr (), w\<lparr>store := db'\<rparr>)"
    "db' = store w \<or> (\<exists>sid. db' = delete_processes (owned pid sid) (store w))"
    "settled pid (store w) \<and> (\<forall>p \<in> rows_of pid (store w). local_closed p \<and> server_released p) \<longrightarrow> rows_of pid db' = {}"
    by blast
  have ok: "schema_ok (store w)" using assms by (auto simp: idle_def dest: db_invD(1))
  from r(2) have "idle env (w\<lparr>store := db'\<rparr>)" using assms idle_delete [OF assms] by auto
  moreover from r(2) have "elsewhere_same pid (store w) db'" using elsewhere_delete_processes [OF ok] by auto
  moreover from r(2) have "rows_of pid db' \<subseteq> rows_of pid (store w)" by (auto simp: rows_of_def delete_processes_sets)
  moreover from r(2) have "fresh_ids (w\<lparr>store := db'\<rparr>)" if "fresh_ids w"
    using that by (auto simp: fresh_ids_def delete_processes_reports [OF ok])
  ultimately show thesis using r(1,3) by (intro that [of "w\<lparr>store := db'\<rparr>"]) auto
qed

section \<open>The two finalisations\<close>

text \<open>The first finalisation closes every released process that can be recovered.\<close>

definition closable :: "daemon_env \<Rightarrow> (nat \<Rightarrow> string) \<Rightarrow> statedb \<Rightarrow> process \<Rightarrow> bool" where
  "closable env rids db p \<longleftrightarrow> server_released p \<and> (local_closed p \<or> recoverable env rids db p)"

lemma finalize_closes:
  assumes w: "poised env w" and p: "p \<in> set (processes (store w))" and c: "closable env (ids w) (store w) p"
  shows "\<exists>w'. finalizeReleased env p w = (Inr (), w') \<and> poised env w' \<and> ids w' = ids w
     \<and> elsewhere_same (process_id p) (store w) (store w') \<and> closed_in p (store w')"
proof -
  let ?go = "if local_closed p then returnD True else closeReleased env p"
  have calm: "calm w" and inv: "db_inv (env_codec env) (store w)" and none: "client_processes w = []"
    using w by (auto simp: poised_def idle_def)
  have "\<exists>w1. ?go w = (Inr True, w1) \<and> poised env w1 \<and> ids w1 = ids w
     \<and> elsewhere_same (process_id p) (store w) (store w1) \<and> closed_in p (store w1)"
  proof (cases "local_closed p")
    case True
    then have "phase p = ProcessTerminal" using db_invD(2) [OF inv p] by (auto simp: proc_inv_def)
    with True have "closed_in p (store w)"
      using closed_in_row [OF db_invD(1) [OF inv] p] by (simp add: closed_row_def)
    with True w show ?thesis by (simp add: returnD_def)
  next
    case False
    then have "recoverable env (ids w) (store w) p" using c by (simp add: closable_def)
    then obtain w1 where w1: "recoverStoppedReleasedProcess env (process_id p) (supervisor_instance_id p) True w = (Inr (), w1)"
      "poised env w1" "ids w1 = ids w" "elsewhere_same (process_id p) (store w) (store w1)" "closed_in p (store w1)"
      using recover_calm [OF w p] by blast
    then have "calm w1" by (simp add: poised_def idle_def)
    then have "?go w = (Inr True, w1)"
      using False none w1(1) external_calm [OF calm]
      by (simp add: closeReleased_def lookup_runtime_def recoverLocked_def tryD_def external_calm returnD_def)
    with w1 show ?thesis by blast
  qed
  then obtain w1 where w1: "?go w = (Inr True, w1)" "poised env w1" "ids w1 = ids w"
    "elsewhere_same (process_id p) (store w) (store w1)" "closed_in p (store w1)" by blast
  have idle: "idle env w1" using w1(2) by (simp add: poised_def)
  obtain w2 where w2: "removeSettled env (process_id p) w1 = (Inr (), w2)" "idle env w2" "fresh_ids w1 \<Longrightarrow> fresh_ids w2"
    "ids w2 = ids w1" "elsewhere_same (process_id p) (store w1) (store w2)"
    "rows_of (process_id p) (store w2) \<subseteq> rows_of (process_id p) (store w1)"
    using remove_settled_step [OF idle, of "process_id p"] by metis
  have "finalizeReleased env p w = (Inr (), w2)"
    using c w1(1) w2(1) by (simp add: finalizeReleased_def closable_def)
  moreover have "poised env w2" using w1(2) w2(2,3) by (simp add: poised_def)
  moreover have "closed_in p (store w2)" using w1(5) w2(6) by (auto simp: closed_in_def)
  ultimately show ?thesis using w1(3,4) w2(4,5) elsewhere_trans by auto
qed

text \<open>The second one removes every closed process whose work is settled.\<close>

definition removable :: "(nat \<Rightarrow> string) \<Rightarrow> statedb \<Rightarrow> process \<Rightarrow> bool" where
  "removable rids db p \<longleftrightarrow> server_released p \<and> local_closed p \<and> settled (process_id p) db"

lemma finalize_removes:
  assumes w: "idle env w" and p: "p \<in> set (processes (store w))" and c: "removable (ids w) (store w) p"
  shows "\<exists>w'. finalizeReleased env p w = (Inr (), w') \<and> idle env w' \<and> ids w' = ids w
     \<and> elsewhere_same (process_id p) (store w) (store w') \<and> rows_of (process_id p) (store w') = {}"
proof -
  have ok: "schema_ok (store w)" using w by (auto simp: idle_def dest: db_invD(1))
  have "rows_of (process_id p) (store w) = {p}"
    using p process_unique [OF ok _ p] by (auto simp: rows_of_def)
  moreover obtain w' where "removeSettled env (process_id p) w = (Inr (), w')" "idle env w'" "ids w' = ids w"
    "elsewhere_same (process_id p) (store w) (store w')"
    "settled (process_id p) (store w) \<Longrightarrow> (\<forall>q \<in> rows_of (process_id p) (store w). local_closed q \<and> server_released q) \<Longrightarrow>
       rows_of (process_id p) (store w') = {}"
    using remove_settled_step [OF w, of "process_id p"] by metis
  ultimately show ?thesis using c by (auto simp: removable_def finalizeReleased_def)
qed

lemma recoverable_local: "same_for (process_id p) db db' \<Longrightarrow> recoverable env i db p \<Longrightarrow> recoverable env i db' p"
proof -
  have eq: "recoverable env i db p \<longleftrightarrow>
     (containment_empty p \<or> \<not> exec_committed p \<or> containment_kind p \<noteq> [] \<and> Atoi (containment_id p) \<noteq> None)
   \<and> (\<forall>a \<in> actions_of (process_id p) db. encodable env i (unknown_action_event (process_id p) (action_id a)))
   \<and> (case final_output env p of (st, reason, msg, out) \<Rightarrow>
        (case marshal_result env st out msg of
           None \<Rightarrow> False
         | Some res \<Rightarrow> encodable env i (terminal_event (process_id p) st reason msg res)))" for db
    by (auto simp: recoverable_def list_all_iff actions_of_def)
  show "same_for (process_id p) db db' \<Longrightarrow> recoverable env i db p \<Longrightarrow> recoverable env i db' p"
    unfolding eq same_for_def by simp
qed

interpretation closing: row_loop "finalizeReleased env" "poised env" "closable env" closed_in
proof
  fix w p assume "poised env w" "p \<in> set (processes (store w))" "closable env (ids w) (store w) p"
  then show "\<exists>w'. finalizeReleased env p w = (Inr (), w') \<and> poised env w' \<and> ids w' = ids w
     \<and> elsewhere_same (process_id p) (store w) (store w') \<and> closed_in p (store w')" by (rule finalize_closes)
qed (auto simp: closable_def closed_in_def same_for_def [symmetric] intro: recoverable_local, simp add: same_for_def)

interpretation removing: row_loop "finalizeReleased env" "idle env" removable "\<lambda>p db. rows_of (process_id p) db = {}"
proof
  fix w p assume "idle env w" "p \<in> set (processes (store w))" "removable (ids w) (store w) p"
  then show "\<exists>w'. finalizeReleased env p w = (Inr (), w') \<and> idle env w' \<and> ids w' = ids w
     \<and> elsewhere_same (process_id p) (store w) (store w') \<and> rows_of (process_id p) (store w') = {}" by (rule finalize_removes)
qed (auto simp: removable_def settled_def same_for_def)

lemma finalize_calm:
  assumes "idle env w"
  shows "finalizeReleasedProcesses env w = forD (Store_Processes (store w)) (finalizeReleased env) w"
  using assms by (simp add: finalizeReleasedProcesses_def idle_def external_calm query_calm cleanupProcesses_def returnD_def)

lemma Store_Processes_rows:
  assumes "schema_ok db"
  shows "set (Store_Processes db) = set (processes db)" "distinct (map process_id (Store_Processes db))"
proof -
  show "set (Store_Processes db) = set (processes db)" by (simp add: Store_Processes_def ListProcesses_def)
  have "distinct (map process_id (processes db))" using assms by (simp add: schema_ok_def keys_ok_def)
  then show "distinct (map process_id (Store_Processes db))"
    by (simp add: Store_Processes_def ListProcesses_def distinct_map)
qed

lemma finalize_all_closed:
  assumes w: "poised env w" and c: "\<forall>p \<in> set (processes (store w)). closable env (ids w) (store w) p"
  shows "\<exists>w'. finalizeReleasedProcesses env w = (Inr (), w') \<and> poised env w'
     \<and> (\<forall>p' \<in> set (processes (store w')). local_closed p' \<and> server_released p')"
proof -
  have ok: "schema_ok (store w)" and idle: "idle env w" using w by (auto simp: poised_def idle_def dest: db_invD(1))
  note rows = Store_Processes_rows [OF ok]
  obtain w' where w': "forD (Store_Processes (store w)) (finalizeReleased env) w = (Inr (), w')" "poised env w'"
    "\<forall>q. q \<notin> process_id ` set (processes (store w)) \<longrightarrow> same_for q (store w) (store w')"
    "\<forall>p \<in> set (processes (store w)). closed_in p (store w')"
    using closing.loop [OF w rows(2)] c unfolding rows(1) by blast
  have "local_closed p' \<and> server_released p'" if p': "p' \<in> set (processes (store w'))" for p'
  proof -
    have "process_id p' \<in> process_id ` set (processes (store w))"
      using w'(3) p' by (fastforce simp: same_for_def rows_of_def)
    then obtain p where p: "p \<in> set (processes (store w))" "process_id p' = process_id p" by auto
    with w'(4) p' have "closed_row p p'" by (auto simp: closed_in_def rows_of_def)
    then show ?thesis using c p(1) by (simp add: closed_row_def closable_def)
  qed
  then show ?thesis using w'(1,2) finalize_calm [OF idle] by auto
qed

lemma finalize_all_removed:
  assumes w: "idle env w" and c: "\<forall>p \<in> set (processes (store w)). removable (ids w) (store w) p"
  shows "\<exists>w'. finalizeReleasedProcesses env w = (Inr (), w') \<and> idle env w' \<and> processes (store w') = []"
proof -
  have ok: "schema_ok (store w)" using w by (auto simp: idle_def dest: db_invD(1))
  note rows = Store_Processes_rows [OF ok]
  obtain w' where w': "forD (Store_Processes (store w)) (finalizeReleased env) w = (Inr (), w')" "idle env w'"
    "\<forall>q. q \<notin> process_id ` set (processes (store w)) \<longrightarrow> same_for q (store w) (store w')"
    "\<forall>p \<in> set (processes (store w)). rows_of (process_id p) (store w') = {}"
    using removing.loop [OF w rows(2)] c unfolding rows(1) by blast
  have "rows_of q (store w') = {}" for q
    using w'(3,4) by (cases "q \<in> process_id ` set (processes (store w))") (auto simp: same_for_def rows_of_def)
  then have "processes (store w') = []" by (cases "processes (store w')") (auto simp: rows_of_def)
  with w' finalize_calm [OF w] show ?thesis by simp
qed

section \<open>From release to removal\<close>

definition all_closed :: "statedb \<Rightarrow> bool" where
  "all_closed db \<longleftrightarrow> (\<forall>p \<in> set (processes db). local_closed p \<and> server_released p)"

lemma all_closed_reported:
  assumes "db_inv codec db" "all_closed db"
  shows "all_reported db"
  unfolding all_reported_def
proof
  fix a assume a: "a \<in> set (process_actions db)"
  then obtain p where p: "p \<in> set (processes db)" "process_id p = action_process_id a"
    using schema_ok_action_process [OF db_invD(1) [OF assms(1)]] by blast
  then have "local_closed p" using assms(2) by (simp add: all_closed_def)
  with db_invD(2) [OF assms(1) p] a have "reported (reports_of (action_process_id a) db) a"
    by (auto simp: proc_inv_def actions_of_def)
  then show "reported (set (frozen_reports db)) a" by (rule reported_mono) (auto simp: reports_of_def)
qed

lemma drains_all_closed:
  assumes inv: "db_inv codec db" and d: "drains codec db Rs db'" and closed: "all_closed db"
  shows "all_closed db'"
  unfolding all_closed_def
proof
  fix p' assume p': "p' \<in> set (processes db')"
  then have "process_id p' \<in> process_id ` set (processes db)" using d by (auto simp: drains_def)
  then obtain p where p: "p \<in> set (processes db)" "process_id p' = process_id p" by auto
  have "advances (process_id p) db db'" using d by (simp add: drains_def)
  then obtain q where q: "q \<in> set (processes db')" "process_id q = process_id p" "grows p q"
    using p(1) by (auto simp: advances_def moves_def)
  have "schema_ok db'" using d inv by (auto simp: drains_def dest: db_invD(1))
  then have "q = p'" using q(1,2) p' p(2) process_unique by metis
  with q(3) p(1) closed show "local_closed p' \<and> server_released p'" by (auto simp: all_closed_def grows_def)
qed

lemma all_settled:
  assumes "db_inv codec db" "all_reported db" "unsettled db = {}"
  shows "process_actions db = []" "settled pid db"
proof -
  have no: "report_action_id r = None" if "r \<in> set (frozen_reports db)" for r
    using that assms(3) schema_okD(3) [OF db_invD(1) [OF assms(1)] that] by (auto simp: unsettled_def report_check_def)
  show as: "process_actions db = []"
  proof (rule ccontr)
    assume "process_actions db \<noteq> []"
    then obtain a where "a \<in> set (process_actions db)" by (meson last_in_set)
    with assms(2) obtain r where "r \<in> set (frozen_reports db)" "report_action_id r = Some (action_id a)"
      by (auto simp: all_reported_def reported_def)
    with no show False by force
  qed
  with assms(3) show "settled pid db" by (auto simp: settled_def actions_of_def reports_of_def unsettled_def)
qed

lemma released_removed:
  assumes w: "poised env w" and c: "\<forall>p \<in> set (processes (store w)). closable env (ids w) (store w) p"
  shows "\<exists>w1. finalizeReleasedProcesses env w = (Inr (), w1) \<and>
     (\<forall>forced rounds. (\<forall>r \<in> unsettled (store w1). report_state r = ReportRejected \<longrightarrow> report_id r \<in> set forced)
        \<and> list_all accepting rounds \<and> card (unsettled (store w1)) \<le> length rounds \<longrightarrow>
        (\<exists>w3. finalizeReleasedProcesses env (snd (replayReportOutbox (env_codec env) rounds forced w1)) = (Inr (), w3)
           \<and> processes (store w3) = []))"
proof -
  from finalize_all_closed [OF w c] obtain w1 where w1: "finalizeReleasedProcesses env w = (Inr (), w1)"
    "poised env w1" "all_closed (store w1)" by (auto simp: all_closed_def)
  have calm: "calm w1" and inv: "db_inv (env_codec env) (store w1)" and none: "client_processes w1 = []"
    using w1(2) by (auto simp: poised_def idle_def)
  note rep = all_closed_reported [OF inv w1(3)]
  have "\<exists>w3. finalizeReleasedProcesses env (snd (replayReportOutbox (env_codec env) rounds forced w1)) = (Inr (), w3)
      \<and> processes (store w3) = []"
    if f: "\<forall>r \<in> unsettled (store w1). report_state r = ReportRejected \<longrightarrow> report_id r \<in> set forced"
      and rounds: "list_all accepting rounds" "card (unsettled (store w1)) \<le> length rounds" for forced rounds
  proof -
    have "sendable forced w1"
      using f unsettledD(2) [OF inv] none by (auto simp: sendable_def cleanup_process_def lookup_runtime_def)
    then obtain db2 where db2: "snd (replayReportOutbox (env_codec env) rounds forced w1) = w1\<lparr>store := db2\<rparr>"
      "drains (env_codec env) (store w1) (unsettled (store w1)) db2"
      using outbox_drained [OF inv calm rep _ rounds] by blast
    then have left: "db_inv (env_codec env) db2" "all_reported db2" "unsettled db2 = {}"
      using inv rep by (simp_all add: drains_def)
    have "idle env (w1\<lparr>store := db2\<rparr>)" using calm none left(1) by (simp add: idle_def)
    moreover have "removable i db2 p" if "p \<in> set (processes db2)" for p i
      using drains_all_closed [OF inv db2(2) w1(3)] that all_settled(2) [OF left]
      by (simp add: removable_def all_closed_def)
    ultimately show ?thesis using finalize_all_removed [of env "w1\<lparr>store := db2\<rparr>"] unfolding db2(1) by auto
  qed
  with w1(1) show ?thesis by blast
qed

section \<open>Recovery and finalisation under faults and interference\<close>

lemmas traced_closeRejected = recovery_traces.keeps_closeRejected
lemmas traced_recover = recovery_traces.keeps_recover
lemmas traced_steps = traced_bindD traced_tryD recovery_traces.keeps_orElse traced_returnD traced_failD traced_external
  traced_query traced_newReportID recovery_traces.keeps_marshalD recovery_traces.keeps_acquireLock
  recovery_traces.keeps_artifacts traced_update_processes_map

lemma traced_cleanup: "traced (env_codec env) (cleanupRuntime env runtime)"
proof -
  have "traced (env_codec env) (closeStorageExhaustedProcess env runtime)"
    unfolding closeStorageExhaustedProcess_def terminateForCleanup_def removeExhausted_def
    by (intro traced_steps) (auto intro!: traced_steps traced_operate split: option.split)
  then show ?thesis unfolding cleanupRuntime_def Let_def
    by (intro traced_steps) (auto intro!: traced_steps traced_closeRejected split: sum.split option.split)
qed

lemma traced_finalize: "traced (env_codec env) (finalizeReleasedProcesses env)"
proof -
  have locked: "traced (env_codec env) (recoverLocked env p)" for p
    unfolding recoverLocked_def
    by (intro traced_steps) (auto intro!: traced_steps traced_recover split: sum.split)
  have "traced (env_codec env) (closeReleased env p)" for p
  proof -
    have "traced (env_codec env) (bindD (tryD external) (\<lambda>probe.
              case probe of
                Inr _ \<Rightarrow> returnD False
              | Inl _ \<Rightarrow>
                  bindD (update_processes_map (removeProcessInstance (process_id p) (supervisor_instance_id p)))
                    (\<lambda>_. recoverLocked env p)))"
      by (intro traced_steps) (auto intro!: traced_steps locked split: sum.split)
    with locked [of p] show ?thesis unfolding closeReleased_def traced_def
      by (auto split: option.split simp: follows_refl simp del: bindD_simps)
  qed
  moreover have "traced (env_codec env) (removeSettled env pid)" for pid
    unfolding removeSettled_def
    by (intro traced_steps) (auto intro!: traced_steps traced_operate split: option.split sum.split)
  ultimately have "traced (env_codec env) (finalizeReleased env p)" for p
    unfolding finalizeReleased_def by (auto intro!: traced_steps)
  moreover have "traced (env_codec env) (\<lambda>w. (Inr (cleanupProcesses (client_processes w)), w))"
    by (auto simp: traced_def follows_refl)
  ultimately show ?thesis unfolding finalizeReleasedProcesses_def
    by (intro traced_steps traced_forD traced_cleanup)
qed

end
