(* ===== verification/Reconciliation_Protocol.thy ===== *)
theory Reconciliation_Protocol
  imports Daemon_Protocol
begin

text \<open>
  What the machine daemon and the backend exchange when the daemon registers
  (\<open>src/internal/daemonprotocol/protocol.go\<close>, \<open>src/internal/machinedaemon/runtime_types.go\<close> and
  \<open>src/internal/storage/executionstore/daemon_runtime_types.go\<close>): the daemon claims, per local
  process, how far it got; the backend answers with a directive per claim.  An identifier is a
  string on both sides, and the nil UUID is the empty one.
\<close>

datatype wire_phase = Phase process_phase | PhaseOther string

datatype action_position =
    ActionPositionEffectCommitted | ActionPositionTerminal | ActionPositionOther string

datatype process_disposition =
    ProcessDispositionClosePreparation | ProcessDispositionStart | ProcessDispositionRetain
  | ProcessDispositionRelease | ProcessDispositionOther string

datatype action_disposition =
    ActionDispositionApply | ActionDispositionRetain | ActionDispositionSettle
  | ActionDispositionRelease | ActionDispositionOther string

record action_claim =
  ac_id :: string
  ac_kind :: process_action_kind
  ac_seq :: int
  ac_position :: action_position

record process_claim =
  pc_process_id :: string
  pc_supervisor_instance_id :: string
  pc_phase :: wire_phase
  pc_live :: bool
  pc_exec_committed :: bool
  pc_admission_closed :: bool
  pc_resolved_seq :: int
  pc_actions :: "action_claim list"

record action_directive =
  ad_id :: string
  ad_kind :: process_action_kind
  ad_seq :: int
  ad_payload :: bytes
  ad_disposition :: action_disposition

record process_directive =
  pd_process_id :: string
  pd_supervisor_instance_id :: string
  pd_disposition :: process_disposition
  pd_actions :: "action_directive list"

end
