(* ===== verification/Daemon_Registration.thy ===== *)
theory Daemon_Registration
  imports Daemon_Removal Reconciliation_Protocol
begin

text \<open>
  The daemon's side of a registration (\<open>src/internal/machinedaemon/reconciliation.go\<close> and
  \<open>registerWithRetry\<close> of \<open>client.go\<close>): the scan that claims every local process, and what the
  server's directives do.

  A function that changes its \<open>localStartupState\<close> in place is a function of that state and the world;
  the state is kept when it fails, because the caller releases the locks and fences it holds.  A
  runner is the handle of a live supervisor: the model keeps whether it has answered that its
  storage-exhaustion report is ready, which any of its calls may reveal.
\<close>

section \<open>The startup state\<close>

record process_action =
  pa_id :: string
  pa_kind :: process_action_kind
  pa_seq :: int
  pa_payload :: bytes

record localStartupState =
  Claims :: "process_claim list"
  Runners :: runtimes
  StartActions :: "(string \<times> process_action) list"
  ForcedReports :: "string list"
  stoppedLocks :: "string list"
  fencedRunners :: "string list"

definition no_startup :: localStartupState where
  "no_startup = \<lparr>Claims = [], Runners = [], StartActions = [], ForcedReports = [], stoppedLocks = [], fencedRunners = []\<rparr>"

type_synonym 'a starting = "localStartupState \<Rightarrow> world \<Rightarrow> (daemon_error + 'a) \<times> localStartupState \<times> world"

definition returnS :: "'a \<Rightarrow> 'a starting" where
  "returnS x = (\<lambda>s w. (Inr x, s, w))"

definition failS :: "daemon_error \<Rightarrow> 'a starting" where
  "failS e = (\<lambda>s w. (Inl e, s, w))"

definition bindS :: "'a starting \<Rightarrow> ('a \<Rightarrow> 'b starting) \<Rightarrow> 'b starting" where
  "bindS m f = (\<lambda>s w. case m s w of (Inl e, s', w') \<Rightarrow> (Inl e, s', w') | (Inr x, s', w') \<Rightarrow> f x s' w')"

text \<open>A call that does not touch the startup state, and reading and changing it.\<close>

definition callS :: "'a daemon \<Rightarrow> 'a starting" where
  "callS m = (\<lambda>s w. case m w of (r, w') \<Rightarrow> (r, s, w'))"

definition getS :: "(localStartupState \<Rightarrow> 'a) \<Rightarrow> 'a starting" where
  "getS f = (\<lambda>s w. (Inr (f s), s, w))"

definition modifyS :: "(localStartupState \<Rightarrow> localStartupState) \<Rightarrow> unit starting" where
  "modifyS f = (\<lambda>s w. (Inr (), f s, w))"

fun forS :: "'a list \<Rightarrow> ('a \<Rightarrow> unit starting) \<Rightarrow> unit starting" where
  "forS [] f = returnS ()"
| "forS (x # xs) f = bindS (f x) (\<lambda>_. forS xs f)"

text \<open>A call whose error is dropped.\<close>

definition ignoreD :: "unit daemon \<Rightarrow> unit daemon" where
  "ignoreD m = bindD (tryD m) (\<lambda>_. returnD ())"

definition releaseLocks :: "unit starting" where
  "releaseLocks = bindS (getS stoppedLocks) (\<lambda>ls. bindS (callS (forD ls (\<lambda>_. ignoreD external)))
     (\<lambda>_. modifyS (\<lambda>s. s\<lparr>stoppedLocks := []\<rparr>)))"

definition releaseFences :: "unit starting" where
  "releaseFences = bindS (getS fencedRunners) (\<lambda>fs. bindS (callS (forD fs (\<lambda>_. ignoreD external)))
     (\<lambda>_. modifyS (\<lambda>s. s\<lparr>fencedRunners := []\<rparr>)))"

definition releaseResources :: "unit starting" where
  "releaseResources = bindS releaseFences (\<lambda>_. releaseLocks)"

text \<open>\<open>defer\<close>: the deferred call runs on both ways out and does not change the result.\<close>

definition deferS :: "unit starting \<Rightarrow> 'a starting \<Rightarrow> 'a starting" where
  "deferS d m = (\<lambda>s w. case m s w of (r, s1, w1) \<Rightarrow> (case d s1 w1 of (_, s2, w2) \<Rightarrow> (r, s2, w2)))"

text \<open>\<open>if failed { ... }\<close> in a deferred function.\<close>

definition on_failS :: "unit starting \<Rightarrow> 'a starting \<Rightarrow> 'a starting" where
  "on_failS d m = (\<lambda>s w. case m s w of
     (Inl e, s1, w1) \<Rightarrow> (case d s1 w1 of (_, s2, w2) \<Rightarrow> (Inl e, s2, w2))
   | (Inr x, s1, w1) \<Rightarrow> (Inr x, s1, w1))"

section \<open>Supervisors\<close>

text \<open>A call of a runner: an answer that its terminal report is ready marks the runner.\<close>

definition mark_ready :: "string \<Rightarrow> localStartupState \<Rightarrow> localStartupState" where
  "mark_ready pid s = s\<lparr>Runners := map (\<lambda>(i, r). (i, if i = pid
     then r\<lparr>rt_runner := map_option (\<lambda>n. n\<lparr>storageFailureReady := True\<rparr>) (rt_runner r)\<rparr> else r)) (Runners s)\<rparr>"

definition runner_call :: "string \<Rightarrow> (daemon_error + unit) starting" where
  "runner_call pid = bindS (callS (tryD external)) (\<lambda>res.
     case res of
       Inr _ \<Rightarrow> returnS res
     | Inl e \<Rightarrow> if is_err e ErrTerminalReady then bindS (modifyS (mark_ready pid)) (\<lambda>_. returnS res) else returnS res)"

datatype inspection = Stopped | Live runner

definition failed_probe :: "daemon_error \<Rightarrow> inspection daemon" where
  "failed_probe probeErr =
     (if is_err probeErr ErrRunnerIdentityMismatch then failD probeErr
      else bindD (tryD external) (\<lambda>recheck. case recheck of
        Inr _ \<Rightarrow> bindD (ignoreD external) (\<lambda>_. failD (Joined ErrLocalStateChanged probeErr))
      | Inl e \<Rightarrow>
          if is_err e ErrNotExist then failD (Joined ErrLocalStateChanged probeErr)
          else if is_err e ErrLockHeld then failD (Joined ErrProbeUnavailable probeErr)
          else failD e))"

definition currentLocalProcessState :: "daemon_env \<Rightarrow> string \<Rightarrow> process option daemon" where
  "currentLocalProcessState env processID =
     bindD external (\<lambda>_. query (env_codec env) (Store_Process processID))"

definition missing_lock :: "daemon_env \<Rightarrow> process \<Rightarrow> inspection daemon" where
  "missing_lock env process =
     (if \<not> local_closed process \<and> (phase process = ProcessAccepted \<or> phase process = ProcessTerminal)
      then bindD (currentLocalProcessState env (process_id process)) (\<lambda>found.
        if (case found of
              None \<Rightarrow> True
            | Some current \<Rightarrow> supervisor_instance_id current \<noteq> supervisor_instance_id process
                \<or> phase current \<noteq> phase process \<or> local_closed current \<noteq> local_closed process)
        then failD ErrLocalStateChanged
        else failD (ErrMessage ''process is missing its lifetime lock''))
      else bindD external (\<lambda>_. returnD Stopped))"

definition inspectLocalSupervisor :: "daemon_env \<Rightarrow> process \<Rightarrow> inspection daemon" where
  "inspectLocalSupervisor env process =
     bindD external (\<lambda>_.
     bindD (tryD external) (\<lambda>lock. case lock of
       Inr _ \<Rightarrow> returnD Stopped
     | Inl e \<Rightarrow>
         if is_err e ErrLockHeld
         then bindD external (\<lambda>_. bindD (tryD external) (\<lambda>probe. case probe of
                Inr _ \<Rightarrow> returnD (Live \<lparr>runner_done = False, storageFailureReady = False\<rparr>)
              | Inl probeErr \<Rightarrow>
                  if is_err probeErr ErrTerminalReady
                  then returnD (Live \<lparr>runner_done = False, storageFailureReady = True\<rparr>)
                  else failed_probe probeErr))
         else if is_err e ErrNotExist then missing_lock env process
         else failD e))"

section \<open>The scan\<close>

definition runtime_of :: "process \<Rightarrow> runner \<Rightarrow> process_runtime" where
  "runtime_of process n =
     \<lparr>rt_process_id = process_id process, rt_supervisor_instance_id = supervisor_instance_id process,
      rt_runner = Some n, cleanupOnly = False, storageFailureReporting = False\<rparr>"

definition inspect_process :: "daemon_env \<Rightarrow> process \<Rightarrow> unit starting" where
  "inspect_process env process =
     bindS (callS (inspectLocalSupervisor env process)) (\<lambda>found. modifyS (\<lambda>s. case found of
        Live n \<Rightarrow> s\<lparr>fencedRunners := process_id process # fencedRunners s,
                    Runners := set_runtime (runtime_of process n) (Runners s)\<rparr>
      | Stopped \<Rightarrow> s\<lparr>stoppedLocks := process_id process # stoppedLocks s\<rparr>))"

definition action_claim_of :: "action_snapshot \<Rightarrow> daemon_error + action_claim" where
  "action_claim_of localAction =
     (let action = Action localAction
      in if Reported localAction
         then Inr \<lparr>ac_id = action_id action, ac_kind = action_kind action, ac_seq = action_seq action,
                   ac_position = ActionPositionTerminal\<rparr>
         else if \<not> effect_committed action
         then Inl (ErrMessage ''action has neither effect nor terminal evidence'')
         else Inr \<lparr>ac_id = action_id action, ac_kind = action_kind action, ac_seq = action_seq action,
                   ac_position = ActionPositionEffectCommitted\<rparr>)"

definition claim_of :: "(string \<Rightarrow> bool) \<Rightarrow> process_snapshot \<Rightarrow> daemon_error + process_claim" where
  "claim_of live snap =
     (let process = Process snap
      in bindE (mapE action_claim_of (Actions snap)) (\<lambda>actions.
           Inr \<lparr>pc_process_id = process_id process, pc_supervisor_instance_id = supervisor_instance_id process,
                pc_phase = Phase (phase process), pc_live = live (process_id process),
                pc_exec_committed = exec_committed process, pc_admission_closed = action_admission_closed process,
                pc_resolved_seq = resolved_action_seq process, pc_actions = actions\<rparr>))"

definition liftE :: "daemon_error + 'a \<Rightarrow> 'a starting" where
  "liftE r = (case r of Inl e \<Rightarrow> failS e | Inr x \<Rightarrow> returnS x)"

definition claim_process :: "process_snapshot \<Rightarrow> unit starting" where
  "claim_process snap =
     bindS (modifyS (\<lambda>s. s\<lparr>ForcedReports := RejectedReportIDs snap @ ForcedReports s\<rparr>)) (\<lambda>_.
     bindS (getS (\<lambda>s pid. lookup_runtime (Runners s) pid \<noteq> None)) (\<lambda>live.
     bindS (liftE (claim_of live snap)) (\<lambda>claim. modifyS (\<lambda>s. s\<lparr>Claims := Claims s @ [claim]\<rparr>))))"

definition same_identity :: "process \<Rightarrow> process \<Rightarrow> bool" where
  "same_identity p q \<longleftrightarrow> process_id p = process_id q
     \<and> supervisor_instance_id p = supervisor_instance_id q \<and> supervisor_token p = supervisor_token q"

definition snapshotD :: "report_codec \<Rightarrow> process_snapshot list daemon" where
  "snapshotD codec = tx codec (\<lambda>db. bindE (SnapshotForReconciliation db) (\<lambda>snaps. Inr (snaps, db)))"

definition check_status :: "string \<Rightarrow> unit starting" where
  "check_status pid = bindS (runner_call pid) (\<lambda>res. case res of
     Inr _ \<Rightarrow> returnS ()
   | Inl e \<Rightarrow> if is_err e ErrTerminalReady then returnS () else failS (Joined ErrLocalStateChanged e))"

definition scan_inventory :: "daemon_env \<Rightarrow> process list \<Rightarrow> unit starting" where
  "scan_inventory env inventory =
     bindS (forS inventory (inspect_process env)) (\<lambda>_.
     bindS (callS (snapshotD (env_codec env))) (\<lambda>snaps.
       if length snaps \<noteq> length inventory then failS ErrLocalStateChanged
       else if \<not> list_all2 same_identity inventory (map Process snaps) then failS ErrLocalStateChanged
       else bindS (forS snaps claim_process) (\<lambda>_.
            bindS (getS fencedRunners) (\<lambda>fenced.
            bindS (forS fenced check_status) (\<lambda>_.
              modifyS (\<lambda>s. s\<lparr>Claims := sort_key pc_process_id (Claims s)\<rparr>))))))"

definition scanLocalProcessesForRegistrationOnce :: "daemon_env \<Rightarrow> unit starting" where
  "scanLocalProcessesForRegistrationOnce env =
     bindS (callS external) (\<lambda>_.
     bindS (callS (query (env_codec env) Store_Processes)) (\<lambda>inventory.
     bindS (callS external) (\<lambda>_. on_failS releaseResources (scan_inventory env inventory))))"

text \<open>
  The loop around it, for at most \<open>n\<close> scans; \<open>None\<close> is the \<open>n\<close>-th scan having failed in a way that
  is tried again.
\<close>

fun scanLocalProcessesForRegistration ::
    "daemon_env \<Rightarrow> nat \<Rightarrow> world \<Rightarrow> ((daemon_error + localStartupState) \<times> world) option" where
  "scanLocalProcessesForRegistration env 0 w = None"
| "scanLocalProcessesForRegistration env (Suc n) w =
     (case scanLocalProcessesForRegistrationOnce env no_startup w of
        (Inr _, startup, w1) \<Rightarrow> Some (Inr startup, w1)
      | (Inl e, _, w1) \<Rightarrow>
          if is_err e ErrLocalStateChanged \<or> is_err e ErrProbeUnavailable
          then (case external w1 of
                  (Inl e', w2) \<Rightarrow> Some (Inl e', w2)
                | (Inr _, w2) \<Rightarrow> scanLocalProcessesForRegistration env n w2)
          else Some (Inl e, w1))"

section \<open>Applying directives\<close>

definition force_reports :: "string list \<Rightarrow> unit starting" where
  "force_reports rids = modifyS (\<lambda>s. s\<lparr>ForcedReports := rids @ ForcedReports s\<rparr>)"

definition applyActionDisposition :: "daemon_env \<Rightarrow> process_claim \<Rightarrow> action_directive \<Rightarrow> unit starting" where
  "applyActionDisposition env claim d =
     bindS (callS external) (\<lambda>_.
       case ad_disposition d of
         ActionDispositionRetain \<Rightarrow> returnS ()
       | ActionDispositionSettle \<Rightarrow>
           bindS (callS (query (env_codec env) (ReportBySlot ReportActionTerminal (pc_process_id claim) (ad_id d))))
             (\<lambda>found. case found of
                None \<Rightarrow> failS (ErrMessage ''server requested settlement without a frozen report'')
              | Some report \<Rightarrow> force_reports [ID report])
       | ActionDispositionRelease \<Rightarrow>
           callS (retryWhileStateDBBusy (env_codec env)
             (OpReleaseAction (pc_process_id claim) (pc_supervisor_instance_id claim) (ad_id d) (ad_seq d)))
       | ActionDispositionApply \<Rightarrow>
           bindS (getS (\<lambda>s. lookup_runtime (Runners s) (pc_process_id claim))) (\<lambda>runner.
             if runner = None
             then failS (ErrMessage ''server requested an action without its exact live supervisor'')
             else modifyS (\<lambda>s. s\<lparr>StartActions := StartActions s @ [(pc_process_id claim,
                \<lparr>pa_id = ad_id d, pa_kind = ad_kind d, pa_seq = ad_seq d, pa_payload = ad_payload d\<rparr>)]\<rparr>))
       | ActionDispositionOther _ \<Rightarrow> failS (ErrMessage ''unsupported action reconciliation directive''))"

definition processRuntimeStorageExhaustionReady :: "process_runtime option \<Rightarrow> bool" where
  "processRuntimeStorageExhaustionReady runtime =
     (case runtime of
        None \<Rightarrow> False
      | Some r \<Rightarrow> (case rt_runner r of None \<Rightarrow> False | Some n \<Rightarrow> storageFailureReady n))"

definition delete_runner :: "string \<Rightarrow> unit starting" where
  "delete_runner pid = modifyS (\<lambda>s. s\<lparr>Runners := delete_runtime pid (Runners s)\<rparr>)"

definition set_runner :: "process_runtime \<Rightarrow> unit starting" where
  "set_runner r = modifyS (\<lambda>s. s\<lparr>Runners := set_runtime r (Runners s)\<rparr>)"

text \<open>\<open>runner.runner = nil; runner.cleanupOnly = true\<close>.\<close>

definition retire_runner :: "string \<Rightarrow> unit starting" where
  "retire_runner pid = modifyS (\<lambda>s. s\<lparr>Runners := map (\<lambda>(i, r).
     (i, if i = pid then r\<lparr>rt_runner := None, cleanupOnly := True\<rparr> else r)) (Runners s)\<rparr>)"

definition cleanup_runtime_of :: "process_claim \<Rightarrow> process_runtime" where
  "cleanup_runtime_of claim =
     \<lparr>rt_process_id = pc_process_id claim, rt_supervisor_instance_id = pc_supervisor_instance_id claim,
      rt_runner = None, cleanupOnly = True, storageFailureReporting = False\<rparr>"

definition apply_close_preparation :: "daemon_env \<Rightarrow> process_claim \<Rightarrow> process_runtime option \<Rightarrow> unit starting" where
  "apply_close_preparation env claim runner =
     bindS (getS (\<lambda>s. pc_process_id claim \<in> set (stoppedLocks s))) (\<lambda>lock.
     bindS (modifyS (\<lambda>s. s\<lparr>stoppedLocks := removeAll (pc_process_id claim) (stoppedLocks s)\<rparr>)) (\<lambda>_.
     bindS (callS (closeRejectedPreparation env (pc_process_id claim) (pc_supervisor_instance_id claim) runner lock))
       (\<lambda>(cleanupPending, err).
         if cleanupPending then set_runner (cleanup_runtime_of claim)
         else case err of Some e \<Rightarrow> failS e | None \<Rightarrow> delete_runner (pc_process_id claim))))"

text \<open>The case \<open>start\<close>: whether the actions of the directive are to be applied.\<close>

definition start_failed :: "process_claim \<Rightarrow> daemon_error \<Rightarrow> bool starting" where
  "start_failed claim storageErr =
     bindS (runner_call (pc_process_id claim)) (\<lambda>terminated. case terminated of
       Inl e \<Rightarrow> if is_err e ErrTerminalReady then returnS False else failS e
     | Inr _ \<Rightarrow> failS storageErr)"

definition apply_start :: "daemon_env \<Rightarrow> process_claim \<Rightarrow> process_runtime option \<Rightarrow> bool starting" where
  "apply_start env claim runner =
     (if runner = None then failS (ErrMessage ''server requested start without its exact live supervisor'')
      else if processRuntimeStorageExhaustionReady runner then returnS False
      else bindS (callS (tryD (retryWhileStateDBBusy (env_codec env)
             (OpMarkAccepted (pc_process_id claim) (pc_supervisor_instance_id claim))))) (\<lambda>accepted.
        case accepted of
          Inl e \<Rightarrow> if isStorageExhaustion e then start_failed claim e else failS e
        | Inr _ \<Rightarrow>
            bindS (runner_call (pc_process_id claim)) (\<lambda>started. case started of
              Inr _ \<Rightarrow> returnS True
            | Inl e \<Rightarrow>
                if is_err e ErrTerminalReady then returnS False
                else if isStorageExhaustion e then start_failed claim e
                else failS e)))"

definition apply_release ::
    "daemon_env \<Rightarrow> process_claim \<Rightarrow> process_runtime option \<Rightarrow> action_directive list \<Rightarrow> unit starting" where
  "apply_release env claim runner actions =
     (let pid = pc_process_id claim; sid = pc_supervisor_instance_id claim;
          storageCleanup = processRuntimeStorageExhaustionReady runner
      in bindS (callS (tryD (retryWhileStateDBBusy (env_codec env) (OpMarkServerReleased pid sid)))) (\<lambda>released.
         case released of
           Inl e \<Rightarrow>
             if \<not> (storageCleanup \<and> is_err e ErrFull) then failS e
             else bindS (runner_call pid) (\<lambda>terminated. case terminated of
                    Inl e' \<Rightarrow> failS e' | Inr _ \<Rightarrow> retire_runner pid)
         | Inr _ \<Rightarrow>
             if storageCleanup
             then bindS (runner_call pid) (\<lambda>terminated. case terminated of
                    Inl e' \<Rightarrow> failS e' | Inr _ \<Rightarrow> retire_runner pid)
             else
               bindS (callS (query (env_codec env) (ReportsForProcess pid))) (\<lambda>reports.
               bindS (force_reports (map ID reports)) (\<lambda>_.
               bindS (forS actions (applyActionDisposition env claim)) (\<lambda>_.
                 if runner \<noteq> None
                 then bindS (runner_call pid) (\<lambda>terminated. case terminated of
                        Inl e' \<Rightarrow> failS e' | Inr _ \<Rightarrow> delete_runner pid)
                 else bindS (getS (\<lambda>s. pid \<in> set (stoppedLocks s))) (\<lambda>lock.
                      bindS (callS (tryD (recoverStoppedReleasedProcess env pid sid lock))) (\<lambda>_. returnS ())))))))"

definition applyProcessDisposition :: "daemon_env \<Rightarrow> process_claim \<Rightarrow> process_directive \<Rightarrow> unit starting" where
  "applyProcessDisposition env claim d =
     bindS (callS external) (\<lambda>_.
     bindS (getS (\<lambda>s. lookup_runtime (Runners s) (pc_process_id claim))) (\<lambda>runner.
       case pd_disposition d of
         ProcessDispositionClosePreparation \<Rightarrow> apply_close_preparation env claim runner
       | ProcessDispositionStart \<Rightarrow>
           bindS (apply_start env claim runner) (\<lambda>go_on.
             if go_on then forS (pd_actions d) (applyActionDisposition env claim) else returnS ())
       | ProcessDispositionRetain \<Rightarrow> forS (pd_actions d) (applyActionDisposition env claim)
       | ProcessDispositionRelease \<Rightarrow> apply_release env claim runner (pd_actions d)
       | ProcessDispositionOther _ \<Rightarrow> failS (ErrMessage ''unsupported process reconciliation directive'')))"

fun apply_directives :: "daemon_env \<Rightarrow> process_claim list \<Rightarrow> string list \<Rightarrow> process_directive list \<Rightarrow> unit starting" where
  "apply_directives env claims seen [] = returnS ()"
| "apply_directives env claims seen (d # ds) =
     (case find (\<lambda>c. pc_process_id c = pd_process_id d) claims of
        None \<Rightarrow> failS (ErrMessage ''server returned a disposition for an unknown supervisor instance'')
      | Some claim \<Rightarrow>
          if pd_supervisor_instance_id d \<noteq> pc_supervisor_instance_id claim
          then failS (ErrMessage ''server returned a disposition for an unknown supervisor instance'')
          else if pd_process_id d \<in> set seen
          then failS (ErrMessage ''server repeated a process disposition'')
          else bindS (applyProcessDisposition env claim d) (\<lambda>_.
                 apply_directives env claims (pd_process_id d # seen) ds))"

text \<open>The map \<open>claims\<close> is read newest first, as a later claim would overwrite an earlier one.\<close>

definition replace_client_processes :: "runtimes \<Rightarrow> unit daemon" where
  "replace_client_processes rs = update_processes_map (\<lambda>_. replaceProcesses rs)"

definition applyRegistrationReconciliation :: "daemon_env \<Rightarrow> process_directive list \<Rightarrow> unit starting" where
  "applyRegistrationReconciliation env directives =
     deferS releaseLocks (deferS releaseFences
       (bindS (getS Claims) (\<lambda>claims.
          if length directives \<noteq> length (remdups (map pc_process_id claims))
          then failS (ErrMessage ''wrong number of process directives'')
          else bindS (apply_directives env (rev claims) [] directives) (\<lambda>_.
               bindS (getS Runners) (\<lambda>rs. callS (replace_client_processes rs))))))"

section \<open>Registering\<close>

text \<open>
  One round of \<open>registerWithRetry\<close>: \<open>server\<close> answers the claims with an error or with directives.
\<close>

definition register_round ::
    "daemon_env \<Rightarrow> (process_claim list \<Rightarrow> daemon_error + process_directive list) \<Rightarrow> unit starting" where
  "register_round env server =
     on_failS releaseResources
       (bindS (getS Claims) (\<lambda>claims. bindS (liftE (server claims)) (applyRegistrationReconciliation env)))"

text \<open>
  A run of the loop is given by the server's answers, one per round; the end of the list is the end of
  the context, as is the check of the context or the pause that fails.  \<open>terminal\<close> tells the errors that are not tried again.
\<close>

fun registerWithRetry ::
    "daemon_env \<Rightarrow> nat \<Rightarrow> (daemon_error \<Rightarrow> bool) \<Rightarrow> (process_claim list \<Rightarrow> daemon_error + process_directive list) list
       \<Rightarrow> world \<Rightarrow> ((daemon_error + localStartupState) \<times> world) option" where
  "registerWithRetry env n terminal [] w = Some (Inl ContextDone, w)"
| "registerWithRetry env n terminal (server # rounds) w =
     (case scanLocalProcessesForRegistration env n w of
        None \<Rightarrow> None
      | Some (Inl e, w1) \<Rightarrow> Some (Inl e, w1)
      | Some (Inr startup, w1) \<Rightarrow>
          (case register_round env server startup w1 of
             (Inr _, startup', w2) \<Rightarrow> Some (Inr startup', w2)
           | (Inl e, _, w2) \<Rightarrow>
               (case external w2 of
                  (Inl e', w3) \<Rightarrow> Some (Inl e', w3)
                | (Inr _, w3) \<Rightarrow>
                    if terminal e then Some (Inl e, w3)
                    else case external w3 of
                           (Inl e', w4) \<Rightarrow> Some (Inl e', w4)
                         | (Inr _, w4) \<Rightarrow> registerWithRetry env n terminal rounds w4)))"

end
