(* ===== verification/Daemon_Frame.thy ===== *)
theory Daemon_Frame
  imports Daemon_Registration
begin

text \<open>
  What a daemon function that works on one process leaves alone when nothing interferes: the other
  processes, and the actions that are there (it may drop actions of its process, never record one).
\<close>

section \<open>Operations that record no action\<close>

definition fewer_actions :: "statedb \<Rightarrow> statedb \<Rightarrow> bool" where
  "fewer_actions db db' \<longleftrightarrow> set (process_actions db') \<subseteq> set (process_actions db)"

lemma fewer_touch [simp]: "fewer_actions db (touch pid sid f db)"
  by (simp add: fewer_actions_def)

lemma fewer_refl [simp]: "fewer_actions db db"
  by (simp add: fewer_actions_def)

lemma fewer_trans: "fewer_actions a b \<Longrightarrow> fewer_actions b c \<Longrightarrow> fewer_actions a c"
  by (auto simp: fewer_actions_def)

lemma fewer_update: "update_processes P f db = Inr (n, db') \<Longrightarrow> fewer_actions db db'"
  by (auto simp: update_processes_def checked_def fewer_actions_def split: if_splits)

lemma fewer_updateProcess: "updateProcess lbl (update_processes P f) db = Inr db' \<Longrightarrow> fewer_actions db db'"
  by (auto simp: updateProcess_def split: if_splits prod.splits dest!: fewer_update)

lemma fewer_delete: "fewer_actions db (delete_processes P db)"
  by (auto simp: fewer_actions_def delete_processes_sets)

lemma fewer_freeze:
  assumes "schema_ok db" "freezeReportTx codec rid q db = Inr (res, db')"
  shows "fewer_actions db db'"
  using assms by (cases rule: freezeReportTxE) (simp_all add: fewer_actions_def with_report_def)

lemma fewer_release:
  assumes "schema_ok db" "in_int64 seq" "releaseAction pid sid aid seq ab db = Inr db'"
  shows "fewer_actions db db' \<and> frozen_reports db' = frozen_reports db"
  using assms
proof (cases rule: releaseActionE)
  case (moves p)
  have "set (process_actions db') \<subseteq> set (process_actions db)" by (auto simp: moves(7) unrecorded_def)
  moreover have "filter (\<lambda>r. \<not> (\<exists>a \<in> set (process_actions db). action_id a = aid \<and> action_process_id a = pid
      \<and> report_action_id r = Some (action_id a))) (frozen_reports db) = frozen_reports db"
    using moves(6) by (auto simp: filter_id_conv)
  ultimately show ?thesis using moves(6)
    by (auto simp: fewer_actions_def moves(7) unrecorded_def delete_actions_def Let_def list_ex_iff filter_id_conv)
qed simp

lemma tends_fewer:
  assumes inv: "db_inv codec db" and t: "tends pid q" and r: "perform codec q db = Inr (ans, db')"
  shows "fewer_actions db db'"
proof -
  have ok: "schema_ok db" by (rule db_invD(1) [OF inv])
  show ?thesis
  proof (cases q)
    case (OpMarkAccepted p s)
    with r show ?thesis by (auto simp: finished_def MarkAccepted_def MarkProcessAccepted_def dest: fewer_updateProcess)
  next
    case (OpDeleteRejectedPreparation p s)
    with r show ?thesis by (auto simp: finished_def DeleteRejectedPreparationAfterArtifacts_def
          deleteProcessAfterArtifacts_def DeleteProcess_def Let_def fewer_delete split: option.splits if_splits)
  next
    case (OpCloseActionAdmission p s)
    with r show ?thesis by (auto simp: finished_def closeActionAdmission_def CloseProcessActionAdmission_def
          dest: fewer_updateProcess)
  next
    case (OpMarkContainmentEmpty p s)
    with r show ?thesis by (auto simp: finished_def markContainmentEmpty_def MarkProcessContainmentEmpty_def
          dest: fewer_updateProcess)
  next
    case (OpMarkLocalClosed p s)
    with r show ?thesis by (auto simp: finished_def markLocalClosed_def MarkProcessLocalClosed_def
          split: option.splits if_splits dest!: fewer_update)
  next
    case (OpMarkServerReleased p s)
    with r show ?thesis by (auto simp: finished_def MarkServerReleased_def MarkProcessServerReleased_def
          dest: fewer_updateProcess)
  next
    case (OpFreezeActionReport rid p s aid rep)
    with r obtain res where "freezeActionReport codec rid p s aid rep db = Inr (res, db')" by (auto simp: answering_def)
    then show ?thesis by (cases rule: freezeActionReportE) (auto dest: fewer_freeze [OF ok])
  next
    case (OpFreezeTerminalReport rid p s rep)
    with r obtain res where "freezeTerminalReport codec rid p s rep db = Inr (res, db')" by (auto simp: answering_def)
    then show ?thesis
      by (cases rule: freezeTerminalReportE) (use fewer_trans [OF fewer_freeze [OF ok]] in auto)
  next
    case (OpReleaseAction p s aid seq)
    with r t show ?thesis using fewer_release [OF ok] by (auto simp: finished_def ReleaseAction_def)
  qed (use t in auto)
qed

section \<open>Framed functions\<close>

definition frames :: "report_codec \<Rightarrow> string \<Rightarrow> world \<Rightarrow> world \<Rightarrow> bool" where
  "frames codec pid w w' \<longleftrightarrow> calm w' \<and> db_inv codec (store w') \<and> elsewhere_same pid (store w) (store w')
     \<and> fewer_actions (store w) (store w')"

abbreviation framed :: "report_codec \<Rightarrow> string \<Rightarrow> 'a daemon \<Rightarrow> bool" where
  "framed codec pid \<equiv> keeps (\<lambda>w. calm w \<and> db_inv codec (store w)) (frames codec pid)"

lemma frames_refl: "calm w \<Longrightarrow> db_inv codec (store w) \<Longrightarrow> frames codec pid w w"
  by (simp add: frames_def)

lemma frames_trans: "frames codec pid a b \<Longrightarrow> frames codec pid b c \<Longrightarrow> frames codec pid a c"
  unfolding frames_def using elsewhere_trans fewer_trans by blast

lemmas framed_def = keeps_def [of "\<lambda>w. calm w \<and> db_inv codec (store w)" "frames codec pid" for codec pid]

lemma framed_query: "framed codec pid (query codec f)"
  by (simp add: framed_def query_calm frames_refl)

lemma framed_external: "framed codec pid external"
  by (simp add: framed_def external_calm frames_refl)

lemma framed_newReportID: "framed codec pid newReportID"
  unfolding framed_def by (simp add: newReportID_def frames_def calm_def)

lemma frames_perform:
  assumes "calm w" "db_inv codec (store w)" "tends pid q" "perform codec q (store w) = Inr (ans, db')"
  shows "frames codec pid w (w\<lparr>store := db'\<rparr>)"
  using assms tends_names [OF assms(3)] perform_elsewhere [OF assms(2) _ assms(4)] perform_db_inv [OF assms(2) _ assms(4)]
    tends_fewer [OF assms(2-4)]
  by (simp add: frames_def)

lemma framed_operate: "tends pid q \<Longrightarrow> framed codec pid (operate codec q)"
  by (auto simp: framed_def operate_calm frames_refl split: sum.split intro: frames_perform)

interpretation recovery_frames: recovery_relation
    "\<lambda>w. calm w \<and> db_inv (env_codec env) (store w)" "frames (env_codec env) pid" env pid for env pid
proof unfold_locales
  show "frames (env_codec env) pid a c" if "frames (env_codec env) pid a b" "frames (env_codec env) pid b c" for a b c
    by (rule frames_trans [OF that])
qed (auto simp: frames_def intro: frames_refl framed_query framed_external framed_newReportID framed_operate)

lemma framedD: "framed codec pid m \<Longrightarrow> calm w \<Longrightarrow> db_inv codec (store w) \<Longrightarrow> m w = (r, w') \<Longrightarrow> frames codec pid w w'"
  unfolding framed_def by (metis snd_conv)

lemmas framed_closeRejected = recovery_frames.keeps_closeRejected
lemmas framed_recover = recovery_frames.keeps_recover

end
