(* ===== verification/Registration_Scan.thy ===== *)
theory Registration_Scan
  imports Daemon_Frame
begin

text \<open>
  The scan before a registration claims exactly what the state database holds: one claim per process,
  read in one snapshot, whatever else happens on the machine meanwhile.  Its internal check that an
  action has neither effect nor terminal evidence never fires.
\<close>

section \<open>Programs over the startup state\<close>

lemma bindS_Inr:
  "bindS m f s w = (Inr y, s2, w2) \<longleftrightarrow> (\<exists>x s1 w1. m s w = (Inr x, s1, w1) \<and> f x s1 w1 = (Inr y, s2, w2))"
  by (auto simp: bindS_def split: prod.splits sum.splits)

lemma startS_simps [simp]:
  "returnS x s w = (Inr x, s, w)" "failS e s w = (Inl e, s, w)" "getS f s w = (Inr (f s), s, w)"
  "modifyS g s w = (Inr (), g s, w)" "callS m s w = (fst (m w), s, snd (m w))"
  by (simp_all add: returnS_def failS_def getS_def modifyS_def callS_def split: prod.split)

definition tracedS :: "report_codec \<Rightarrow> 'a starting \<Rightarrow> bool" where
  "tracedS codec m \<longleftrightarrow> (\<forall>s w. world_ok w \<longrightarrow> follows codec w (snd (snd (m s w))))"

lemma tracedS_bindS:
  assumes "tracedS codec m" "\<And>x. tracedS codec (f x)"
  shows "tracedS codec (bindS m f)"
  unfolding tracedS_def
proof (intro allI impI)
  fix s w assume w: "world_ok w"
  obtain r s' w' where m: "m s w = (r, s', w')" by (metis prod_cases3)
  have f: "follows codec w w'" using assms(1) w m unfolding tracedS_def by (metis snd_conv)
  show "follows codec w (snd (snd (bindS m f s w)))"
    using f assms(2) follows_ok [OF f] m
    by (cases r) (auto simp: bindS_def tracedS_def intro: follows_trans [OF f])
qed

lemma tracedS_deferS:
  assumes "tracedS codec d" "tracedS codec m"
  shows "tracedS codec (deferS d m)" "tracedS codec (on_failS d m)"
proof -
  have "follows codec w (snd (snd (deferS d m s w))) \<and> follows codec w (snd (snd (on_failS d m s w)))"
    if w: "world_ok w" for s w
  proof -
    obtain r s1 w1 where m: "m s w = (r, s1, w1)" by (metis prod_cases3)
    obtain r2 s2 w2 where d: "d s1 w1 = (r2, s2, w2)" by (metis prod_cases3)
    have f: "follows codec w w1" using assms(2) w m unfolding tracedS_def by (metis snd_conv)
    have "follows codec w1 w2" using assms(1) follows_ok [OF f] d unfolding tracedS_def by (metis snd_conv)
    with f follows_trans [OF f] show ?thesis by (cases r) (simp_all add: deferS_def on_failS_def m d)
  qed
  then show "tracedS codec (deferS d m)" "tracedS codec (on_failS d m)" by (simp_all add: tracedS_def)
qed

lemma tracedS_simple:
  "tracedS codec (returnS x)" "tracedS codec (failS e)" "tracedS codec (getS f)" "tracedS codec (modifyS g)"
  by (simp_all add: tracedS_def follows_refl)

lemma tracedS_callS: "traced codec m \<Longrightarrow> tracedS codec (callS m)"
  by (simp add: traced_def tracedS_def)

lemma tracedS_forS: "(\<And>x. x \<in> set xs \<Longrightarrow> tracedS codec (f x)) \<Longrightarrow> tracedS codec (forS xs f)"
  by (induction xs) (auto intro: tracedS_bindS tracedS_simple)

lemma tracedS_liftE: "tracedS codec (liftE r)"
  by (simp add: liftE_def tracedS_simple split: sum.split)

lemma traced_ignoreD: "traced codec m \<Longrightarrow> traced codec (ignoreD m)"
  unfolding ignoreD_def by (intro traced_steps)

lemma tracedS_release: "tracedS codec releaseResources" "tracedS codec releaseFences" "tracedS codec releaseLocks"
  unfolding releaseResources_def releaseFences_def releaseLocks_def
  by (intro tracedS_bindS tracedS_simple tracedS_callS traced_forD traced_ignoreD traced_external)+

lemmas tracedS_steps = tracedS_bindS tracedS_simple tracedS_callS tracedS_liftE tracedS_release

lemma tracedS_runner_call: "tracedS codec (runner_call pid)"
  unfolding runner_call_def
  by (intro tracedS_steps traced_steps) (auto split: sum.split intro!: tracedS_steps)

lemma traced_snapshotD: "traced codec (snapshotD codec)"
  unfolding traced_def snapshotD_def by (auto intro!: tx_follows split: sum.split simp: bindE_def)

lemma traced_inspect: "traced (env_codec env) (inspectLocalSupervisor env p)"
  unfolding inspectLocalSupervisor_def failed_probe_def missing_lock_def currentLocalProcessState_def
  by (intro traced_steps) (auto split: sum.split intro!: traced_steps traced_ignoreD simp del: bindD_simps)

lemma tracedS_scan: "tracedS (env_codec env) (scanLocalProcessesForRegistrationOnce env)"
proof -
  have "tracedS (env_codec env) (inspect_process env p)" for p
    unfolding inspect_process_def by (intro tracedS_steps traced_inspect)
  moreover have "tracedS (env_codec env) (claim_process snap)" for snap
    unfolding claim_process_def by (intro tracedS_steps)
  moreover have "tracedS (env_codec env) (check_status pid)" for pid
    unfolding check_status_def
    by (intro tracedS_bindS tracedS_runner_call) (auto split: sum.split intro!: tracedS_steps)
  ultimately have "tracedS (env_codec env) (scan_inventory env ps)" for ps
    unfolding scan_inventory_def
    by (intro tracedS_bindS tracedS_forS tracedS_callS traced_snapshotD) (auto intro!: tracedS_steps tracedS_forS)
  then show ?thesis unfolding scanLocalProcessesForRegistrationOnce_def
    by (intro tracedS_steps traced_steps tracedS_deferS)
qed

section \<open>The claims a database supports\<close>

definition action_claim_for :: "statedb \<Rightarrow> action \<Rightarrow> action_claim" where
  "action_claim_for db a =
     \<lparr>ac_id = action_id a, ac_kind = action_kind a, ac_seq = action_seq a,
      ac_position = (if list_ex (\<lambda>r. report_action_id r = Some (action_id a)) (frozen_reports db)
                     then ActionPositionTerminal else ActionPositionEffectCommitted)\<rparr>"

definition claim_for :: "statedb \<Rightarrow> (string \<Rightarrow> bool) \<Rightarrow> process \<Rightarrow> process_claim" where
  "claim_for db live p =
     \<lparr>pc_process_id = process_id p, pc_supervisor_instance_id = supervisor_instance_id p,
      pc_phase = Phase (phase p), pc_live = live (process_id p), pc_exec_committed = exec_committed p,
      pc_admission_closed = action_admission_closed p, pc_resolved_seq = resolved_action_seq p,
      pc_actions = map (action_claim_for db) (ListProcessActions (process_id p) db)\<rparr>"

definition runs :: "localStartupState \<Rightarrow> string \<Rightarrow> bool" where
  "runs s pid \<longleftrightarrow> lookup_runtime (Runners s) pid \<noteq> None"

definition scanned :: "localStartupState \<Rightarrow> statedb \<Rightarrow> bool" where
  "scanned s db \<longleftrightarrow> Claims s = map (claim_for db (runs s)) (ListProcesses db)"

lemma claim_of_eq:
  assumes inv: "db_inv codec db" and p: "p \<in> set (processes db)"
  shows "claim_of live (snapshot_of db p) = Inr (claim_for db live p)"
proof -
  have "reported (reports_of (process_id p) db) a" if "a \<in> actions_of (process_id p) db" "\<not> effect_committed a" for a
    using db_invD(2) [OF inv p] that by (auto simp: proc_inv_def)
  then have ev: "list_ex (\<lambda>r. report_action_id r = Some (action_id a)) (frozen_reports db)"
    if "a \<in> set (ListProcessActions (process_id p) db)" "\<not> effect_committed a" for a
    using that by (fastforce simp: ListProcessActions_def actions_of_def reported_def reports_of_def list_ex_iff)
  have "list_all2 (\<lambda>x y. action_claim_of x = Inr y) (Actions (snapshot_of db p))
      (map (action_claim_for db) (ListProcessActions (process_id p) db))"
    using ev by (auto simp: snapshot_of_def list_all2_conv_all_nth action_claim_of_def action_claim_for_def Let_def)
  then have "mapE action_claim_of (Actions (snapshot_of db p))
      = Inr (map (action_claim_for db) (ListProcessActions (process_id p) db))" by (simp add: mapE_Inr)
  then show ?thesis by (simp add: claim_of_def claim_for_def snapshot_of_def Let_def)
qed

section \<open>The scan\<close>

lemma inspect_claims:
  "forS ps (inspect_process env) s w = (Inr u, s', w') \<Longrightarrow> Claims s' = Claims s"
proof (induction ps arbitrary: s w)
  case (Cons p ps)
  from Cons.prems obtain s1 w1 where i: "inspect_process env p s w = (Inr (), s1, w1)"
    and f: "forS ps (inspect_process env) s1 w1 = (Inr u, s', w')" by (auto simp: bindS_Inr)
  have "Claims s1 = Claims s" using i
    by (cases "fst (inspectLocalSupervisor env p w)") (auto simp: inspect_process_def bindS_def split: inspection.splits)
  with Cons.IH [OF f] show ?case by simp
qed simp

lemma claim_loop:
  "forS snaps claim_process s w = (Inr u, s', w') \<Longrightarrow>
     w' = w \<and> Runners s' = Runners s
   \<and> (\<exists>cs. mapE (claim_of (runs s)) snaps = Inr cs \<and> Claims s' = Claims s @ cs)"
proof (induction snaps arbitrary: s w)
  case (Cons snap snaps)
  from Cons.prems obtain s1 w1 where c: "claim_process snap s w = (Inr (), s1, w1)"
    and f: "forS snaps claim_process s1 w1 = (Inr u, s', w')" by (auto simp: bindS_Inr)
  from c obtain c0 where c0: "claim_of (runs s) snap = Inr c0" "w1 = w" "Runners s1 = Runners s"
    "Claims s1 = Claims s @ [c0]"
    by (auto simp: claim_process_def bindS_Inr liftE_def runs_def [abs_def] split: sum.splits)
  have "runs s1 = runs s" by (simp add: runs_def [abs_def] c0(3))
  with Cons.IH [OF f] c0 show ?case by auto
qed simp

lemma mark_ready_keeps [simp]: "runs (mark_ready pid s) = runs s" "Claims (mark_ready pid s) = Claims s"
proof -
  have "map_of (map (\<lambda>(i, r). (i, if i = pid then f r else r)) rs) q = None \<longleftrightarrow> map_of rs q = None"
    for f :: "process_runtime \<Rightarrow> process_runtime" and rs q by (induction rs) auto
  then show "runs (mark_ready pid s) = runs s"
    by (simp add: runs_def [abs_def] mark_ready_def lookup_runtime_def del: not_None_eq)
qed (simp add: mark_ready_def)

lemma external_store: "external w = (r, w') \<Longrightarrow> store w' = store w"
  using external_schedule(2) [of w] by simp

lemma runner_call_keeps:
  "runner_call pid s w = (r, s', w') \<Longrightarrow> store w' = store w \<and> Claims s' = Claims s \<and> runs s' = runs s"
  by (auto simp: runner_call_def bindS_def tryD_def split: prod.splits sum.splits if_splits dest!: external_store)

lemma status_loop:
  "forS pids check_status s w = (Inr u, s', w') \<Longrightarrow> store w' = store w \<and> Claims s' = Claims s \<and> runs s' = runs s"
proof (induction pids arbitrary: s w)
  case (Cons pid pids)
  from Cons.prems obtain s1 w1 where c: "check_status pid s w = (Inr (), s1, w1)"
    and f: "forS pids check_status s1 w1 = (Inr u, s', w')" by (auto simp: bindS_Inr)
  obtain r s0 w0 where rc: "runner_call pid s w = (r, s0, w0)" by (metis prod_cases3)
  with c have "s0 = s1" "w0 = w1" by (auto simp: check_status_def bindS_def split: sum.splits if_splits)
  with Cons.IH [OF f] runner_call_keeps [OF rc] show ?case by simp
qed simp

lemma snapshot_reads:
  assumes "snapshotD codec w = (Inr snaps, w')"
  shows "SnapshotForReconciliation (store w') = Inr snaps"
  using assms by (auto simp: snapshotD_def tx_def bindE_def split: prod.splits option.splits sum.splits)

lemma scan_spec:
  assumes ok: "world_ok w" and inv: "db_inv (env_codec env) (store w)"
    and scan: "scanLocalProcessesForRegistrationOnce env no_startup w = (Inr u, s, w')"
  shows "follows (env_codec env) w w'" "scanned s (store w')"
proof -
  show f: "follows (env_codec env) w w'"
    using tracedS_scan [of env] ok scan unfolding tracedS_def by (metis snd_conv)
  have inv': "db_inv (env_codec env) (store w')" by (rule follows_db_inv [OF f inv])
  from scan obtain inventory w1 where "on_failS releaseResources (scan_inventory env inventory) no_startup w1 = (Inr u, s, w')"
    by (auto simp: scanLocalProcessesForRegistrationOnce_def bindS_Inr)
  then have si: "scan_inventory env inventory no_startup w1 = (Inr u, s, w')"
    by (auto simp: on_failS_def split: prod.splits sum.splits)
  from si obtain s1 w2 snaps w3 s2 w4 s3 where
    i: "forS inventory (inspect_process env) no_startup w1 = (Inr (), s1, w2)"
    and sn: "snapshotD (env_codec env) w2 = (Inr snaps, w3)"
    and c: "forS snaps claim_process s1 w3 = (Inr (), s2, w4)"
    and st: "forS (fencedRunners s2) check_status s2 w4 = (Inr (), s3, w')"
    and s: "s = s3\<lparr>Claims := sort_key pc_process_id (Claims s3)\<rparr>"
    by (auto simp: scan_inventory_def bindS_Inr split: if_splits) (metis prod.collapse)
  from claim_loop [OF c] obtain cs where cs: "w4 = w3" "mapE (claim_of (runs s1)) snaps = Inr cs"
    "Claims s2 = Claims s1 @ cs" "Runners s2 = Runners s1" by auto
  have db: "store w' = store w3" "Claims s3 = cs" "runs s3 = runs s1"
    using status_loop [OF st] cs inspect_claims [OF i] by (auto simp: no_startup_def runs_def [abs_def])
  have "snaps = map (snapshot_of (store w')) (ListProcesses (store w'))"
    using snapshot_reads [OF sn] SnapshotForReconciliation_eq [OF db_invD(1) [OF inv']] db(1) by simp
  then have "cs = map (claim_for (store w') (runs s1)) (ListProcesses (store w'))"
    using cs(2) claim_of_eq [OF inv'] by (auto simp: mapE_Inr list_all2_conv_all_nth ListProcesses_def intro!: nth_equalityI)
      (metis (no_types, lifting) length_sort nth_mem set_sort sum.inject(2))
  moreover have "sort_key pc_process_id (map (claim_for db live) (ListProcesses db)) = map (claim_for db live) (ListProcesses db)"
    for db live by (rule sort_key_id_if_sorted) (simp add: ListProcesses_def claim_for_def o_def)
  moreover have "runs s = runs s3" by (simp add: s runs_def [abs_def])
  ultimately show "scanned s (store w')" using db by (simp add: scanned_def s)
qed

end
