(* ===== verification/Server_Reconciliation.thy ===== *)
theory Server_Reconciliation
  imports Reconciliation_Protocol "HOL-Library.List_Lexorder" "HOL-Library.Char_ord"
begin

text \<open>
  The backend's side of a daemon registration
  (\<open>src/internal/storage/executionstore/machine_daemon_reconciliation_store.go\<close> and the functions it
  calls in \<open>machine_lifecycle_terminal_work.go\<close>, \<open>process_action_completion_store.go\<close> and
  \<open>process_daemon_completion_store.go\<close>, with their statements in \<open>src/internal/storage/queries\<close>).

  The state is the part of the PostgreSQL database that belongs to one machine: its processes, their
  actions, and the tool calls those complete.  Of a tool call the model keeps whether it waits and
  what its result says; the contents of results, conversation events, wake-ups, notifications and
  timestamps are not modelled.  The transaction runs alone: the locks it takes are left out, and an
  error rolls it back.
\<close>

section \<open>Tables\<close>

datatype process_action_state =
    ActionStateQueued | ActionStateAccepted | ActionStateApplied | ActionStateFailed
  | ActionStateUnknown | ActionStateOther string

datatype tool_outcome = OutcomeSucceeded | OutcomeFailed | OutcomeCanceled

text \<open>
  \<open>res_unreachable\<close>: the structured content says \<open>error_code = machine_unreachable\<close>; \<open>res_running\<close>: it
  says \<open>state = running\<close>; \<open>res_event\<close>: the result has its typed event.
\<close>

record tool_result =
  res_outcome :: tool_outcome
  res_unreachable :: bool
  res_running :: bool
  res_event :: bool

record tool_call =
  tc_id :: string
  tc_built_in :: bool
  tc_waiting :: bool
  tc_result :: "tool_result option"

record server_process =
  sp_id :: string
  sp_tool_call_id :: string
  sp_state :: process_state
  sp_exit_code :: "int option"
  sp_reason_code :: string
  sp_source_started :: bool

record server_action =
  sa_id :: string
  sa_process_id :: string
  sa_tool_call_id :: string
  sa_kind :: process_action_kind
  sa_seq :: int
  sa_payload :: bytes
  sa_state :: process_action_state
  sa_reason_code :: string

record server_db =
  sdb_processes :: "server_process list"
  sdb_actions :: "server_action list"
  sdb_tool_calls :: "tool_call list"

type_synonym server_error = string

fun foldE :: "('a \<Rightarrow> 's \<Rightarrow> 'e + 's) \<Rightarrow> 'a list \<Rightarrow> 's \<Rightarrow> 'e + 's" where
  "foldE f [] s = Inr s"
| "foldE f (x # xs) s = bindE (f x s) (foldE f xs)"

definition LocalProcessMissingAfterDaemonReconnectReason :: string where
  "LocalProcessMissingAfterDaemonReconnectReason = ''local_process_missing_after_daemon_reconnect''"

definition processExecutionNotStartedReason :: string where
  "processExecutionNotStartedReason = ''execution_not_started''"

definition processActionNotDeliveredReason :: string where
  "processActionNotDeliveredReason = ''process_action_not_delivered''"

definition ProcessActionOutcomeUnrecoverableReason :: string where
  "ProcessActionOutcomeUnrecoverableReason = ''local_action_outcome_unrecoverable''"

definition ProcessActionReasonAlreadyStopped :: string where
  "ProcessActionReasonAlreadyStopped = ''already_stopped''"

section \<open>Statements\<close>

definition update_process_rows ::
    "(server_process \<Rightarrow> bool) \<Rightarrow> (server_process \<Rightarrow> server_process) \<Rightarrow> server_db \<Rightarrow> server_db" where
  "update_process_rows P f sdb = sdb\<lparr>sdb_processes := update_where P f (sdb_processes sdb)\<rparr>"

definition update_action_rows ::
    "(server_action \<Rightarrow> bool) \<Rightarrow> (server_action \<Rightarrow> server_action) \<Rightarrow> server_db \<Rightarrow> server_db" where
  "update_action_rows P f sdb = sdb\<lparr>sdb_actions := update_where P f (sdb_actions sdb)\<rparr>"

text \<open>\<open>EXISTS (... tool_call.type = 'built_in' AND tool_call.state = 'waiting')\<close>.\<close>

definition tool_call_waits :: "server_db \<Rightarrow> string \<Rightarrow> bool" where
  "tool_call_waits sdb i \<longleftrightarrow> list_ex (\<lambda>tc. tc_id tc = i \<and> tc_built_in tc \<and> tc_waiting tc) (sdb_tool_calls sdb)"

definition pending_state :: "process_action_state \<Rightarrow> bool" where
  "pending_state s \<longleftrightarrow> s = ActionStateQueued \<or> s = ActionStateAccepted"

definition isProcessActionTerminal :: "process_action_state \<Rightarrow> bool" where
  "isProcessActionTerminal s \<longleftrightarrow> s = ActionStateApplied \<or> s = ActionStateFailed \<or> s = ActionStateUnknown"

definition active_state :: "process_state \<Rightarrow> bool" where
  "active_state s \<longleftrightarrow> s = ProcessStateStarting \<or> s = ProcessStateRunning"

definition isProcessTerminal :: "process_state \<Rightarrow> bool" where
  "isProcessTerminal s \<longleftrightarrow>
     s = ProcessStateExited \<or> s = ProcessStateFailed \<or> s = ProcessStateKilled \<or> s = ProcessStateUnknown"

definition GetProcessByMachine :: "string \<Rightarrow> server_db \<Rightarrow> server_process option" where
  "GetProcessByMachine pid sdb = find (\<lambda>p. sp_id p = pid) (sdb_processes sdb)"

definition ListProcessesForMachineReconciliation :: "server_db \<Rightarrow> server_process list" where
  "ListProcessesForMachineReconciliation sdb =
     filter (\<lambda>p. active_state (sp_state p)
        \<or> list_ex (\<lambda>a. sa_process_id a = sp_id p \<and> pending_state (sa_state a)) (sdb_actions sdb)) (sdb_processes sdb)"

definition ResetAcceptedReadProcessActionsForMachine :: "server_db \<Rightarrow> server_db" where
  "ResetAcceptedReadProcessActionsForMachine =
     update_action_rows (\<lambda>a. sa_kind a = ProcessActionRead \<and> sa_state a = ActionStateAccepted)
       (\<lambda>a. a\<lparr>sa_state := ActionStateQueued\<rparr>)"

definition AcceptedProcessActionAtOrBelowResolvedSequenceExists :: "string \<Rightarrow> int \<Rightarrow> server_db \<Rightarrow> bool" where
  "AcceptedProcessActionAtOrBelowResolvedSequenceExists pid seq sdb \<longleftrightarrow>
     list_ex (\<lambda>a. sa_process_id a = pid \<and> sa_seq a \<le> seq \<and> sa_state a = ActionStateAccepted) (sdb_actions sdb)"

definition ListProcessActionsAfterResolvedSequence :: "string \<Rightarrow> int \<Rightarrow> server_db \<Rightarrow> server_action list" where
  "ListProcessActionsAfterResolvedSequence pid seq sdb =
     sort_key sa_seq (sort_key sa_id
       (filter (\<lambda>a. sa_process_id a = pid \<and> seq < sa_seq a) (sdb_actions sdb)))"

definition prior_pending :: "server_db \<Rightarrow> server_action \<Rightarrow> bool" where
  "prior_pending sdb a \<longleftrightarrow> list_ex (\<lambda>b. sa_process_id b = sa_process_id a \<and> sa_seq b < sa_seq a
     \<and> pending_state (sa_state b)) (sdb_actions sdb)"

section \<open>Tool calls\<close>

definition complete_tool :: "tool_outcome \<Rightarrow> string \<Rightarrow> server_db \<Rightarrow> server_db" where
  "complete_tool outcome i sdb = sdb\<lparr>sdb_tool_calls :=
     update_where (\<lambda>tc. tc_id tc = i \<and> tc_built_in tc \<and> tc_waiting tc)
       (\<lambda>tc. tc\<lparr>tc_waiting := False,
          tc_result := Some \<lparr>res_outcome = outcome, res_unreachable = False, res_running = False, res_event = True\<rparr>\<rparr>)
       (sdb_tool_calls sdb)\<rparr>"

definition GetToolCall :: "string \<Rightarrow> server_db \<Rightarrow> server_error + tool_call" where
  "GetToolCall i sdb =
     (case find (\<lambda>tc. tc_id tc = i) (sdb_tool_calls sdb) of
        None \<Rightarrow> Inl ''load linked tool call''
      | Some tc \<Rightarrow> Inr tc)"

definition completedToolCallMissIsBenignTx :: "string \<Rightarrow> bool \<Rightarrow> server_db \<Rightarrow> server_error + bool" where
  "completedToolCallMissIsBenignTx i allowStartedProcessResult sdb =
     bindE (GetToolCall i sdb) (\<lambda>existing.
       if tc_waiting existing then Inr False
       else case tc_result existing of
         None \<Rightarrow> Inr False
       | Some result \<Rightarrow>
           let canceled = (res_outcome result = OutcomeCanceled);
               startedProcess = (allowStartedProcessResult \<and> res_outcome result = OutcomeSucceeded \<and> res_running result)
           in if \<not> canceled \<and> \<not> res_unreachable result \<and> \<not> startedProcess then Inr False
              else Inr (res_event result))"

definition toolCallPublished :: "string \<Rightarrow> server_db \<Rightarrow> server_error + bool" where
  "toolCallPublished i sdb =
     bindE (GetToolCall i sdb) (\<lambda>existing.
       if tc_waiting existing then Inr False
       else case tc_result existing of None \<Rightarrow> Inr False | Some result \<Rightarrow> Inr (res_event result))"

definition completeTerminalProcessActionToolCallTx ::
    "server_action \<Rightarrow> process_action_state \<Rightarrow> server_db \<Rightarrow> server_error + server_db" where
  "completeTerminalProcessActionToolCallTx record state sdb =
     (let applied = (state = ActionStateApplied);
          outcome = (if applied then OutcomeSucceeded else OutcomeFailed)
      in if sa_kind record = ProcessActionRead \<and> \<not> applied \<and> GetProcessByMachine (sa_process_id record) sdb = None
         then Inl ''load process for failed read result''
         else if tool_call_waits sdb (sa_tool_call_id record)
         then Inr (complete_tool outcome (sa_tool_call_id record) sdb)
         else bindE (completedToolCallMissIsBenignTx (sa_tool_call_id record) False sdb)
           (\<lambda>ok. if ok then Inr sdb else Inl ''complete unknown process action tool call''))"

definition processToolOutcome :: "server_process \<Rightarrow> server_error + tool_outcome" where
  "processToolOutcome process =
     (if \<not> isProcessTerminal (sp_state process) then Inl ''process is not terminal''
      else Inr (if sp_state process = ProcessStateExited \<and> sp_exit_code process = Some 0
                then OutcomeSucceeded else OutcomeFailed))"

definition completeProcessToolCallFromRecordTx :: "server_process \<Rightarrow> server_db \<Rightarrow> server_error + server_db" where
  "completeProcessToolCallFromRecordTx record sdb =
     (if sp_tool_call_id record = [] then Inr sdb
      else bindE (processToolOutcome record) (\<lambda>outcome.
        if tool_call_waits sdb (sp_tool_call_id record)
        then Inr (complete_tool outcome (sp_tool_call_id record) sdb)
        else bindE (completedToolCallMissIsBenignTx (sp_tool_call_id record) True sdb)
          (\<lambda>ok. if ok then Inr sdb else Inl ''complete process tool call'')))"

section \<open>Completing processes and actions\<close>

text \<open>
  An \<open>UPDATE ... RETURNING\<close> over actions, each returned row's tool call completed after it.
\<close>

definition complete_actions ::
    "(server_action \<Rightarrow> bool) \<Rightarrow> (server_action \<Rightarrow> server_action) \<Rightarrow> server_db \<Rightarrow> server_error + server_db" where
  "complete_actions P f sdb =
     foldE (\<lambda>record. completeTerminalProcessActionToolCallTx record (sa_state record))
       (map f (filter P (sdb_actions sdb))) (update_action_rows P f sdb)"

definition completeQueuedProcessActionsFailedTx :: "string \<Rightarrow> string \<Rightarrow> server_db \<Rightarrow> server_error + server_db" where
  "completeQueuedProcessActionsFailedTx pid reason sdb =
     complete_actions (\<lambda>a. sa_process_id a = pid \<and> sa_state a = ActionStateQueued \<and> tool_call_waits sdb (sa_tool_call_id a))
       (\<lambda>a. a\<lparr>sa_state := ActionStateFailed, sa_reason_code := reason\<rparr>) sdb"

definition completeAcceptedProcessActionsWithoutEvidenceTx ::
    "string \<Rightarrow> string \<Rightarrow> server_db \<Rightarrow> server_error + server_db" where
  "completeAcceptedProcessActionsWithoutEvidenceTx pid reason sdb =
     complete_actions (\<lambda>a. sa_process_id a = pid \<and> sa_state a = ActionStateAccepted \<and> tool_call_waits sdb (sa_tool_call_id a))
       (\<lambda>a. a\<lparr>sa_state := (if sa_kind a = ProcessActionRead then ActionStateFailed else ActionStateUnknown),
              sa_reason_code := reason\<rparr>) sdb"

definition completeQueuedProcessActionsForTerminalProcessTx ::
    "server_process \<Rightarrow> server_db \<Rightarrow> server_error + server_db" where
  "completeQueuedProcessActionsForTerminalProcessTx process sdb =
     bindE (complete_actions (\<lambda>a. sa_process_id a = sp_id process
           \<and> (sa_kind a = ProcessActionWrite \<or> sa_kind a = ProcessActionInterrupt)
           \<and> sa_state a = ActionStateQueued \<and> tool_call_waits sdb (sa_tool_call_id a))
         (\<lambda>a. a\<lparr>sa_state := ActionStateFailed, sa_reason_code := ''process_terminal''\<rparr>) sdb) (\<lambda>sdb1.
       complete_actions (\<lambda>a. sa_process_id a = sp_id process \<and> sa_kind a = ProcessActionTerminate
           \<and> sa_state a = ActionStateQueued \<and> tool_call_waits sdb1 (sa_tool_call_id a))
         (\<lambda>a. if sp_state process = ProcessStateUnknown
              then a\<lparr>sa_state := ActionStateFailed, sa_reason_code := ''process_state_unknown''\<rparr>
              else a\<lparr>sa_state := ActionStateApplied, sa_reason_code := ProcessActionReasonAlreadyStopped\<rparr>) sdb1)"

definition completeUnresolvedProcessActionsForClosedProcessTx ::
    "string \<Rightarrow> string \<Rightarrow> server_db \<Rightarrow> server_error + server_db" where
  "completeUnresolvedProcessActionsForClosedProcessTx pid reason sdb =
     bindE (completeQueuedProcessActionsFailedTx pid reason sdb)
       (completeAcceptedProcessActionsWithoutEvidenceTx pid reason)"

definition completeProcessUnknownByMachineTx :: "string \<Rightarrow> string \<Rightarrow> server_db \<Rightarrow> server_error + server_db" where
  "completeProcessUnknownByMachineTx pid reason sdb =
     (case GetProcessByMachine pid sdb of
        None \<Rightarrow> Inr sdb
      | Some process \<Rightarrow>
          if \<not> active_state (sp_state process) then Inr sdb
          else
            let f = (\<lambda>p. p\<lparr>sp_state := ProcessStateUnknown, sp_reason_code := reason\<rparr>);
                sdb1 = update_process_rows (\<lambda>p. sp_id p = pid \<and> active_state (sp_state p)) f sdb
            in bindE (completeProcessToolCallFromRecordTx (f process) sdb1)
                 (completeUnresolvedProcessActionsForClosedProcessTx pid reason))"

definition completeProcessFailedWithoutExecutionTx :: "server_process \<Rightarrow> server_db \<Rightarrow> server_error + server_db" where
  "completeProcessFailedWithoutExecutionTx process sdb =
     (let P = (\<lambda>p. sp_id p = sp_id process \<and> sp_state p = ProcessStateStarting \<and> \<not> sp_source_started p);
          f = (\<lambda>p. p\<lparr>sp_state := ProcessStateFailed, sp_reason_code := processExecutionNotStartedReason\<rparr>)
      in case find P (sdb_processes sdb) of
           None \<Rightarrow> Inl ''process changed while resolving an unstarted grant''
         | Some row \<Rightarrow>
             bindE (completeProcessToolCallFromRecordTx (f row) (update_process_rows P f sdb)) (\<lambda>sdb1.
             bindE (completeQueuedProcessActionsFailedTx (sp_id process) processExecutionNotStartedReason sdb1)
               (completeAcceptedProcessActionsWithoutEvidenceTx (sp_id process) processExecutionNotStartedReason)))"

text \<open>
  \<open>resolveAcceptedProcessActionForReconciliationTx\<close> and what it reaches of
  \<open>completeDaemonProcessActionTx\<close>: the action is not a read and becomes failed or unknown.
\<close>

definition resolveAcceptedProcessActionForReconciliationTx ::
    "server_action \<Rightarrow> process_action_state \<Rightarrow> string \<Rightarrow> server_db \<Rightarrow> server_error + server_db" where
  "resolveAcceptedProcessActionForReconciliationTx action state reason sdb =
     (let P = (\<lambda>a. sa_process_id a = sa_process_id action \<and> sa_id a = sa_id action
                \<and> sa_state a = ActionStateAccepted \<and> \<not> prior_pending sdb a)
      in if \<not> list_ex P (sdb_actions sdb)
         then (if prior_pending sdb action then Inl ''process action report blocked'' else Inl ''daemon runtime unregistered'')
         else
           let sdb1 = update_action_rows P (\<lambda>a. a\<lparr>sa_state := state, sa_reason_code := reason\<rparr>) sdb
           in if sa_tool_call_id action = [] then Inr sdb1
              else if tool_call_waits sdb1 (sa_tool_call_id action)
              then Inr (complete_tool OutcomeFailed (sa_tool_call_id action) sdb1)
              else bindE (toolCallPublished (sa_tool_call_id action) sdb1) (\<lambda>published.
                if published then Inr sdb1 else Inl ''terminal process action has no durable result''))"

section \<open>Validating the claims\<close>

fun validateActionClaims :: "int \<Rightarrow> string list \<Rightarrow> int list \<Rightarrow> action_claim list \<Rightarrow> server_error + unit" where
  "validateActionClaims resolved actionIDs actionSeqs [] = Inr ()"
| "validateActionClaims resolved actionIDs actionSeqs (action # actions) =
     (if ac_id action = [] \<or> ac_seq action \<le> resolved then Inl ''invalid local action''
      else if \<not> action_kind_mutating (ac_kind action) then Inl ''unsupported kind''
      else if ac_position action \<noteq> ActionPositionEffectCommitted \<and> ac_position action \<noteq> ActionPositionTerminal
      then Inl ''unsupported position''
      else if ac_id action \<in> set actionIDs then Inl ''repeated local action''
      else if ac_seq action \<in> set actionSeqs then Inl ''repeated local action sequence''
      else validateActionClaims resolved (ac_id action # actionIDs) (ac_seq action # actionSeqs) actions)"

text \<open>The claims seen so far are the map \<open>claims\<close>, in reverse order.\<close>

fun validateClaims :: "process_claim list \<Rightarrow> process_claim list \<Rightarrow> server_error + process_claim list" where
  "validateClaims claims [] = Inr (rev claims)"
| "validateClaims claims (claim # input) =
     (if pc_process_id claim = [] \<or> pc_supervisor_instance_id claim = []
      then Inl ''claims require a process and supervisor instance ID''
      else if pc_resolved_seq claim < 0 then Inl ''negative resolved action sequence''
      else if (case pc_phase claim of Phase _ \<Rightarrow> False | PhaseOther _ \<Rightarrow> True) then Inl ''unsupported reconciliation phase''
      else if pc_process_id claim \<in> pc_process_id ` set claims then Inl ''duplicate reconciliation claims''
      else bindE (validateActionClaims (pc_resolved_seq claim) [] [] (pc_actions claim))
             (\<lambda>_. validateClaims (claim # claims) input))"

definition validateProcessReconciliationClaims :: "process_claim list \<Rightarrow> server_error + process_claim list" where
  "validateProcessReconciliationClaims input = validateClaims [] input"

section \<open>Loading\<close>

fun load_claimed :: "server_db \<Rightarrow> server_process list \<Rightarrow> process_claim list \<Rightarrow> server_error + server_process list" where
  "load_claimed sdb processes [] = Inr processes"
| "load_claimed sdb processes (claim # claims) =
     (if list_ex (\<lambda>p. sp_id p = pc_process_id claim) processes then load_claimed sdb processes claims
      else case GetProcessByMachine (pc_process_id claim) sdb of
        None \<Rightarrow> Inl ''reconciliation claim names a process outside this machine''
      | Some row \<Rightarrow> load_claimed sdb (processes @ [row]) claims)"

definition loadReconciliationProcesses :: "process_claim list \<Rightarrow> server_db \<Rightarrow> server_error + server_process list" where
  "loadReconciliationProcesses claims sdb = load_claimed sdb (ListProcessesForMachineReconciliation sdb) claims"

text \<open>The first pass finds the agents to lock, with the same statements and errors.\<close>

definition lockAndLoadReconciliationProcesses ::
    "process_claim list \<Rightarrow> server_db \<Rightarrow> server_error + server_process list" where
  "lockAndLoadReconciliationProcesses claims sdb =
     bindE (loadReconciliationProcesses claims sdb) (\<lambda>_. loadReconciliationProcesses claims sdb)"

section \<open>Reconciling the actions of a process\<close>

definition local_action :: "process_claim \<Rightarrow> string \<Rightarrow> action_claim option" where
  "local_action claim i = find (\<lambda>a. ac_id a = i) (rev (pc_actions claim))"

text \<open>
  What becomes of one action: nothing (\<open>continue\<close>), or a disposition, its payload, and for an
  accepted action that is given up the state and reason it gets.
\<close>

datatype action_decision =
    SkipAction
  | Dispose action_disposition bytes
  | GiveUp process_action_state string

definition decide_accepted ::
    "process_claim \<Rightarrow> process_disposition \<Rightarrow> server_action \<Rightarrow> action_claim option \<Rightarrow> server_error + action_decision" where
  "decide_accepted claim processDisposition action found =
     (if sa_kind action = ProcessActionRead then Inl ''accepted process read survived registration reset''
      else case found of
        Some localAction \<Rightarrow>
          if ac_position localAction = ActionPositionTerminal then Inr (Dispose ActionDispositionRetain [])
          else if ac_position localAction = ActionPositionEffectCommitted \<and> pc_live claim
          then Inr (Dispose ActionDispositionRetain [])
          else Inr (GiveUp ActionStateUnknown ProcessActionOutcomeUnrecoverableReason)
      | None \<Rightarrow>
          if processDisposition = ProcessDispositionStart
             \<or> (processDisposition = ProcessDispositionRetain \<and> pc_live claim
                \<and> pc_phase claim = Phase ProcessAccepted \<and> \<not> pc_admission_closed claim)
          then Inr (Dispose ActionDispositionApply (sa_payload action))
          else Inr (GiveUp ActionStateFailed processActionNotDeliveredReason))"

definition decide_terminal ::
    "process_claim \<Rightarrow> server_action \<Rightarrow> action_claim option \<Rightarrow> server_error + action_decision" where
  "decide_terminal claim action found =
     (let locallyPresent = (found \<noteq> None);
          position = map_option ac_position found
      in if position = Some ActionPositionTerminal then Inr (Dispose ActionDispositionSettle [])
         else if position = Some ActionPositionEffectCommitted \<and> pc_live claim
         then Inr (Dispose ActionDispositionRetain [])
         else if sa_state action = ActionStateApplied \<and> sa_kind action = ProcessActionRead \<and> \<not> locallyPresent
         then Inr (Dispose ActionDispositionRelease [])
         else if sa_state action = ActionStateApplied \<and> sa_kind action = ProcessActionTerminate
           \<and> sa_reason_code action = ProcessActionReasonAlreadyStopped \<and> \<not> locallyPresent
         then Inr SkipAction
         else if sa_state action = ActionStateApplied \<and> locallyPresent
         then Inl ''applied process action has a locally committed effect but no frozen report''
         else if sa_state action = ActionStateApplied
         then Inl ''applied process action is above the local frontier without frozen evidence''
         else Inr (Dispose ActionDispositionRelease []))"

definition decide_action ::
    "process_claim \<Rightarrow> process_disposition \<Rightarrow> server_action \<Rightarrow> server_error + action_decision" where
  "decide_action claim processDisposition action =
     (let found = local_action claim (sa_id action)
      in if (case found of None \<Rightarrow> False
             | Some localAction \<Rightarrow> ac_seq localAction \<noteq> sa_seq action \<or> ac_kind localAction \<noteq> sa_kind action)
         then Inl ''local action identity differs from PostgreSQL''
         else case sa_state action of
           ActionStateQueued \<Rightarrow>
             if found \<noteq> None then Inl ''queued process action has a locally committed effect'' else Inr SkipAction
         | ActionStateAccepted \<Rightarrow> decide_accepted claim processDisposition action found
         | ActionStateOther _ \<Rightarrow> Inl ''unsupported state''
         | _ \<Rightarrow> decide_terminal claim action found)"

definition action_directive_for :: "server_action \<Rightarrow> action_disposition \<Rightarrow> bytes \<Rightarrow> action_directive" where
  "action_directive_for action disposition payload =
     \<lparr>ad_id = sa_id action, ad_kind = sa_kind action, ad_seq = sa_seq action, ad_payload = payload,
      ad_disposition = disposition\<rparr>"

fun reconcile_actions ::
    "process_claim \<Rightarrow> process_disposition \<Rightarrow> server_action list \<Rightarrow> server_db
       \<Rightarrow> server_error + action_directive list \<times> server_db" where
  "reconcile_actions claim processDisposition [] sdb = Inr ([], sdb)"
| "reconcile_actions claim processDisposition (action # actions) sdb =
     bindE (decide_action claim processDisposition action) (\<lambda>decision.
       case decision of
         SkipAction \<Rightarrow> reconcile_actions claim processDisposition actions sdb
       | Dispose disposition payload \<Rightarrow>
           bindE (reconcile_actions claim processDisposition actions sdb) (\<lambda>(ds, sdb').
             Inr (action_directive_for action disposition payload # ds, sdb'))
       | GiveUp state reason \<Rightarrow>
           bindE (resolveAcceptedProcessActionForReconciliationTx action state reason sdb) (\<lambda>sdb1.
           bindE (reconcile_actions claim processDisposition actions sdb1) (\<lambda>(ds, sdb').
             Inr (action_directive_for action ActionDispositionRelease [] # ds, sdb'))))"

definition reconcileProcessActionsTx ::
    "server_process \<Rightarrow> process_claim \<Rightarrow> process_disposition \<Rightarrow> server_db
       \<Rightarrow> server_error + action_directive list \<times> server_db" where
  "reconcileProcessActionsTx process claim processDisposition sdb =
     (if AcceptedProcessActionAtOrBelowResolvedSequenceExists (sp_id process) (pc_resolved_seq claim) sdb
      then Inl ''local action frontier passed a PostgreSQL-accepted action''
      else
        let rows = ListProcessActionsAfterResolvedSequence (sp_id process) (pc_resolved_seq claim) sdb
        in bindE (reconcile_actions claim processDisposition rows sdb) (\<lambda>(ds, sdb').
             if \<not> list_all (\<lambda>a. list_ex (\<lambda>row. sa_id row = ac_id a) rows) (pc_actions claim)
             then Inl ''local action has no matching PostgreSQL action above the frontier''
             else Inr (ds, sdb')))"

section \<open>Reconciling a process\<close>

text \<open>The disposition of a claimed process that is starting or running, and what completes it first.\<close>

definition decide_starting ::
    "server_process \<Rightarrow> process_claim \<Rightarrow> server_db \<Rightarrow> server_error + process_disposition \<times> server_db" where
  "decide_starting process claim sdb =
     (if pc_phase claim = Phase ProcessPreparing then Inl ''accepted process has only a preparing supervisor''
      else if pc_phase claim = Phase ProcessTerminal then Inr (ProcessDispositionRetain, sdb)
      else if pc_exec_committed claim \<and> pc_live claim then Inr (ProcessDispositionRetain, sdb)
      else if pc_exec_committed claim
      then bindE (completeProcessUnknownByMachineTx (sp_id process) LocalProcessMissingAfterDaemonReconnectReason sdb)
             (\<lambda>sdb1. Inr (ProcessDispositionRelease, sdb1))
      else if pc_live claim then Inr (ProcessDispositionStart, sdb)
      else bindE (completeProcessFailedWithoutExecutionTx process sdb) (\<lambda>sdb1. Inr (ProcessDispositionRelease, sdb1)))"

definition decide_running ::
    "server_process \<Rightarrow> process_claim \<Rightarrow> server_db \<Rightarrow> server_error + process_disposition \<times> server_db" where
  "decide_running process claim sdb =
     (if pc_phase claim = Phase ProcessTerminal then Inr (ProcessDispositionRetain, sdb)
      else if pc_phase claim = Phase ProcessAccepted \<and> pc_exec_committed claim \<and> pc_live claim
      then Inr (ProcessDispositionRetain, sdb)
      else if pc_phase claim = Phase ProcessAccepted \<and> pc_exec_committed claim
      then bindE (completeProcessUnknownByMachineTx (sp_id process) LocalProcessMissingAfterDaemonReconnectReason sdb)
             (\<lambda>sdb1. Inr (ProcessDispositionRelease, sdb1))
      else Inl ''running process contradicts local phase'')"

definition ungranted :: "process_claim \<Rightarrow> bool" where
  "ungranted claim \<longleftrightarrow> \<not> pc_exec_committed claim
     \<and> (pc_phase claim = Phase ProcessPreparing \<or> pc_phase claim = Phase ProcessPrepared)"

definition directive_for ::
    "server_process \<Rightarrow> process_claim \<Rightarrow> process_disposition \<Rightarrow> action_directive list \<Rightarrow> process_directive" where
  "directive_for process claim disposition actions =
     \<lparr>pd_process_id = sp_id process, pd_supervisor_instance_id = pc_supervisor_instance_id claim,
      pd_disposition = disposition, pd_actions = actions\<rparr>"

definition with_actions ::
    "server_process \<Rightarrow> process_claim \<Rightarrow> process_disposition \<times> server_db \<Rightarrow> server_error + process_directive \<times> server_db" where
  "with_actions process claim = (\<lambda>(disposition, sdb).
     bindE (reconcileProcessActionsTx process claim disposition sdb) (\<lambda>(actions, sdb').
       Inr (directive_for process claim disposition actions, sdb')))"

definition reconcileProcessTx ::
    "server_process \<Rightarrow> process_claim \<Rightarrow> server_db \<Rightarrow> server_error + process_directive \<times> server_db" where
  "reconcileProcessTx process claim sdb =
     (if sp_state process = ProcessStateQueued then
        (if pc_exec_committed claim \<or> pc_phase claim = Phase ProcessAccepted \<or> pc_phase claim = Phase ProcessTerminal
         then Inl ''queued process contradicts granted local phase''
         else Inr (directive_for process claim ProcessDispositionClosePreparation [], sdb))
      else if sp_state process = ProcessStateStarting then bindE (decide_starting process claim sdb) (with_actions process claim)
      else if sp_state process = ProcessStateRunning then bindE (decide_running process claim sdb) (with_actions process claim)
      else if isProcessTerminal (sp_state process) then
        (if ungranted claim
         then bindE (completeQueuedProcessActionsForTerminalProcessTx process sdb) (\<lambda>sdb1.
              bindE (completeAcceptedProcessActionsWithoutEvidenceTx (sp_id process) ProcessActionOutcomeUnrecoverableReason sdb1)
                (\<lambda>sdb2. Inr (directive_for process claim ProcessDispositionClosePreparation [], sdb2)))
         else bindE (completeQueuedProcessActionsForTerminalProcessTx process sdb)
                (\<lambda>sdb1. with_actions process claim (ProcessDispositionRelease, sdb1)))
      else Inl ''unsupported state'')"

text \<open>A process the daemon does not claim.\<close>

definition reconcileUnclaimed :: "server_process \<Rightarrow> server_db \<Rightarrow> server_error + server_db" where
  "reconcileUnclaimed process sdb =
     (if active_state (sp_state process)
      then completeProcessUnknownByMachineTx (sp_id process) LocalProcessMissingAfterDaemonReconnectReason sdb
      else if isProcessTerminal (sp_state process)
      then bindE (completeQueuedProcessActionsForTerminalProcessTx process sdb)
             (completeAcceptedProcessActionsWithoutEvidenceTx (sp_id process) LocalProcessMissingAfterDaemonReconnectReason)
      else Inr sdb)"

fun reconcile_processes ::
    "process_claim list \<Rightarrow> server_process list \<Rightarrow> server_db \<Rightarrow> server_error + process_directive list \<times> server_db" where
  "reconcile_processes claims [] sdb = Inr ([], sdb)"
| "reconcile_processes claims (process # processes) sdb =
     (case find (\<lambda>c. pc_process_id c = sp_id process) claims of
        None \<Rightarrow> bindE (reconcileUnclaimed process sdb) (reconcile_processes claims processes)
      | Some claim \<Rightarrow>
          bindE (reconcileProcessTx process claim sdb) (\<lambda>(d, sdb1).
          bindE (reconcile_processes claims processes sdb1) (\<lambda>(ds, sdb2). Inr (d # ds, sdb2))))"

text \<open>
  \<open>visit\<close> is the order in which the loop over the map of processes visits them, which Go leaves open.
\<close>

definition reconcileRegisteredRuntimeTx ::
    "(server_process list \<Rightarrow> server_process list) \<Rightarrow> process_claim list \<Rightarrow> server_db
       \<Rightarrow> server_error + process_directive list \<times> server_db" where
  "reconcileRegisteredRuntimeTx visit input sdb =
     bindE (validateProcessReconciliationClaims input) (\<lambda>claims.
     bindE (lockAndLoadReconciliationProcesses claims sdb) (\<lambda>processes.
     bindE (reconcile_processes claims (visit processes) (ResetAcceptedReadProcessActionsForMachine sdb)) (\<lambda>(ds, sdb').
       Inr (sort_key pd_process_id ds, sdb'))))"

end
