(* ===== verification/Server_Directives.thy ===== *)
theory Server_Directives
  imports Server_Reconciliation "HOL-Library.Multiset"
begin

text \<open>
  What the backend's reconciliation guarantees when it succeeds: the claims it accepts are the
  well-formed ones, there is one directive per claim, and each directive is one the claimed state of
  the process admits.
\<close>

section \<open>Folds\<close>

lemma foldE_keeps:
  assumes "\<And>x s s'. f x s = Inr s' \<Longrightarrow> g s' = g s"
  shows "foldE f xs s = Inr s' \<Longrightarrow> g s' = g s"
proof (induction xs arbitrary: s)
  case (Cons x xs)
  then obtain s1 where "f x s = Inr s1" "foldE f xs s1 = Inr s'" by auto
  with Cons.IH assms show ?case by metis
qed simp

section \<open>Valid claims\<close>

definition valid_action_claim :: "int \<Rightarrow> action_claim \<Rightarrow> bool" where
  "valid_action_claim resolved a \<longleftrightarrow> ac_id a \<noteq> [] \<and> resolved < ac_seq a \<and> action_kind_mutating (ac_kind a)
     \<and> (ac_position a = ActionPositionEffectCommitted \<or> ac_position a = ActionPositionTerminal)"

definition valid_claim :: "process_claim \<Rightarrow> bool" where
  "valid_claim c \<longleftrightarrow> pc_process_id c \<noteq> [] \<and> pc_supervisor_instance_id c \<noteq> [] \<and> 0 \<le> pc_resolved_seq c
     \<and> (\<exists>p. pc_phase c = Phase p)
     \<and> list_all (valid_action_claim (pc_resolved_seq c)) (pc_actions c)
     \<and> distinct (map ac_id (pc_actions c)) \<and> distinct (map ac_seq (pc_actions c))"

definition valid_claims :: "process_claim list \<Rightarrow> bool" where
  "valid_claims cs \<longleftrightarrow> list_all valid_claim cs \<and> distinct (map pc_process_id cs)"

lemma validateActionClaims_iff:
  "validateActionClaims resolved ids seqs as = Inr u \<longleftrightarrow>
     list_all (valid_action_claim resolved) as
   \<and> distinct (map ac_id as) \<and> set ids \<inter> ac_id ` set as = {}
   \<and> distinct (map ac_seq as) \<and> set seqs \<inter> ac_seq ` set as = {}"
  by (induction resolved ids seqs as rule: validateActionClaims.induct) (auto simp: valid_action_claim_def)

lemma validateClaims_iff:
  "validateClaims seen cs = Inr out \<longleftrightarrow>
     out = rev seen @ cs \<and> list_all valid_claim cs \<and> distinct (map pc_process_id cs)
   \<and> pc_process_id ` set seen \<inter> pc_process_id ` set cs = {}"
proof (induction seen cs rule: validateClaims.induct)
  case (2 seen c cs)
  have v: "(\<exists>u. validateActionClaims (pc_resolved_seq c) [] [] (pc_actions c) = Inr u) \<longleftrightarrow>
      list_all (valid_action_claim (pc_resolved_seq c)) (pc_actions c)
    \<and> distinct (map ac_id (pc_actions c)) \<and> distinct (map ac_seq (pc_actions c))"
    by (auto simp: validateActionClaims_iff)
  show ?case
  proof (cases "pc_process_id c = [] \<or> pc_supervisor_instance_id c = [] \<or> pc_resolved_seq c < 0
      \<or> (\<exists>x. pc_phase c = PhaseOther x) \<or> pc_process_id c \<in> pc_process_id ` set seen")
    case True
    then show ?thesis by (auto simp: valid_claim_def split: wire_phase.splits)
  next
    case False
    then obtain p where p: "pc_phase c = Phase p" by (cases "pc_phase c") auto
    with False have step: "validateClaims seen (c # cs) = Inr out \<longleftrightarrow>
        (\<exists>u. validateActionClaims (pc_resolved_seq c) [] [] (pc_actions c) = Inr u)
      \<and> validateClaims (c # seen) cs = Inr out" by (simp split: wire_phase.split)
    show ?thesis
      unfolding step v using "2.IH" False p by (auto simp: valid_claim_def)
  qed
qed auto

theorem validate_claims_iff:
  "validateProcessReconciliationClaims input = Inr claims \<longleftrightarrow> claims = input \<and> valid_claims input"
  by (auto simp: validateProcessReconciliationClaims_def validateClaims_iff valid_claims_def)

section \<open>What reconciliation does not touch\<close>

text \<open>The identity of every action row, and the identifiers of the process rows.\<close>

definition action_key :: "server_action \<Rightarrow> string \<times> string \<times> int \<times> process_action_kind" where
  "action_key a = (sa_id a, sa_process_id a, sa_seq a, sa_kind a)"

definition keys :: "server_db \<Rightarrow> (string \<times> string \<times> int \<times> process_action_kind) list \<times> string list" where
  "keys sdb = (map action_key (sdb_actions sdb), map sp_id (sdb_processes sdb))"

lemma keys_update_process:
  "(\<And>p. sp_id (f p) = sp_id p) \<Longrightarrow> keys (update_process_rows P f sdb) = keys sdb"
  by (simp add: keys_def update_process_rows_def map_update_where)

lemma keys_update_action:
  "(\<And>a. action_key (f a) = action_key a) \<Longrightarrow> keys (update_action_rows P f sdb) = keys sdb"
  by (simp add: keys_def update_action_rows_def map_update_where)

lemma keys_complete_tool [simp]: "keys (complete_tool outcome i sdb) = keys sdb"
  by (simp add: keys_def complete_tool_def)

lemma keys_action_tool:
  "completeTerminalProcessActionToolCallTx record st sdb = Inr sdb' \<Longrightarrow> keys sdb' = keys sdb"
  by (auto simp: completeTerminalProcessActionToolCallTx_def Let_def split: if_splits)

lemma keys_process_tool: "completeProcessToolCallFromRecordTx record sdb = Inr sdb' \<Longrightarrow> keys sdb' = keys sdb"
  by (auto simp: completeProcessToolCallFromRecordTx_def split: if_splits)

lemma keys_complete_actions:
  assumes "complete_actions P f sdb = Inr sdb'" "\<And>a. action_key (f a) = action_key a"
  shows "keys sdb' = keys sdb"
proof -
  have "keys sdb' = keys (update_action_rows P f sdb)"
    using assms(1) unfolding complete_actions_def by (rule foldE_keeps [rotated]) (rule keys_action_tool)
  with keys_update_action [of f, OF assms(2)] show ?thesis by simp
qed

lemma keys_completions:
  "completeQueuedProcessActionsFailedTx pid reason sdb = Inr sdb' \<Longrightarrow> keys sdb' = keys sdb"
  "completeAcceptedProcessActionsWithoutEvidenceTx pid reason sdb = Inr sdb' \<Longrightarrow> keys sdb' = keys sdb"
  by (auto simp: completeQueuedProcessActionsFailedTx_def completeAcceptedProcessActionsWithoutEvidenceTx_def
      action_key_def dest!: keys_complete_actions)

lemma keys_complete_terminal:
  "completeQueuedProcessActionsForTerminalProcessTx process sdb = Inr sdb' \<Longrightarrow> keys sdb' = keys sdb"
  by (auto simp: completeQueuedProcessActionsForTerminalProcessTx_def action_key_def dest!: keys_complete_actions)

lemma keys_unknown: "completeProcessUnknownByMachineTx pid reason sdb = Inr sdb' \<Longrightarrow> keys sdb' = keys sdb"
  by (auto simp: completeProcessUnknownByMachineTx_def completeUnresolvedProcessActionsForClosedProcessTx_def Let_def
      keys_update_process split: option.splits if_splits dest!: keys_completions keys_process_tool)

lemma keys_failed: "completeProcessFailedWithoutExecutionTx process sdb = Inr sdb' \<Longrightarrow> keys sdb' = keys sdb"
  by (auto simp: completeProcessFailedWithoutExecutionTx_def Let_def keys_update_process
      split: option.splits dest!: keys_completions keys_process_tool)

lemma keys_resolve:
  "resolveAcceptedProcessActionForReconciliationTx action st reason sdb = Inr sdb' \<Longrightarrow> keys sdb' = keys sdb"
  by (auto simp: resolveAcceptedProcessActionForReconciliationTx_def Let_def keys_update_action action_key_def split: if_splits)

lemma keys_reset: "keys (ResetAcceptedReadProcessActionsForMachine sdb) = keys sdb"
  by (simp add: ResetAcceptedReadProcessActionsForMachine_def keys_update_action action_key_def)

section \<open>Directives for actions\<close>

text \<open>
  An action directive the claim admits: an action is handed to a live supervisor only, settled only on
  frozen evidence, and released only if the daemon has no evidence for it, or has committed its
  effect under this very sequence number.
\<close>

definition action_admitted :: "process_claim \<Rightarrow> action_directive \<Rightarrow> bool" where
  "action_admitted c d \<longleftrightarrow>
     (case ad_disposition d of
        ActionDispositionRetain \<Rightarrow> True
      | ActionDispositionApply \<Rightarrow> pc_live c \<and> (\<forall>a \<in> set (pc_actions c). ac_id a \<noteq> ad_id d)
      | ActionDispositionSettle \<Rightarrow> \<exists>a \<in> set (pc_actions c). ac_id a = ad_id d \<and> ac_position a = ActionPositionTerminal
      | ActionDispositionRelease \<Rightarrow>
          \<forall>a \<in> set (pc_actions c). ac_id a = ad_id d \<longrightarrow> ac_position a = ActionPositionEffectCommitted \<and> ac_seq a = ad_seq d
      | ActionDispositionOther _ \<Rightarrow> False)"

text \<open>The directive names a row of the database above the claimed frontier.\<close>

definition names_row :: "server_db \<Rightarrow> process_claim \<Rightarrow> action_directive \<Rightarrow> bool" where
  "names_row sdb c d \<longleftrightarrow> (\<exists>row \<in> set (sdb_actions sdb). sa_id row = ad_id d \<and> sa_process_id row = pc_process_id c
     \<and> sa_seq row = ad_seq d)"

lemma local_action_Some: "local_action c i = Some a \<Longrightarrow> a \<in> set (pc_actions c) \<and> ac_id a = i"
  unfolding local_action_def find_Some_iff by (metis nth_mem set_rev)

lemma local_action_None: "local_action c i = None \<longleftrightarrow> (\<forall>a \<in> set (pc_actions c). ac_id a \<noteq> i)"
  by (auto simp: local_action_def find_None_iff)

lemma local_action_unique:
  assumes "distinct (map ac_id (pc_actions c))" "a \<in> set (pc_actions c)"
  shows "local_action c (ac_id a) = Some a"
proof (cases "local_action c (ac_id a)")
  case None
  with assms(2) show ?thesis by (auto simp: local_action_None)
next
  case (Some b)
  with assms show ?thesis by (auto dest!: local_action_Some simp: distinct_map inj_on_def)
qed

lemma start_or_live:
  assumes "disp = ProcessDispositionStart \<longrightarrow> pc_live c" "decide_accepted c disp row found = Inr (Dispose d payload)"
  shows "d = ActionDispositionRetain \<or> d = ActionDispositionApply \<and> pc_live c \<and> found = None"
  using assms by (auto simp: decide_accepted_def split: if_splits option.splits)

lemma decide_action_admitted:
  assumes c: "valid_claim c" and live: "disp = ProcessDispositionStart \<longrightarrow> pc_live c"
    and dec: "decide_action c disp row = Inr decision"
  shows "decision = Dispose d payload \<Longrightarrow> action_admitted c (action_directive_for row d payload)"
    and "decision = GiveUp st reason \<Longrightarrow> action_admitted c (action_directive_for row ActionDispositionRelease [])"
proof -
  have uniq: "a = b" if "local_action c (sa_id row) = Some a" "b \<in> set (pc_actions c)" "ac_id b = sa_id row" for a b
    using local_action_unique [of c b] c that by (auto simp: valid_claim_def)
  have pos: "ac_position a = ActionPositionEffectCommitted" if "a \<in> set (pc_actions c)"
    "ac_position a \<noteq> ActionPositionTerminal" for a
    using c that by (auto simp: valid_claim_def list_all_iff valid_action_claim_def)
  have seq: "ac_seq a = sa_seq row" if "local_action c (sa_id row) = Some a" for a
    using dec that by (auto simp: decide_action_def Let_def split: if_splits)
  show "action_admitted c (action_directive_for row ActionDispositionRelease [])" if "decision = GiveUp st reason"
  proof (cases "local_action c (sa_id row)")
    case None
    then show ?thesis by (auto simp: action_admitted_def action_directive_for_def local_action_None)
  next
    case (Some a)
    have "ac_position a \<noteq> ActionPositionTerminal"
      using dec that Some by (auto simp: decide_action_def decide_accepted_def decide_terminal_def Let_def
          split: if_splits process_action_state.splits)
    with Some seq uniq pos local_action_Some [OF Some] show ?thesis
      by (auto simp: action_admitted_def action_directive_for_def)
  qed
  show "action_admitted c (action_directive_for row d payload)" if dis: "decision = Dispose d payload"
  proof (cases "sa_state row = ActionStateAccepted")
    case True
    then have "decide_accepted c disp row (local_action c (sa_id row)) = Inr (Dispose d payload)"
      using dec dis by (auto simp: decide_action_def Let_def split: if_splits)
    from start_or_live [OF live this] show ?thesis
      by (auto simp: action_admitted_def action_directive_for_def local_action_None)
  next
    case False
    then have t: "decide_terminal c row (local_action c (sa_id row)) = Inr (Dispose d payload)"
      using dec dis by (auto simp: decide_action_def Let_def split: if_splits process_action_state.splits)
    show ?thesis
    proof (cases "local_action c (sa_id row)")
      case None
      with t show ?thesis by (auto simp: decide_terminal_def Let_def action_admitted_def action_directive_for_def
            local_action_None split: if_splits)
    next
      case (Some a)
      with t seq uniq pos local_action_Some [OF Some] show ?thesis
        by (auto simp: decide_terminal_def Let_def action_admitted_def action_directive_for_def split: if_splits)
    qed
  qed
qed

lemma reconcile_actions_spec:
  assumes "valid_claim c" "disp = ProcessDispositionStart \<longrightarrow> pc_live c"
  shows "reconcile_actions c disp rows sdb = Inr (ds, sdb') \<Longrightarrow>
     keys sdb' = keys sdb \<and> list_all (action_admitted c) ds
   \<and> (\<forall>d \<in> set ds. \<exists>row \<in> set rows. sa_id row = ad_id d \<and> sa_seq row = ad_seq d)
   \<and> (\<forall>row \<in> set rows. \<forall>a \<in> set (pc_actions c). ac_id a = sa_id row \<longrightarrow> ac_seq a = sa_seq row)"
proof (induction rows arbitrary: sdb ds)
  case (Cons row rows)
  from Cons.prems obtain decision where dec: "decide_action c disp row = Inr decision" by auto
  have seq: "ac_seq a = sa_seq row" if "a \<in> set (pc_actions c)" "ac_id a = sa_id row" for a
  proof -
    have "local_action c (sa_id row) = Some a"
      using local_action_unique [of c a] that assms(1) by (auto simp: valid_claim_def)
    with dec show ?thesis by (auto simp: decide_action_def Let_def split: if_splits)
  qed
  show ?case
  proof (cases decision)
    case SkipAction
    with Cons dec seq show ?thesis by fastforce
  next
    case (Dispose d payload)
    with Cons.prems dec obtain ds' where r: "reconcile_actions c disp rows sdb = Inr (ds', sdb')"
      and ds: "ds = action_directive_for row d payload # ds'" by auto
    from Cons.IH [OF r] decide_action_admitted(1) [OF assms dec Dispose] seq show ?thesis
      by (auto simp: ds action_directive_for_def)
  next
    case (GiveUp st reason)
    with Cons.prems dec obtain sdb1 ds' where k: "resolveAcceptedProcessActionForReconciliationTx row st reason sdb = Inr sdb1"
      and r: "reconcile_actions c disp rows sdb1 = Inr (ds', sdb')"
      and ds: "ds = action_directive_for row ActionDispositionRelease [] # ds'" by auto
    from Cons.IH [OF r] decide_action_admitted(2) [OF assms dec GiveUp] keys_resolve [OF k] seq show ?thesis
      by (auto simp: ds action_directive_for_def)
  qed
qed simp

section \<open>Directives for processes\<close>

text \<open>The rows and the claim agree on the identity of every local action.\<close>

definition rows_match :: "server_db \<Rightarrow> process_claim \<Rightarrow> bool" where
  "rows_match sdb c \<longleftrightarrow> (\<forall>a \<in> set (pc_actions c). \<exists>row \<in> set (sdb_actions sdb).
     sa_id row = ac_id a \<and> sa_process_id row = pc_process_id c \<and> sa_seq row = ac_seq a)"

definition process_admitted :: "server_db \<Rightarrow> process_claim \<Rightarrow> process_directive \<Rightarrow> bool" where
  "process_admitted sdb c d \<longleftrightarrow>
     pd_process_id d = pc_process_id c \<and> pd_supervisor_instance_id d = pc_supervisor_instance_id c
   \<and> (case pd_disposition d of
        ProcessDispositionClosePreparation \<Rightarrow> ungranted c
      | ProcessDispositionStart \<Rightarrow> pc_live c \<and> (pc_phase c = Phase ProcessPrepared \<or> pc_phase c = Phase ProcessAccepted)
          \<and> (\<exists>p \<in> set (sdb_processes sdb). sp_id p = pc_process_id c \<and> sp_state p = ProcessStateStarting)
      | ProcessDispositionRetain \<Rightarrow> True
      | ProcessDispositionRelease \<Rightarrow> True
      | ProcessDispositionOther _ \<Rightarrow> False)
   \<and> (pd_disposition d \<noteq> ProcessDispositionClosePreparation \<longrightarrow>
        list_all (\<lambda>a. action_admitted c a \<and> names_row sdb c a) (pd_actions d) \<and> rows_match sdb c)"

lemma keys_rows:
  assumes "keys sdb' = keys sdb" "row' \<in> set (sdb_actions sdb')"
  shows "\<exists>row \<in> set (sdb_actions sdb). action_key row = action_key row'"
proof -
  have "action_key row' \<in> set (map action_key (sdb_actions sdb'))" using assms(2) by simp
  then have "action_key row' \<in> set (map action_key (sdb_actions sdb))" using assms(1) by (simp only: keys_def prod.inject)
  then show ?thesis by auto
qed

lemma keys_names_row: "keys sdb' = keys sdb \<Longrightarrow> names_row sdb' c d \<Longrightarrow> names_row sdb c d"
  unfolding names_row_def by (auto dest!: keys_rows simp: action_key_def)

lemma keys_rows_match:
  assumes "keys sdb' = keys sdb" "rows_match sdb' c"
  shows "rows_match sdb c"
  unfolding rows_match_def
proof
  fix a assume "a \<in> set (pc_actions c)"
  then obtain row' where row': "row' \<in> set (sdb_actions sdb')" "sa_id row' = ac_id a"
    "sa_process_id row' = pc_process_id c" "sa_seq row' = ac_seq a" using assms(2) by (auto simp: rows_match_def)
  from keys_rows [OF assms(1) row'(1)] row'(2-4)
  show "\<exists>row \<in> set (sdb_actions sdb). sa_id row = ac_id a \<and> sa_process_id row = pc_process_id c \<and> sa_seq row = ac_seq a"
    by (auto simp: action_key_def)
qed

lemma reconcile_process_actions_spec:
  assumes c: "valid_claim c" "sp_id p = pc_process_id c" and live: "disp = ProcessDispositionStart \<longrightarrow> pc_live c"
    and r: "reconcileProcessActionsTx p c disp sdb = Inr (ds, sdb')"
  shows "keys sdb' = keys sdb" "list_all (\<lambda>a. action_admitted c a \<and> names_row sdb c a) ds" "rows_match sdb c"
proof -
  let ?rows = "ListProcessActionsAfterResolvedSequence (sp_id p) (pc_resolved_seq c) sdb"
  have rows: "set ?rows \<subseteq> {a \<in> set (sdb_actions sdb). sa_process_id a = pc_process_id c}"
    using c(2) by (auto simp: ListProcessActionsAfterResolvedSequence_def)
  from r have rec: "reconcile_actions c disp ?rows sdb = Inr (ds, sdb')"
    and all: "\<forall>a \<in> set (pc_actions c). \<exists>row \<in> set ?rows. sa_id row = ac_id a"
    by (auto simp: reconcileProcessActionsTx_def Let_def list_all_iff list_ex_iff split: if_splits)
  note spec = reconcile_actions_spec [OF c(1) live rec]
  show "keys sdb' = keys sdb" using spec by blast
  show "list_all (\<lambda>a. action_admitted c a \<and> names_row sdb c a) ds"
    using spec rows by (fastforce simp: list_all_iff names_row_def)
  show "rows_match sdb c" unfolding rows_match_def
  proof
    fix a assume a: "a \<in> set (pc_actions c)"
    then obtain row where row: "row \<in> set ?rows" "sa_id row = ac_id a" using all by blast
    then have "sa_seq row = ac_seq a" using spec a by (metis (no_types, lifting))
    with row rows show "\<exists>row \<in> set (sdb_actions sdb). sa_id row = ac_id a \<and> sa_process_id row = pc_process_id c
       \<and> sa_seq row = ac_seq a" by blast
  qed
qed

lemma with_actions_spec:
  assumes c: "valid_claim c" "sp_id p = pc_process_id c" and k: "keys sdb1 = keys sdb"
    and disp: "disp = ProcessDispositionRetain \<or> disp = ProcessDispositionRelease
      \<or> disp = ProcessDispositionStart \<and> pc_live c \<and> (pc_phase c = Phase ProcessPrepared \<or> pc_phase c = Phase ProcessAccepted)
        \<and> (\<exists>q \<in> set (sdb_processes sdb). sp_id q = pc_process_id c \<and> sp_state q = ProcessStateStarting)"
    and r: "with_actions p c (disp, sdb1) = Inr (d, sdb')"
  shows "keys sdb' = keys sdb \<and> process_admitted sdb c d"
proof -
  from r obtain ds where rec: "reconcileProcessActionsTx p c disp sdb1 = Inr (ds, sdb')"
    and d: "d = directive_for p c disp ds" by (auto simp: with_actions_def)
  have "disp = ProcessDispositionStart \<longrightarrow> pc_live c" using disp by auto
  note spec = reconcile_process_actions_spec [OF c this rec]
  have "list_all (\<lambda>a. action_admitted c a \<and> names_row sdb c a) ds"
    using spec(2) keys_names_row [OF k] by (auto simp: list_all_iff)
  with spec(1) keys_rows_match [OF k spec(3)] k c(2) disp show ?thesis
    by (auto simp: d directive_for_def process_admitted_def)
qed

lemma phase_cases:
  assumes "valid_claim c" "pc_phase c \<noteq> Phase ProcessPreparing" "pc_phase c \<noteq> Phase ProcessTerminal"
  shows "pc_phase c = Phase ProcessPrepared \<or> pc_phase c = Phase ProcessAccepted"
  using assms by (auto simp: valid_claim_def) (metis process_phase.exhaust)

lemma reconcile_process_spec:
  assumes c: "valid_claim c" "sp_id p = pc_process_id c" and p: "p \<in> set (sdb_processes sdb)" and k: "keys sdb1 = keys sdb"
    and r: "reconcileProcessTx p c sdb1 = Inr (d, sdb')"
  shows "keys sdb' = keys sdb \<and> process_admitted sdb c d"
proof -
  note step = with_actions_spec [OF c, where sdb = sdb]
  consider (queued) "sp_state p = ProcessStateQueued" | (starting) "sp_state p = ProcessStateStarting"
    | (running) "sp_state p = ProcessStateRunning" | (terminal) "isProcessTerminal (sp_state p)"
    using r by (auto simp: reconcileProcessTx_def split: if_splits)
  then show ?thesis
  proof cases
    case queued
    with r have "ungranted c" "d = directive_for p c ProcessDispositionClosePreparation []" "sdb' = sdb1"
      using phase_cases [OF c(1)] by (auto simp: reconcileProcessTx_def ungranted_def split: if_splits)
    with k c(2) show ?thesis by (simp add: process_admitted_def directive_for_def)
  next
    case starting
    with r obtain disp sdb2 where dec: "decide_starting p c sdb1 = Inr (disp, sdb2)"
      and w: "with_actions p c (disp, sdb2) = Inr (d, sdb')" by (auto simp: reconcileProcessTx_def)
    have k2: "keys sdb2 = keys sdb" using dec k by (auto simp: decide_starting_def split: if_splits dest: keys_unknown keys_failed)
    have "disp = ProcessDispositionRetain \<or> disp = ProcessDispositionRelease
      \<or> disp = ProcessDispositionStart \<and> pc_live c \<and> (pc_phase c = Phase ProcessPrepared \<or> pc_phase c = Phase ProcessAccepted)"
      using dec phase_cases [OF c(1)] by (auto simp: decide_starting_def split: if_splits)
    then show ?thesis using p starting c(2) by (intro step [OF k2 _ w]) auto
  next
    case running
    with r obtain disp sdb2 where dec: "decide_running p c sdb1 = Inr (disp, sdb2)"
      and w: "with_actions p c (disp, sdb2) = Inr (d, sdb')" by (auto simp: reconcileProcessTx_def)
    have k2: "keys sdb2 = keys sdb" using dec k by (auto simp: decide_running_def split: if_splits dest: keys_unknown)
    show ?thesis by (rule step [OF k2 _ w]) (use dec in \<open>auto simp: decide_running_def split: if_splits\<close>)
  next
    case terminal
    then have st: "sp_state p \<noteq> ProcessStateQueued" "sp_state p \<noteq> ProcessStateStarting" "sp_state p \<noteq> ProcessStateRunning"
      by (auto simp: isProcessTerminal_def)
    show ?thesis
    proof (cases "ungranted c")
      case True
      with r terminal st k c(2) show ?thesis
        by (auto simp: reconcileProcessTx_def process_admitted_def directive_for_def dest!: keys_completions keys_complete_terminal)
    next
      case False
      with r terminal st obtain sdb2 where t: "completeQueuedProcessActionsForTerminalProcessTx p sdb1 = Inr sdb2"
        and w: "with_actions p c (ProcessDispositionRelease, sdb2) = Inr (d, sdb')" by (auto simp: reconcileProcessTx_def)
      have k2: "keys sdb2 = keys sdb" using keys_complete_terminal [OF t] k by simp
      show ?thesis by (rule step [OF k2 _ w]) simp
    qed
  qed
qed

section \<open>One directive per claim\<close>

lemma keys_unclaimed: "reconcileUnclaimed p sdb = Inr sdb' \<Longrightarrow> keys sdb' = keys sdb"
  by (auto simp: reconcileUnclaimed_def split: if_splits dest!: keys_unknown keys_completions keys_complete_terminal)

lemma reconcile_processes_spec:
  assumes "list_all valid_claim cs" "set ps \<subseteq> set (sdb_processes sdb)"
  shows "keys sdb1 = keys sdb \<Longrightarrow> reconcile_processes cs ps sdb1 = Inr (ds, sdb') \<Longrightarrow>
     map pd_process_id ds = filter (\<lambda>i. i \<in> pc_process_id ` set cs) (map sp_id ps)
   \<and> (\<forall>d \<in> set ds. \<exists>c \<in> set cs. process_admitted sdb c d)"
  using assms(2)
proof (induction ps arbitrary: sdb1 ds)
  case (Cons p ps)
  show ?case
  proof (cases "find (\<lambda>c. pc_process_id c = sp_id p) cs")
    case None
    with Cons.prems obtain sdb2 where u: "reconcileUnclaimed p sdb1 = Inr sdb2"
      and r: "reconcile_processes cs ps sdb2 = Inr (ds, sdb')" by auto
    from None have "sp_id p \<notin> pc_process_id ` set cs" by (auto simp: find_None_iff)
    with Cons.IH [OF _ r] keys_unclaimed [OF u] Cons.prems show ?thesis by auto
  next
    case (Some c)
    with Cons.prems obtain d sdb2 ds' where x: "reconcileProcessTx p c sdb1 = Inr (d, sdb2)"
      and r: "reconcile_processes cs ps sdb2 = Inr (ds', sdb')" and ds: "ds = d # ds'" by auto
    from Some have c: "c \<in> set cs" "pc_process_id c = sp_id p" by (auto simp: find_Some_iff)
    then have v: "valid_claim c" using assms(1) by (auto simp: list_all_iff)
    have p: "p \<in> set (sdb_processes sdb)" using Cons.prems(3) by simp
    have "keys sdb2 = keys sdb \<and> process_admitted sdb c d"
      by (rule reconcile_process_spec [OF v _ p Cons.prems(1) x]) (simp add: c(2))
    moreover from this have "pd_process_id d = sp_id p" using c(2) by (simp add: process_admitted_def)
    moreover have "sp_id p \<in> pc_process_id ` set cs" using c by force
    ultimately show ?thesis using Cons.IH [OF _ r] Cons.prems(3) c(1) by (auto simp: ds)
  qed
qed simp

lemma load_claimed_spec:
  assumes "distinct (map sp_id (sdb_processes sdb))"
  shows "load_claimed sdb ps cs = Inr out \<Longrightarrow> set ps \<subseteq> set (sdb_processes sdb) \<Longrightarrow> distinct (map sp_id ps) \<Longrightarrow>
     set out \<subseteq> set (sdb_processes sdb) \<and> distinct (map sp_id out)
   \<and> set ps \<subseteq> set out \<and> pc_process_id ` set cs \<subseteq> sp_id ` set out"
proof (induction sdb ps cs rule: load_claimed.induct)
  case (2 sdb ps c cs)
  show ?case
  proof (cases "list_ex (\<lambda>p. sp_id p = pc_process_id c) ps")
    case True
    then obtain p where "p \<in> set ps" "sp_id p = pc_process_id c" by (auto simp: list_ex_iff)
    moreover have "set out \<subseteq> set (sdb_processes sdb) \<and> distinct (map sp_id out) \<and> set ps \<subseteq> set out
       \<and> pc_process_id ` set cs \<subseteq> sp_id ` set out" using "2.IH"(1) [OF True] "2.prems" True by simp
    ultimately show ?thesis by (auto intro: rev_image_eqI [of p])
  next
    case False
    with "2.prems" obtain p where p: "GetProcessByMachine (pc_process_id c) sdb = Some p"
      and l: "load_claimed sdb (ps @ [p]) cs = Inr out" by (auto split: option.splits)
    then have mem: "p \<in> set (sdb_processes sdb)" "sp_id p = pc_process_id c"
      by (auto simp: GetProcessByMachine_def find_Some_iff)
    moreover have "sp_id p \<notin> sp_id ` set ps" using False mem(2) by (auto simp: list_ex_iff)
    ultimately have "set out \<subseteq> set (sdb_processes sdb) \<and> distinct (map sp_id out) \<and> set (ps @ [p]) \<subseteq> set out
       \<and> pc_process_id ` set cs \<subseteq> sp_id ` set out"
      using "2.IH"(2) [OF False p l] "2.prems"(2,3) by auto
    with mem(2) show ?thesis by (auto intro: rev_image_eqI [of p])
  qed
qed auto

definition server_ok :: "server_db \<Rightarrow> bool" where
  "server_ok sdb \<longleftrightarrow> distinct (map sp_id (sdb_processes sdb)) \<and> distinct (map sa_id (sdb_actions sdb))
     \<and> distinct (map (\<lambda>a. (sa_process_id a, sa_seq a)) (sdb_actions sdb))
     \<and> list_all (\<lambda>a. sa_id a \<noteq> [] \<and> 0 < sa_seq a \<and> sa_seq a \<le> max_int64) (sdb_actions sdb)"

theorem reconcile_spec:
  assumes ok: "server_ok sdb" and visit: "\<And>ps. mset (visit ps) = mset ps"
    and r: "reconcileRegisteredRuntimeTx visit claims sdb = Inr (ds, sdb')"
  shows "valid_claims claims" "distinct (map pd_process_id ds)"
    "pd_process_id ` set ds = pc_process_id ` set claims" "\<forall>d \<in> set ds. \<exists>c \<in> set claims. process_admitted sdb c d"
proof -
  from r obtain ps ds0 where v: "valid_claims claims"
    and l: "loadReconciliationProcesses claims sdb = Inr ps"
    and p: "reconcile_processes claims (visit ps) (ResetAcceptedReadProcessActionsForMachine sdb) = Inr (ds0, sdb')"
    and ds: "ds = sort_key pd_process_id ds0"
    by (auto simp: reconcileRegisteredRuntimeTx_def lockAndLoadReconciliationProcesses_def validate_claims_iff)
  have rows: "distinct (map sp_id (sdb_processes sdb))" using ok by (simp add: server_ok_def)
  have "set (ListProcessesForMachineReconciliation sdb) \<subseteq> set (sdb_processes sdb)"
    "distinct (map sp_id (ListProcessesForMachineReconciliation sdb))"
    using rows by (auto simp: ListProcessesForMachineReconciliation_def distinct_map_filter)
  from load_claimed_spec [OF rows l [unfolded loadReconciliationProcesses_def] this]
  have ps: "set ps \<subseteq> set (sdb_processes sdb)" "distinct (map sp_id ps)" "pc_process_id ` set claims \<subseteq> sp_id ` set ps" by auto
  have visited: "set (visit ps) = set ps" "distinct (map sp_id (visit ps))"
    using visit [of ps] ps(2) by (metis mset_eq_setD, metis mset_eq_imp_distinct_iff mset_map visit)
  have "list_all valid_claim claims" using v by (simp add: valid_claims_def)
  note spec = reconcile_processes_spec [OF this _ keys_reset p, unfolded visited(1), OF ps(1)]
  have set_ds: "set ds = set ds0" by (simp add: ds)
  have ids: "set (map pd_process_id ds0) = set (filter (\<lambda>i. i \<in> pc_process_id ` set claims) (map sp_id (visit ps)))"
    "distinct (map pd_process_id ds0)"
    using spec visited(2) by (simp_all add: distinct_filter)
  show "valid_claims claims" by (rule v)
  have "mset (map pd_process_id ds) = mset (map pd_process_id ds0)" by (simp add: ds)
  with ids(2) show "distinct (map pd_process_id ds)" by (metis mset_eq_imp_distinct_iff)
  show "pd_process_id ` set ds = pc_process_id ` set claims"
    using ids(1) ps(3) by (auto simp: set_ds visited(1))
  show "\<forall>d \<in> set ds. \<exists>c \<in> set claims. process_admitted sdb c d" using spec by (simp add: set_ds)
qed

end
