(* ===== verification/Registration_Handshake.thy ===== *)
theory Registration_Handshake
  imports Registration_Scan Server_Directives
begin

text \<open>
  The two sides of a registration together: the claims of a scan are claims the backend accepts, and
  every directive the backend derives from them is one the daemon can carry out.
\<close>

section \<open>The backend accepts what the scan claims\<close>

lemma set_ListProcessActions: "set (ListProcessActions pid db) = actions_of pid db"
  by (auto simp: ListProcessActions_def actions_of_def)

lemma distinct_ListProcessActions:
  assumes "schema_ok db"
  shows "distinct (map action_id (ListProcessActions pid db))"
proof -
  have "distinct (map action_id (process_actions db))" by (rule schema_okD(5) [OF assms])
  then have "distinct (map action_id (filter (\<lambda>a. action_process_id a = pid) (process_actions db)))"
    by (rule distinct_map_filter)
  then show ?thesis by (simp add: ListProcessActions_def distinct_map)
qed

lemma claim_valid:
  assumes inv: "db_inv codec db" and p: "p \<in> set (processes db)"
  shows "valid_claim (claim_for db live p)"
proof -
  let ?as = "ListProcessActions (process_id p) db"
  have ok: "schema_ok db" by (rule db_invD(1) [OF inv])
  have row: "process_check p" by (rule schema_okD(1) [OF ok p])
  have inv': "proc_inv p (actions_of (process_id p) db) (reports_of (process_id p) db)" by (rule db_invD(2) [OF inv p refl])
  have act: "action_id a \<noteq> [] \<and> resolved_action_seq p < action_seq a \<and> action_kind_mutating (action_kind a)"
    if "a \<in> set ?as" for a
    using that inv' schema_okD(2) [OF ok, of a]
    by (auto simp: set_ListProcessActions proc_inv_def actions_of_def action_check_def mutating_iff)
  have ids: "distinct (map action_id ?as)" by (rule distinct_ListProcessActions [OF ok])
  then have "length ?as = card (set ?as)" by (simp add: distinct_map distinct_card)
  also have "card (set ?as) \<le> Suc 0"
    using one_action [OF inv] by (simp add: card_le_Suc0_iff_eq) (metis set_ListProcessActions)
  finally have "distinct (map action_seq ?as)" by (cases ?as) auto
  with ids act row show ?thesis
    by (auto simp: valid_claim_def claim_for_def list_all_iff valid_action_claim_def action_claim_for_def
        process_check_def o_def)
qed

lemma scanned_valid:
  assumes "db_inv codec db" "scanned s db"
  shows "valid_claims (Claims s)"
proof -
  have "distinct (map process_id (ListProcesses db))"
    using schema_okD(4) [OF db_invD(1) [OF assms(1)]] by (simp add: ListProcesses_def distinct_map)
  moreover have "map pc_process_id (Claims s) = map process_id (ListProcesses db)"
    using assms(2) by (simp add: scanned_def claim_for_def o_def)
  moreover have "list_all valid_claim (Claims s)"
    using assms claim_valid [OF assms(1)] by (auto simp: scanned_def list_all_iff ListProcesses_def)
  ultimately show ?thesis unfolding valid_claims_def by (simp only:)
qed

section \<open>Releasing an action\<close>

text \<open>What an action directive needs of the database to be released, and what settling needs.\<close>

definition releasable :: "statedb \<Rightarrow> string \<Rightarrow> action_directive \<Rightarrow> bool" where
  "releasable db pid d \<longleftrightarrow> ad_id d \<noteq> [] \<and> 0 < ad_seq d \<and> in_int64 (ad_seq d)
     \<and> (\<forall>a \<in> set (process_actions db). action_id a = ad_id d \<longrightarrow>
          action_process_id a = pid \<and> action_seq a = ad_seq d \<and> \<not> reported (reports_of pid db) a)
     \<and> (\<forall>b \<in> actions_of pid db. action_seq b = ad_seq d \<longrightarrow> action_id b = ad_id d)"

lemma advance_Inl: "AdvanceReleasedActionSequence n pid sid db = Inl e \<Longrightarrow> e = ErrDatabase"
  by (auto simp: AdvanceReleasedActionSequence_def bindE_eq_Inl dest: update_processes_Inl)

lemma compact_Inl: "compactMissingActionPrefixTx p n db = Inl e \<Longrightarrow> e = ErrDatabase \<or> e = ErrActionBlocked"
  by (auto simp: compactMissingActionPrefixTx_def CompactMissingActionPrefix_def bindE_eq_Inl
      split: if_splits dest: update_processes_Inl)

lemma release_succeeds:
  assumes inv: "db_inv codec db" and p: "p \<in> set (processes db)" "owned pid sid p" and r: "releasable db pid d"
  shows "\<exists>db'. ReleaseAction pid sid (ad_id d) (ad_seq d) db = Inr db'"
proof (rule ccontr)
  let ?seq = "ad_seq d" and ?aid = "ad_id d"
  assume "\<not> ?thesis"
  then obtain e where e: "releaseAction pid sid ?aid ?seq False db = Inl e"
    by (cases "ReleaseAction pid sid ?aid ?seq db") (auto simp: ReleaseAction_def)
  have ok: "schema_ok db" by (rule db_invD(1) [OF inv])
  have seq: "0 < ?seq" "in_int64 ?seq" "?aid \<noteq> []" using r by (auto simp: releasable_def)
  have row: "processTx pid db = Some p" by (rule processTx_row [OF ok p])
  have ids: "pid \<noteq> []" "sid \<noteq> []" "supervisor_instance_id p = sid" "0 \<le> resolved_action_seq p"
    using schema_okD(1) [OF ok p(1)] p(2) by (auto simp: process_check_def owned_def)
  have "e = ErrDatabase"
  proof (cases "actionTx ?aid db")
    case None
    then have absent: "a \<in> set (process_actions db) \<Longrightarrow> action_id a \<noteq> ?aid" for a
      by (auto simp: actionTx_def GetProcessAction_def find_None_iff)
    then have "find (\<lambda>a. action_process_id a = pid \<and> action_seq a = ?seq) (process_actions db) = None"
      using r by (auto simp: find_None_iff releasable_def actions_of_def)
    then have unused: "ensureActionSequenceUnused pid ?seq db = Inr ()"
      by (simp add: ensureActionSequenceUnused_def GetProcessActionIDBySequence_def)
    let ?c = "if wrap64 (resolved_action_seq p + 1) < ?seq then compactMissingActionPrefixTx p ?seq db else Inr (p, db)"
    have lt: "resolved_action_seq p < ?seq"
      using e None row ids seq unused by (auto simp: releaseAction_def Let_def split: if_splits)
    have w: "wrap64 (resolved_action_seq p + 1) = resolved_action_seq p + 1"
      using ids(4) lt seq(2) by (rule wrap64_succ_below)
    show ?thesis
    proof (cases ?c)
      case (Inl e')
      with e None row ids seq unused lt have "e = e'" "e' \<noteq> ErrActionBlocked"
        by (auto simp: releaseAction_def Let_def split: if_splits)
      moreover have "compactMissingActionPrefixTx p ?seq db = Inl e'" using Inl by (auto split: if_splits)
      ultimately show ?thesis using compact_Inl by blast
    next
      case (Inr r')
      obtain p1 db1 where r': "r' = (p1, db1)" by force
      have "wrap64 (resolved_action_seq p1 + 1) = ?seq"
      proof (cases "wrap64 (resolved_action_seq p + 1) < ?seq")
        case True
        with Inr r' have "compactMissingActionPrefixTx p ?seq db = Inr (p1, db1)" by simp
        from compactMissing_Inr(1) [OF ok p(1) seq(2) lt this] show ?thesis using seq(2) by simp
      next
        case False
        with Inr r' w lt show ?thesis by simp
      qed
      with e None row ids seq unused lt Inr r' show ?thesis
        by (auto simp: releaseAction_def Let_def split: if_splits dest: advance_Inl)
    qed
  next
    case (Some a)
    then have a: "a \<in> set (process_actions db)" "action_id a = ?aid"
      by (auto simp: actionTx_def dest: GetProcessAction_SomeD)
    then have mine: "action_process_id a = pid" "action_seq a = ?seq" "\<not> reported (reports_of pid db) a"
      using r by (auto simp: releasable_def)
    then have "?seq = resolved_action_seq p + 1"
      using db_invD(2) [OF inv p(1), of pid] p(2) a by (auto simp: proc_inv_def actions_of_def owned_def)
    moreover from this have "wrap64 (resolved_action_seq p + 1) = resolved_action_seq p + 1" using seq(2) by simp
    moreover have "report_action_id q \<noteq> Some ?aid" if q: "q \<in> set (frozen_reports db)" for q
    proof
      assume "report_action_id q = Some ?aid"
      moreover from schema_ok_report_action [OF ok q this] a action_unique [OF ok] mine(1)
      have "report_process_id q = pid" by metis
      ultimately show False using mine(3) q a(2) by (auto simp: reported_def reports_of_def)
    qed
    then have "reportByActionTx ?aid db = None"
      by (auto simp: reportByActionTx_def GetFrozenReportByAction_def find_None_iff)
    ultimately show ?thesis
      using e Some row ids seq mine by (auto simp: releaseAction_def Let_def split: if_splits dest: advance_Inl)
  qed
  then show False using e releaseAction_no_error [OF ok seq(2)] by blast
qed

section \<open>Applying action directives\<close>

definition settleable :: "statedb \<Rightarrow> string \<Rightarrow> action_directive \<Rightarrow> bool" where
  "settleable db pid d \<longleftrightarrow> (\<exists>r \<in> reports_of pid db. report_action_id r = Some (ad_id d))"

text \<open>The action directives of a process can be carried out on this database.\<close>

definition workable :: "(string \<Rightarrow> bool) \<Rightarrow> statedb \<Rightarrow> string \<Rightarrow> action_directive \<Rightarrow> bool" where
  "workable live db pid d \<longleftrightarrow>
     (case ad_disposition d of
        ActionDispositionRetain \<Rightarrow> True
      | ActionDispositionApply \<Rightarrow> live pid
      | ActionDispositionSettle \<Rightarrow> settleable db pid d
      | ActionDispositionRelease \<Rightarrow> releasable db pid d
      | ActionDispositionOther _ \<Rightarrow> False)"

lemma releasable_mono:
  assumes "releasable db pid d" "fewer_actions db db'" "reports_of pid db' = reports_of pid db"
  shows "releasable db' pid d"
  using assms by (auto simp: releasable_def fewer_actions_def actions_of_def)

lemma workable_mono:
  assumes "workable live db pid d" "fewer_actions db db'" "reports_of pid db' = reports_of pid db" "live' pid = live pid"
  shows "workable live' db' pid d"
  using assms releasable_mono [OF _ assms(2,3)]
  by (auto simp: workable_def settleable_def split: action_disposition.splits)

lemma workable_list_mono:
  assumes "list_all (workable live db pid) ds" "fewer_actions db db'" "reports_of pid db' = reports_of pid db" "live' pid = live pid"
  shows "list_all (workable live' db' pid) ds"
  using assms(1) by (rule list.pred_mono_strong) (rule workable_mono [where live = live and live' = live', OF _ assms(2-4)], assumption)

lemma report_found:
  assumes "schema_ok db" "r \<in> reports_of pid db" "report_action_id r = Some i"
  shows "ReportBySlot ReportActionTerminal pid i db \<noteq> None"
proof -
  have r: "r \<in> set (frozen_reports db)" "report_process_id r = pid" using assms(2) by (auto simp: reports_of_def)
  have kind: "report_kind r = ReportActionTerminal"
    using schema_okD(3) [OF assms(1) r(1)] assms(3) by (auto simp: report_check_def)
  obtain a where "a \<in> set (process_actions db)" "action_id a = i"
    using schema_ok_report_action [OF assms(1) r(1) assms(3)] by blast
  then have "i \<noteq> []" using schema_okD(2) [OF assms(1), of a] by (auto simp: action_check_def)
  with assms(2,3) kind show ?thesis
    by (auto simp: ReportBySlot_def GetFrozenActionReportBySlot_def find_None_iff reports_of_def)
qed

text \<open>What carrying out an action directive leaves in place.\<close>

definition keeps_process :: "report_codec \<Rightarrow> process_claim \<Rightarrow> localStartupState \<times> world \<Rightarrow> localStartupState \<times> world \<Rightarrow> bool" where
  "keeps_process codec c = (\<lambda>(s, w) (s', w').
     frames codec (pc_process_id c) w w' \<and> frozen_reports (store w') = frozen_reports (store w) \<and> runs s' = runs s
   \<and> (\<exists>p' \<in> set (processes (store w')). owned (pc_process_id c) (pc_supervisor_instance_id c) p'))"

lemma touched_owned:
  assumes "p \<in> set (processes db)" "owned pid sid p" "owned pid sid (f p)"
  shows "\<exists>p' \<in> set (processes (touch pid sid f db)). owned pid sid p'"
  using touched_row [OF assms(1,2), of f] assms(3) by blast

lemma released_row:
  assumes "schema_ok db" "in_int64 seq" "releaseAction pid sid aid seq ab db = Inr db'"
    and "p \<in> set (processes db)" "owned pid sid p"
  shows "\<exists>p' \<in> set (processes db'). owned pid sid p'"
  using assms(1-3)
proof (cases rule: releaseActionE)
  case (moves q)
  show ?thesis
    using touched_owned [OF assms(4,5), of "\<lambda>p. p\<lparr>resolved_action_seq := seq\<rparr>"] assms(5)
    by (simp add: moves(7) unrecorded_def frontier_def owned_def)
qed (use assms(4,5) in blast)

lemma apply_action_calm:
  assumes calm: "calm w" and inv: "db_inv (env_codec env) (store w)"
    and p: "p \<in> set (processes (store w))" "owned (pc_process_id c) (pc_supervisor_instance_id c) p"
    and d: "workable (runs s) (store w) (pc_process_id c) d"
  shows "\<exists>s' w'. applyActionDisposition env c d s w = (Inr (), s', w') \<and> keeps_process (env_codec env) c (s, w) (s', w')"
proof -
  let ?pid = "pc_process_id c" and ?sid = "pc_supervisor_instance_id c"
  have ok: "schema_ok (store w)" by (rule db_invD(1) [OF inv])
  have same: "keeps_process (env_codec env) c (s, w) (s', w)" if "runs s' = runs s" for s'
    using that p by (auto simp: keeps_process_def frames_refl [OF calm inv])
  have start: "bindS (callS external) f s w = f () s w" for f :: "unit \<Rightarrow> unit starting"
    by (simp add: bindS_def external_calm [OF calm])
  show ?thesis
  proof (cases "ad_disposition d")
    case ActionDispositionApply
    then have "lookup_runtime (Runners s) ?pid \<noteq> None" using d by (simp add: workable_def runs_def)
    with ActionDispositionApply show ?thesis
      unfolding applyActionDisposition_def start
      by (auto simp: bindS_def intro!: same simp: runs_def [abs_def])
  next
    case ActionDispositionRetain
    then show ?thesis unfolding applyActionDisposition_def start by (auto intro!: same)
  next
    case ActionDispositionSettle
    then obtain r where r: "r \<in> reports_of ?pid (store w)" "report_action_id r = Some (ad_id d)"
      using d by (auto simp: workable_def settleable_def)
    then obtain q where "ReportBySlot ReportActionTerminal ?pid (ad_id d) (store w) = Some q"
      using report_found [OF ok] by blast
    with ActionDispositionSettle show ?thesis
      unfolding applyActionDisposition_def start
      by (auto simp: bindS_def query_calm [OF calm] force_reports_def
          intro!: same simp: runs_def [abs_def])
  next
    case ActionDispositionRelease
    then have r: "releasable (store w) ?pid d" using d by (simp add: workable_def)
    then obtain db' where db': "ReleaseAction ?pid ?sid (ad_id d) (ad_seq d) (store w) = Inr db'"
      using release_succeeds [OF inv p] by blast
    let ?op = "OpReleaseAction ?pid ?sid (ad_id d) (ad_seq d)"
    have seq: "in_int64 (ad_seq d)" using r by (simp add: releasable_def)
    have perf: "perform (env_codec env) ?op (store w) = Inr (Done, db')" using db' by (simp add: finished_def)
    have "frames (env_codec env) ?pid w (w\<lparr>store := db'\<rparr>)"
      by (rule frames_perform [OF calm inv _ perf]) (simp add: seq)
    moreover note fewer_release [OF ok seq db' [unfolded ReleaseAction_def]]
      released_row [OF ok seq db' [unfolded ReleaseAction_def] p]
    ultimately have "keeps_process (env_codec env) c (s, w) (s, w\<lparr>store := db'\<rparr>)" by (simp add: keeps_process_def)
    with ActionDispositionRelease show ?thesis
      unfolding applyActionDisposition_def start by (auto simp: retry_calm [OF calm perf])
  next
    case (ActionDispositionOther x)
    with d show ?thesis by (simp add: workable_def)
  qed
qed

lemma reports_of_same: "frozen_reports db' = frozen_reports db \<Longrightarrow> reports_of pid db' = reports_of pid db"
  by (simp add: reports_of_def)

lemma apply_actions_calm:
  assumes "calm w" "db_inv (env_codec env) (store w)"
    and "p \<in> set (processes (store w))" "owned (pc_process_id c) (pc_supervisor_instance_id c) p"
    and "list_all (workable (runs s) (store w) (pc_process_id c)) ds"
  shows "\<exists>s' w'. forS ds (applyActionDisposition env c) s w = (Inr (), s', w')
     \<and> keeps_process (env_codec env) c (s, w) (s', w')"
  using assms
proof (induction ds arbitrary: s w p)
  case Nil
  then show ?case by (auto simp: keeps_process_def frames_refl)
next
  case (Cons d ds)
  then obtain s1 w1 where a: "applyActionDisposition env c d s w = (Inr (), s1, w1)"
    and k: "keeps_process (env_codec env) c (s, w) (s1, w1)"
    using apply_action_calm [of w env p c s d] by auto
  from k obtain p1 where h: "frames (env_codec env) (pc_process_id c) w w1" "frozen_reports (store w1) = frozen_reports (store w)"
    "runs s1 = runs s" "p1 \<in> set (processes (store w1))" "owned (pc_process_id c) (pc_supervisor_instance_id c) p1"
    by (auto simp: keeps_process_def)
  have fewer: "fewer_actions (store w) (store w1)" and w1: "calm w1" "db_inv (env_codec env) (store w1)"
    using h(1) by (simp_all add: frames_def)
  have "list_all (workable (runs s) (store w) (pc_process_id c)) ds" using Cons.prems(5) by simp
  then have "list_all (workable (runs s1) (store w1) (pc_process_id c)) ds"
    by (rule workable_list_mono [OF _ fewer reports_of_same [OF h(2)] fun_cong [OF h(3)]])
  then obtain s2 w2 where f: "forS ds (applyActionDisposition env c) s1 w1 = (Inr (), s2, w2)"
    and k2: "keeps_process (env_codec env) c (s1, w1) (s2, w2)"
    using Cons.IH [OF w1 h(4,5)] by blast
  have "keeps_process (env_codec env) c (s, w) (s2, w2)"
    using k k2 frames_trans by (auto simp: keeps_process_def)
  with a f show ?case by (auto simp: bindS_def)
qed

section \<open>Applying a process directive\<close>

lemma runner_call_calm:
  assumes "calm w"
  shows "runner_call pid s w = (Inr (Inr ()), s, w)"
  by (simp add: runner_call_def bindS_def tryD_def external_calm [OF assms])

text \<open>What the rows of a process must be for a directive to be carried out.\<close>

definition awaits :: "(string \<Rightarrow> bool) \<Rightarrow> statedb \<Rightarrow> process_claim \<Rightarrow> process_directive \<Rightarrow> bool" where
  "awaits live db c d \<longleftrightarrow> (\<exists>p \<in> rows_of (pc_process_id c) db. supervisor_instance_id p = pc_supervisor_instance_id c
     \<and> (case pd_disposition d of
          ProcessDispositionClosePreparation \<Rightarrow> phase p = ProcessPreparing \<or> phase p = ProcessPrepared
        | ProcessDispositionStart \<Rightarrow> live (pc_process_id c) \<and> (phase p = ProcessPrepared \<or> phase p = ProcessAccepted)
            \<and> \<not> server_released p \<and> list_all (workable live db (pc_process_id c)) (pd_actions d)
        | ProcessDispositionRetain \<Rightarrow> list_all (workable live db (pc_process_id c)) (pd_actions d)
        | ProcessDispositionRelease \<Rightarrow> list_all (workable live db (pc_process_id c)) (pd_actions d)
        | ProcessDispositionOther _ \<Rightarrow> False))"

definition others_kept :: "report_codec \<Rightarrow> string \<Rightarrow> localStartupState \<times> world \<Rightarrow> localStartupState \<times> world \<Rightarrow> bool" where
  "others_kept codec pid = (\<lambda>(s, w) (s', w'). frames codec pid w w' \<and> (\<forall>q. q \<noteq> pid \<longrightarrow> runs s' q = runs s q))"

lemma others_kept_world:
  "frames codec pid w w' \<Longrightarrow> runs s' = runs s \<Longrightarrow> others_kept codec pid (s, w) (s', w')"
  by (simp add: others_kept_def)

lemma others_kept_trans:
  "others_kept codec pid a b \<Longrightarrow> others_kept codec pid b c \<Longrightarrow> others_kept codec pid a c"
  unfolding others_kept_def using frames_trans by (auto split: prod.splits)

lemma keeps_others: "keeps_process codec c a b \<Longrightarrow> others_kept codec (pc_process_id c) a b"
  by (auto simp: keeps_process_def others_kept_def)

lemma lookup_delete: "q \<noteq> pid \<Longrightarrow> lookup_runtime (delete_runtime pid rs) q = lookup_runtime rs q"
  by (induction rs) (auto simp: delete_runtime_def lookup_runtime_def)

lemma delete_others: "q \<noteq> pid \<Longrightarrow> runs (s\<lparr>Runners := delete_runtime pid (Runners s)\<rparr>) q = runs s q"
  by (simp add: runs_def lookup_delete)

lemma runs_Runners: "runs (s\<lparr>stoppedLocks := ls, Runners := rs\<rparr>) = runs (s\<lparr>Runners := rs\<rparr>)"
  by (simp add: runs_def [abs_def])

lemma awaits_mono:
  assumes "awaits live db c d" "fewer_actions db db'" "same_for (pc_process_id c) db db'"
    "live' (pc_process_id c) = live (pc_process_id c)"
  shows "awaits live' db' c d"
proof -
  have same: "rows_of (pc_process_id c) db' = rows_of (pc_process_id c) db"
    "reports_of (pc_process_id c) db' = reports_of (pc_process_id c) db" using assms(3) by (auto simp: same_for_def)
  note mono = workable_list_mono [where live = live and live' = live', OF _ assms(2) same(2) assms(4)]
  show ?thesis using assms(1,4) mono unfolding awaits_def same(1)
    by (cases "pd_disposition d") auto
qed

lemma close_preparation_calm:
  assumes "calm w" "db_inv (env_codec env) (store w)" "p \<in> rows_of (pc_process_id c) (store w)"
    "supervisor_instance_id p = pc_supervisor_instance_id c" "phase p = ProcessPreparing \<or> phase p = ProcessPrepared"
  shows "\<exists>s' w'. apply_close_preparation env c runner s w = (Inr (), s', w')
     \<and> others_kept (env_codec env) (pc_process_id c) (s, w) (s', w')"
proof -
  have p: "p \<in> set (processes (store w))" "process_id p = pc_process_id c" using assms(3) by (auto simp: rows_of_def)
  note close = close_rejected_calm [OF assms(1,2) p(1) assms(5), unfolded p(2) assms(4)]
  define w1 where "w1 = w\<lparr>store := delete_processes (owned (pc_process_id c) (pc_supervisor_instance_id c)) (store w)\<rparr>"
  have "frames (env_codec env) (pc_process_id c) w w1"
    using framedD [OF framed_closeRejected assms(1,2) close] by (simp add: w1_def)
  then show ?thesis
    by (simp add: apply_close_preparation_def bindS_def close delete_runner_def w1_def [symmetric] others_kept_def
        runs_Runners delete_others)
qed

lemma start_calm:
  assumes w: "calm w" "db_inv (env_codec env) (store w)" and p: "p \<in> rows_of (pc_process_id c) (store w)"
    "supervisor_instance_id p = pc_supervisor_instance_id c" "phase p = ProcessPrepared \<or> phase p = ProcessAccepted"
    "\<not> server_released p" "runner \<noteq> None"
  shows "\<exists>go w'. apply_start env c runner s w = (Inr go, s, w') \<and> frames (env_codec env) (pc_process_id c) w w'
     \<and> process_actions (store w') = process_actions (store w) \<and> frozen_reports (store w') = frozen_reports (store w)
     \<and> (\<exists>p' \<in> set (processes (store w')). owned (pc_process_id c) (pc_supervisor_instance_id c) p')"
proof -
  let ?pid = "pc_process_id c" and ?sid = "pc_supervisor_instance_id c"
  have row: "p \<in> set (processes (store w))" "owned ?pid ?sid p" using p(1,2) by (auto simp: rows_of_def owned_def)
  have ok: "schema_ok (store w)" by (rule db_invD(1) [OF w(2)])
  have "\<not> local_closed p" using db_invD(2) [OF w(2) row(1) refl] p(3) by (auto simp: proc_inv_def)
  then have "MarkAccepted ?pid ?sid (store w) = Inr (touch ?pid ?sid (\<lambda>p. p\<lparr>phase := ProcessAccepted\<rparr>) (store w))"
    unfolding MarkAccepted_def MarkProcessAccepted_def
    by (intro updateProcess_succeeds [OF ok row]) (use p(3,4) in \<open>auto simp: process_check_def\<close>)
  then have perf: "perform (env_codec env) (OpMarkAccepted ?pid ?sid) (store w) =
      Inr (Done, touch ?pid ?sid (\<lambda>p. p\<lparr>phase := ProcessAccepted\<rparr>) (store w))" (is "_ = Inr (Done, ?db)") by (simp add: finished_def)
  let ?w = "w\<lparr>store := ?db\<rparr>"
  have f: "frames (env_codec env) ?pid w ?w" by (rule frames_perform [OF w _ perf]) simp
  have row': "\<exists>p' \<in> set (processes ?db). owned ?pid ?sid p'"
    by (rule touched_owned [OF row]) (use row(2) in \<open>simp add: owned_def\<close>)
  have calm: "calm ?w" using w(1) by simp
  show ?thesis
  proof (cases "processRuntimeStorageExhaustionReady runner")
    case True
    with p(5) row frames_refl [OF w] show ?thesis by (auto simp: apply_start_def)
  next
    case False
    then have "apply_start env c runner s w = (Inr True, s, ?w)"
      using p(5) by (simp add: apply_start_def bindS_def tryD_def retry_calm [OF w(1) perf] runner_call_calm [OF calm])
    with f row' show ?thesis by auto
  qed
qed

lemma retire_runs: "retire_runner pid s w = (r, s', w') \<Longrightarrow> r = Inr () \<and> w' = w \<and> runs s' = runs s"
proof -
  have "map_of (map (\<lambda>(i, r). (i, if i = pid then f r else r)) rs) q = None \<longleftrightarrow> map_of rs q = None"
    for f :: "process_runtime \<Rightarrow> process_runtime" and rs q by (induction rs) auto
  then show "retire_runner pid s w = (r, s', w') \<Longrightarrow> ?thesis"
    by (auto simp: retire_runner_def runs_def [abs_def] lookup_runtime_def simp del: not_None_eq)
qed

lemma mark_released_calm:
  assumes w: "calm w" "db_inv codec (store w)" and p: "p \<in> set (processes (store w))" "owned pid sid p"
  obtains w1 p1 where "retryWhileStateDBBusy codec (OpMarkServerReleased pid sid) w = (Inr (), w1)"
    "frames codec pid w w1" "frozen_reports (store w1) = frozen_reports (store w)"
    "p1 \<in> set (processes (store w1))" "owned pid sid p1"
proof -
  let ?f = "\<lambda>p. p\<lparr>server_released := True\<rparr>"
  have "MarkServerReleased pid sid (store w) = Inr (touch pid sid ?f (store w))"
    unfolding MarkServerReleased_def MarkProcessServerReleased_def
    using updateProcess_succeeds [OF db_invD(1) [OF w(2)] p, of "\<lambda>_. True" _ ?f] by (simp add: process_check_def)
  then have perf: "perform codec (OpMarkServerReleased pid sid) (store w) = Inr (Done, touch pid sid ?f (store w))"
    by (simp add: finished_def)
  have "frames codec pid w (w\<lparr>store := touch pid sid ?f (store w)\<rparr>)" by (rule frames_perform [OF w _ perf]) simp
  moreover obtain p1 where "p1 \<in> set (processes (touch pid sid ?f (store w)))" "owned pid sid p1"
    using touched_owned [OF p, of ?f] p(2) by (auto simp: owned_def)
  ultimately show thesis using that [OF retry_calm [OF w(1) perf], of p1] by simp
qed

lemma release_stopped_or_live:
  assumes w: "calm w" "db_inv (env_codec env) (store w)"
  shows "\<exists>s' w'. (if runner \<noteq> None
        then bindS (runner_call (pc_process_id c)) (\<lambda>terminated. case terminated of
               Inl e' \<Rightarrow> failS e' | Inr _ \<Rightarrow> delete_runner (pc_process_id c))
        else bindS (getS (\<lambda>s. pc_process_id c \<in> set (stoppedLocks s))) (\<lambda>lock.
             bindS (callS (tryD (recoverStoppedReleasedProcess env (pc_process_id c) (pc_supervisor_instance_id c) lock)))
               (\<lambda>_. returnS ()))) s w = (Inr (), s', w')
     \<and> others_kept (env_codec env) (pc_process_id c) (s, w) (s', w')"
proof (cases "runner = None")
  case True
  obtain r w' where rec: "recoverStoppedReleasedProcess env (pc_process_id c) (pc_supervisor_instance_id c)
      (pc_process_id c \<in> set (stoppedLocks s)) w = (r, w')" by force
  with True others_kept_world [OF framedD [OF framed_recover w rec] refl, of s] show ?thesis
    by (auto simp: bindS_def tryD_def)
next
  case False
  have "others_kept (env_codec env) (pc_process_id c) (s, w)
      (s\<lparr>Runners := delete_runtime (pc_process_id c) (Runners s)\<rparr>, w)"
    by (simp add: others_kept_def delete_others frames_refl [OF w])
  with False show ?thesis by (simp add: bindS_def runner_call_calm [OF w(1)] delete_runner_def)
qed

lemma release_calm:
  assumes w: "calm w" "db_inv (env_codec env) (store w)"
    and p: "p \<in> set (processes (store w))" "owned (pc_process_id c) (pc_supervisor_instance_id c) p"
    and d: "list_all (workable (runs s) (store w) (pc_process_id c)) ds"
  shows "\<exists>s' w'. apply_release env c runner ds s w = (Inr (), s', w')
     \<and> others_kept (env_codec env) (pc_process_id c) (s, w) (s', w')"
proof -
  let ?pid = "pc_process_id c" and ?sid = "pc_supervisor_instance_id c"
  let ?kept = "others_kept (env_codec env) ?pid"
  obtain w1 p1 where m: "retryWhileStateDBBusy (env_codec env) (OpMarkServerReleased ?pid ?sid) w = (Inr (), w1)"
    and f1: "frames (env_codec env) ?pid w w1" and rep: "frozen_reports (store w1) = frozen_reports (store w)"
    and p1: "p1 \<in> set (processes (store w1))" "owned ?pid ?sid p1"
    by (rule mark_released_calm [OF w p])
  have w1: "calm w1" "db_inv (env_codec env) (store w1)" "fewer_actions (store w) (store w1)"
    using f1 by (simp_all add: frames_def)
  have enter: "bindS (callS (tryD (retryWhileStateDBBusy (env_codec env) (OpMarkServerReleased ?pid ?sid)))) f s w =
      f (Inr ()) s w1" for f :: "_ \<Rightarrow> unit starting" by (simp add: bindS_def tryD_def m)
  show ?thesis
  proof (cases "processRuntimeStorageExhaustionReady runner")
    case True
    obtain r s2 w2 where ret: "retire_runner ?pid s w1 = (r, s2, w2)" by (metis prod_cases3)
    then have "?kept (s, w) (s2, w1)" "r = Inr ()" "w2 = w1" using retire_runs [OF ret] f1 by (auto simp: others_kept_def)
    with True ret show ?thesis
      unfolding apply_release_def Let_def enter by (simp add: bindS_def runner_call_calm [OF w1(1)])
  next
    case False
    define s1 where "s1 = s\<lparr>ForcedReports := map ID (ReportsForProcess ?pid (store w1)) @ ForcedReports s\<rparr>"
    have runs1: "runs s1 = runs s" by (simp add: s1_def runs_def [abs_def])
    have "list_all (workable (runs s1) (store w1) ?pid) ds"
      using workable_list_mono [OF d w1(3) reports_of_same [OF rep], of "runs s1"] by (simp add: runs1)
    then obtain s2 w2 where fs: "forS ds (applyActionDisposition env c) s1 w1 = (Inr (), s2, w2)"
      and k2: "keeps_process (env_codec env) c (s1, w1) (s2, w2)"
      using apply_actions_calm [OF w1(1,2) p1] by blast
    have kept2: "?kept (s, w) (s2, w2)"
      using others_kept_trans [OF others_kept_world [OF f1 runs1] keeps_others [OF k2]] .
    have w2: "calm w2" "db_inv (env_codec env) (store w2)" using k2 by (auto simp: keeps_process_def frames_def)
    have "bindS (callS (query (env_codec env) (ReportsForProcess ?pid))) (\<lambda>reports. bindS (force_reports (map ID reports))
        (\<lambda>_. bindS (forS ds (applyActionDisposition env c)) k)) s w1 = k () s2 w2" for k :: "unit \<Rightarrow> unit starting"
      by (simp add: bindS_def query_calm [OF w1(1)] force_reports_def fs [unfolded s1_def])
    note pre = this
    obtain s3 w3 where "(if runner \<noteq> None
        then bindS (runner_call (pc_process_id c)) (\<lambda>terminated. case terminated of
               Inl e' \<Rightarrow> failS e' | Inr _ \<Rightarrow> delete_runner (pc_process_id c))
        else bindS (getS (\<lambda>s. pc_process_id c \<in> set (stoppedLocks s))) (\<lambda>lock.
             bindS (callS (tryD (recoverStoppedReleasedProcess env (pc_process_id c) (pc_supervisor_instance_id c) lock)))
               (\<lambda>_. returnS ()))) s2 w2 = (Inr (), s3, w3)" "?kept (s2, w2) (s3, w3)"
      using release_stopped_or_live [OF w2] by blast
    with False others_kept_trans [OF kept2] show ?thesis
      unfolding apply_release_def Let_def enter by (simp add: pre del: not_None_eq)
  qed
qed

lemma start_and_apply_calm:
  assumes w: "calm w" "db_inv (env_codec env) (store w)" and p: "p \<in> rows_of (pc_process_id c) (store w)"
    "supervisor_instance_id p = pc_supervisor_instance_id c"
    and h: "phase p = ProcessPrepared \<or> phase p = ProcessAccepted" "\<not> server_released p" "runner \<noteq> None"
      "list_all (workable (runs s) (store w) (pc_process_id c)) ds"
  shows "\<exists>s' w'. bindS (apply_start env c runner)
       (\<lambda>go_on. if go_on then forS ds (applyActionDisposition env c) else returnS ()) s w = (Inr (), s', w')
     \<and> others_kept (env_codec env) (pc_process_id c) (s, w) (s', w')"
proof -
  let ?pid = "pc_process_id c" and ?sid = "pc_supervisor_instance_id c"
  obtain go w1 p1 where st: "apply_start env c runner s w = (Inr go, s, w1)" "frames (env_codec env) ?pid w w1"
    "frozen_reports (store w1) = frozen_reports (store w)" "p1 \<in> set (processes (store w1))" "owned ?pid ?sid p1"
    using start_calm [OF w p h(1-3)] by blast
  have w1: "calm w1" "db_inv (env_codec env) (store w1)" "fewer_actions (store w) (store w1)"
    using st(2) by (simp_all add: frames_def)
  have "list_all (workable (runs s) (store w1) ?pid) ds"
    using workable_list_mono [OF h(4) w1(3) reports_of_same [OF st(3)], of "runs s"] by simp
  then obtain s2 w2 where fs: "forS ds (applyActionDisposition env c) s w1 = (Inr (), s2, w2)"
    and k2: "keeps_process (env_codec env) c (s, w1) (s2, w2)" using apply_actions_calm [OF w1(1,2) st(4,5)] by blast
  note kept1 = others_kept_world [OF st(2) refl]
  from fs kept1 others_kept_trans [OF kept1 keeps_others [OF k2]] show ?thesis
    by (cases go) (auto simp: bindS_def st(1))
qed

lemma apply_process_calm:
  assumes w: "calm w" "db_inv (env_codec env) (store w)" and a: "awaits (runs s) (store w) c d"
  shows "\<exists>s' w'. applyProcessDisposition env c d s w = (Inr (), s', w')
     \<and> others_kept (env_codec env) (pc_process_id c) (s, w) (s', w')"
proof -
  let ?pid = "pc_process_id c" and ?sid = "pc_supervisor_instance_id c"
  let ?runner = "lookup_runtime (Runners s) ?pid"
  obtain p where p: "p \<in> rows_of ?pid (store w)" "supervisor_instance_id p = ?sid"
    and disp: "case pd_disposition d of
          ProcessDispositionClosePreparation \<Rightarrow> phase p = ProcessPreparing \<or> phase p = ProcessPrepared
        | ProcessDispositionStart \<Rightarrow> runs s ?pid \<and> (phase p = ProcessPrepared \<or> phase p = ProcessAccepted)
            \<and> \<not> server_released p \<and> list_all (workable (runs s) (store w) ?pid) (pd_actions d)
        | ProcessDispositionRetain \<Rightarrow> list_all (workable (runs s) (store w) ?pid) (pd_actions d)
        | ProcessDispositionRelease \<Rightarrow> list_all (workable (runs s) (store w) ?pid) (pd_actions d)
        | ProcessDispositionOther _ \<Rightarrow> False"
    using a unfolding awaits_def by blast
  have row: "p \<in> set (processes (store w))" "owned ?pid ?sid p" using p by (auto simp: rows_of_def owned_def)
  have enter: "bindS (callS external) (\<lambda>_. bindS (getS f) k) s w = k (f s) s w" for f :: "localStartupState \<Rightarrow> 'b" and k :: "'b \<Rightarrow> unit starting"
    by (simp add: bindS_def external_calm [OF w(1)])
  show ?thesis
  proof (cases "pd_disposition d")
    case ProcessDispositionClosePreparation
    with disp show ?thesis unfolding applyProcessDisposition_def enter by (simp add: close_preparation_calm [OF w p])
  next
    case ProcessDispositionStart
    with disp have h: "phase p = ProcessPrepared \<or> phase p = ProcessAccepted" "\<not> server_released p" "?runner \<noteq> None"
      "list_all (workable (runs s) (store w) ?pid) (pd_actions d)" by (auto simp: runs_def)
    then show ?thesis using ProcessDispositionStart unfolding applyProcessDisposition_def enter
      by (simp add: start_and_apply_calm [OF w p])
  next
    case ProcessDispositionRetain
    with disp have "list_all (workable (runs s) (store w) ?pid) (pd_actions d)" by simp
    then obtain s2 w2 where "forS (pd_actions d) (applyActionDisposition env c) s w = (Inr (), s2, w2)"
      "keeps_process (env_codec env) c (s, w) (s2, w2)" using apply_actions_calm [OF w row] by blast
    with ProcessDispositionRetain show ?thesis
      unfolding applyProcessDisposition_def enter by (auto dest: keeps_others)
  next
    case ProcessDispositionRelease
    with disp show ?thesis unfolding applyProcessDisposition_def enter by (simp add: release_calm [OF w row])
  next
    case (ProcessDispositionOther x)
    with disp show ?thesis by simp
  qed
qed

section \<open>Applying every directive\<close>

text \<open>A directive that has its claim and whose process awaits it.\<close>

definition answered :: "process_claim list \<Rightarrow> (string \<Rightarrow> bool) \<Rightarrow> statedb \<Rightarrow> process_directive \<Rightarrow> bool" where
  "answered claims live db d \<longleftrightarrow> (\<exists>c. find (\<lambda>c. pc_process_id c = pd_process_id d) claims = Some c
     \<and> pd_supervisor_instance_id d = pc_supervisor_instance_id c \<and> awaits live db c d)"

lemma answered_others:
  assumes "answered claims (runs s) (store w) d" "pd_process_id d \<noteq> pid" "others_kept codec pid (s, w) (s', w')"
  shows "answered claims (runs s') (store w') d"
proof -
  obtain c where c: "find (\<lambda>c. pc_process_id c = pd_process_id d) claims = Some c"
    "pd_supervisor_instance_id d = pc_supervisor_instance_id c" "awaits (runs s) (store w) c d"
    using assms(1) by (auto simp: answered_def)
  then have "pc_process_id c = pd_process_id d" by (auto simp: find_Some_iff)
  with assms(2,3) have "fewer_actions (store w) (store w')" "same_for (pc_process_id c) (store w) (store w')"
    "runs s' (pc_process_id c) = runs s (pc_process_id c)"
    using same_for_elsewhere by (auto simp: others_kept_def frames_def)
  from awaits_mono [where live = "runs s" and live' = "runs s'", OF c(3) this] c(1,2) show ?thesis
    by (auto simp: answered_def)
qed

lemma apply_directives_calm:
  assumes "calm w" "db_inv (env_codec env) (store w)" "list_all (answered claims (runs s) (store w)) ds"
    "distinct (map pd_process_id ds)" "set seen \<inter> pd_process_id ` set ds = {}"
  shows "\<exists>s' w'. apply_directives env claims seen ds s w = (Inr (), s', w') \<and> calm w' \<and> db_inv (env_codec env) (store w')"
  using assms
proof (induction ds arbitrary: seen s w)
  case (Cons d ds)
  from Cons.prems(3) obtain c where c: "find (\<lambda>c. pc_process_id c = pd_process_id d) claims = Some c"
    "pd_supervisor_instance_id d = pc_supervisor_instance_id c" "awaits (runs s) (store w) c d"
    by (auto simp: answered_def)
  then have pid: "pc_process_id c = pd_process_id d" by (auto simp: find_Some_iff)
  obtain s1 w1 where a: "applyProcessDisposition env c d s w = (Inr (), s1, w1)"
    and k: "others_kept (env_codec env) (pd_process_id d) (s, w) (s1, w1)"
    using apply_process_calm [OF Cons.prems(1,2) c(3)] pid by auto
  have "answered claims (runs s1) (store w1) e" if "e \<in> set ds" for e
    by (rule answered_others [OF _ _ k]) (use that Cons.prems(3,4) in \<open>auto simp: list_all_iff rev_image_eqI\<close>)
  then have "list_all (answered claims (runs s1) (store w1)) ds" by (simp add: list_all_iff)
  moreover have "calm w1" "db_inv (env_codec env) (store w1)" using k by (simp_all add: others_kept_def frames_def)
  moreover have "distinct (map pd_process_id ds)" "set (pd_process_id d # seen) \<inter> pd_process_id ` set ds = {}"
    using Cons.prems(4,5) by auto
  ultimately obtain s2 w2 where "apply_directives env claims (pd_process_id d # seen) ds s1 w1 = (Inr (), s2, w2)"
    "calm w2" "db_inv (env_codec env) (store w2)" using Cons.IH by blast
  moreover have "pd_process_id d \<notin> set seen" using Cons.prems(5) by auto
  ultimately show ?case using c a by (simp add: bindS_def)
qed simp

lemma forD_ignored_calm: "calm w \<Longrightarrow> forD xs (\<lambda>_. ignoreD external) w = (Inr (), w)"
  by (induction xs) (simp_all add: ignoreD_def tryD_def external_calm returnD_def)

lemma apply_registration_calm:
  assumes w: "calm w" "db_inv (env_codec env) (store w)"
    and ds: "list_all (answered (rev (Claims s)) (runs s) (store w)) ds" "distinct (map pd_process_id ds)"
    and n: "length ds = length (remdups (map pc_process_id (Claims s)))"
  shows "\<exists>s' w'. applyRegistrationReconciliation env ds s w = (Inr (), s', w') \<and> db_inv (env_codec env) (store w')
    \<and> stoppedLocks s' = [] \<and> fencedRunners s' = []"
proof -
  obtain s1 w1 where a: "apply_directives env (rev (Claims s)) [] ds s w = (Inr (), s1, w1)" "calm w1" "db_inv (env_codec env) (store w1)"
    using apply_directives_calm [OF w ds(1,2), of "[]"] by auto
  define w2 where "w2 = snd (replace_client_processes (Runners s1) w1)"
  have w2: "calm w2" "store w2 = store w1" "replace_client_processes (Runners s1) w1 = (Inr (), w2)"
    using a(2) by (simp_all add: w2_def replace_client_processes_def update_processes_map_def calm_def)
  show ?thesis using a n w2
    by (simp add: applyRegistrationReconciliation_def deferS_def bindS_def releaseFences_def releaseLocks_def
        forD_ignored_calm)
qed

section \<open>The directives of the backend can be carried out\<close>

text \<open>
  The backend and the daemon agree on released processes: a process the backend still waits to see
  started is not one the daemon knows to be released.
\<close>

definition agree :: "statedb \<Rightarrow> server_db \<Rightarrow> bool" where
  "agree db sdb \<longleftrightarrow> list_all (\<lambda>p. list_all (\<lambda>q. sp_id q = process_id p \<and> sp_state q = ProcessStateStarting
     \<longrightarrow> \<not> server_released p) (sdb_processes sdb)) (processes db)"

lemma claims_of_actions:
  assumes "schema_ok db" "a \<in> set (process_actions db)"
  obtains q where "q \<in> set (processes db)" "process_id q = action_process_id a"
    "action_claim_for db a \<in> set (pc_actions (claim_for db live q))"
proof -
  obtain q where "q \<in> set (processes db)" "process_id q = action_process_id a"
    using schema_ok_action_process [OF assms] by blast
  with assms(2) that show thesis by (auto simp: claim_for_def set_ListProcessActions actions_of_def)
qed

lemma matched_row:
  assumes "schema_ok db" "\<forall>q \<in> set (processes db). rows_match sdb (claim_for db live q)" "a \<in> set (process_actions db)"
  obtains row where "row \<in> set (sdb_actions sdb)" "sa_id row = action_id a" "sa_process_id row = action_process_id a"
    "sa_seq row = action_seq a"
proof -
  obtain q where q: "q \<in> set (processes db)" "process_id q = action_process_id a"
    "action_claim_for db a \<in> set (pc_actions (claim_for db live q))" by (rule claims_of_actions [OF assms(1,3)])
  then have "rows_match sdb (claim_for db live q)" using assms(2) by blast
  with q(3) obtain row where "row \<in> set (sdb_actions sdb)" "sa_id row = ac_id (action_claim_for db a)"
    "sa_process_id row = pc_process_id (claim_for db live q)" "sa_seq row = ac_seq (action_claim_for db a)"
    unfolding rows_match_def by blast
  with q(2) show thesis using that by (simp add: action_claim_for_def claim_for_def)
qed

lemma admitted_releasable:
  assumes ok: "schema_ok db" "server_ok sdb" and p: "p \<in> set (processes db)"
    and all: "\<forall>q \<in> set (processes db). rows_match sdb (claim_for db live q)"
    and d: "ad_disposition d = ActionDispositionRelease" "action_admitted (claim_for db live p) d" "names_row sdb (claim_for db live p) d"
  shows "releasable db (process_id p) d"
proof -
  obtain row where row: "row \<in> set (sdb_actions sdb)" "sa_id row = ad_id d" "sa_process_id row = process_id p" "sa_seq row = ad_seq d"
    using d(3) by (auto simp: names_row_def claim_for_def)
  have "ad_id d \<noteq> []" "0 < ad_seq d" "ad_seq d \<le> max_int64" using ok(2) row by (auto simp: server_ok_def list_all_iff)
  moreover have "action_process_id a = process_id p \<and> action_seq a = ad_seq d \<and> \<not> reported (reports_of (process_id p) db) a"
    if a: "a \<in> set (process_actions db)" "action_id a = ad_id d" for a
  proof -
    obtain row' where row': "row' \<in> set (sdb_actions sdb)" "sa_id row' = action_id a"
      "sa_process_id row' = action_process_id a" "sa_seq row' = action_seq a" by (rule matched_row [OF ok(1) all a(1)])
    have "inj_on sa_id (set (sdb_actions sdb))" using ok(2) by (simp add: server_ok_def distinct_map)
    then have "row' = row" by (rule inj_onD) (use row row' a(2) in simp_all)
    then have mine: "action_process_id a = process_id p" "action_seq a = ad_seq d" using row row' by auto
    have "action_claim_for db a \<in> set (pc_actions (claim_for db live p))"
      using a(1) mine(1) by (auto simp: claim_for_def set_ListProcessActions actions_of_def)
    then have "ac_position (action_claim_for db a) = ActionPositionEffectCommitted"
      using d(1,2) a(2) by (auto simp: action_admitted_def action_claim_for_def)
    with mine show ?thesis
      by (auto simp: action_claim_for_def reported_def reports_of_def list_ex_iff split: if_splits)
  qed
  moreover have "action_id b = ad_id d" if b: "b \<in> actions_of (process_id p) db" "action_seq b = ad_seq d" for b
  proof -
    obtain row' where row': "row' \<in> set (sdb_actions sdb)" "sa_id row' = action_id b"
      "sa_process_id row' = action_process_id b" "sa_seq row' = action_seq b"
      using matched_row [OF ok(1) all, of b] b(1) unfolding actions_of_def by blast
    have "inj_on (\<lambda>a. (sa_process_id a, sa_seq a)) (set (sdb_actions sdb))" using ok(2) by (simp add: server_ok_def distinct_map)
    then have "row' = row" by (rule inj_onD) (use row row' b in \<open>simp_all add: actions_of_def\<close>)
    with row row' show ?thesis by simp
  qed
  ultimately show ?thesis by (auto simp: releasable_def in_int64_def min_int64_def)
qed

lemma admitted_workable:
  assumes ok: "schema_ok db" "server_ok sdb" and p: "p \<in> set (processes db)"
    and all: "\<forall>q \<in> set (processes db). rows_match sdb (claim_for db live q)"
    and d: "action_admitted (claim_for db live p) d" "names_row sdb (claim_for db live p) d"
  shows "workable live db (process_id p) d"
proof (cases "ad_disposition d")
  case ActionDispositionSettle
  then obtain a where "a \<in> actions_of (process_id p) db" "action_id a = ad_id d"
    "ac_position (action_claim_for db a) = ActionPositionTerminal"
    using d(1) by (auto simp: action_admitted_def claim_for_def set_ListProcessActions action_claim_for_def)
  moreover from this obtain r where r: "r \<in> set (frozen_reports db)" "report_action_id r = Some (ad_id d)"
    by (auto simp: action_claim_for_def list_ex_iff split: if_splits)
  moreover obtain b where "b \<in> set (process_actions db)" "action_id b = ad_id d" "action_process_id b = report_process_id r"
    using schema_ok_report_action [OF ok(1) r] by blast
  moreover from this calculation have "a = b" using action_unique [OF ok(1), of a b] by (auto simp: actions_of_def)
  ultimately show ?thesis using ActionDispositionSettle by (auto simp: workable_def settleable_def reports_of_def actions_of_def)
next
  case ActionDispositionRelease
  with admitted_releasable [OF ok p all _ d] show ?thesis by (simp add: workable_def)
qed (use d(1) in \<open>simp_all add: workable_def action_admitted_def claim_for_def\<close>)

lemma admitted_answered:
  assumes inv: "db_inv codec db" and ok: "server_ok sdb" "agree db sdb" and s: "scanned s db"
    and all: "\<forall>q \<in> set (processes db). rows_match sdb (claim_for db (runs s) q)"
    and c: "c \<in> set (Claims s)" "process_admitted sdb c d"
  shows "answered (rev (Claims s)) (runs s) db d"
proof -
  obtain p where p: "p \<in> set (processes db)" "c = claim_for db (runs s) p"
    using s c(1) by (auto simp: scanned_def ListProcesses_def)
  have "distinct (map pc_process_id (Claims s))" using scanned_valid [OF inv s] by (simp add: valid_claims_def)
  then have "c' = c" if "c' \<in> set (rev (Claims s))" "pc_process_id c' = pc_process_id c" for c'
    using that c(1) by (auto simp: distinct_map inj_on_def)
  then have "find (\<lambda>c'. pc_process_id c' = pc_process_id c) (rev (Claims s)) = Some c"
    using c(1) find_SomeD [of _ "rev (Claims s)"]
    by (cases "find (\<lambda>c'. pc_process_id c' = pc_process_id c) (rev (Claims s))") (auto simp: find_None_iff)
  moreover have "list_all (workable (runs s) db (process_id p)) (pd_actions d)"
    if "pd_disposition d \<noteq> ProcessDispositionClosePreparation"
    using c(2) that admitted_workable [OF db_invD(1) [OF inv] ok(1) p(1) all]
    by (auto simp: process_admitted_def list_all_iff p(2))
  moreover have "\<not> server_released p" if "pd_disposition d = ProcessDispositionStart"
    using c(2) that ok(2) p by (auto simp: process_admitted_def agree_def list_all_iff claim_for_def)
  ultimately show ?thesis using c(2) p
    by (auto simp: answered_def process_admitted_def awaits_def claim_for_def rows_of_def ungranted_def
        intro!: bexI [of _ p] split: process_disposition.splits)
qed

theorem handshake:
  assumes inv: "db_inv (env_codec env) (store w)" and w: "calm w" and s: "scanned s (store w)"
    and ok: "server_ok sdb" "agree (store w) sdb" and visit: "\<And>ps. mset (visit ps) = mset ps"
    and r: "reconcileRegisteredRuntimeTx visit (Claims s) sdb = Inr (ds, sdb')"
  shows "\<exists>s' w'. applyRegistrationReconciliation env ds s w = (Inr (), s', w') \<and> db_inv (env_codec env) (store w')
    \<and> stoppedLocks s' = [] \<and> fencedRunners s' = []"
proof -
  note spec = reconcile_spec [OF ok(1) visit r]
  have claims: "set (Claims s) = claim_for (store w) (runs s) ` set (processes (store w))"
    using s by (auto simp: scanned_def ListProcesses_def)
  have rows: "rows_match sdb (claim_for (store w) (runs s) q)" if q: "q \<in> set (processes (store w))" for q
  proof -
    let ?c = "claim_for (store w) (runs s) q"
    have "pc_process_id ?c \<in> pd_process_id ` set ds" using spec(3) claims q by auto
    then obtain d c where d: "d \<in> set ds" "pd_process_id d = pc_process_id ?c" "c \<in> set (Claims s)" "process_admitted sdb c d"
      using spec(4) by auto
    moreover have "inj_on pc_process_id (set (Claims s))" using spec(1) by (simp add: valid_claims_def distinct_map)
    ultimately have "c = ?c" using claims q by (auto simp: process_admitted_def dest: inj_onD)
    show ?thesis
    proof (cases "pd_disposition d = ProcessDispositionClosePreparation")
      case True
      then have "phase q = ProcessPreparing \<or> phase q = ProcessPrepared"
        using d(4) \<open>c = ?c\<close> by (auto simp: process_admitted_def ungranted_def claim_for_def)
      then have "actions_of (process_id q) (store w) = {}"
        using db_invD(2) [OF inv q refl] by (auto simp: proc_inv_def)
      then show ?thesis by (auto simp: rows_match_def claim_for_def set_ListProcessActions)
    next
      case False
      with d(4) \<open>c = ?c\<close> show ?thesis by (simp add: process_admitted_def)
    qed
  qed
  have "list_all (answered (rev (Claims s)) (runs s) (store w)) ds"
    using spec(4) admitted_answered [OF inv ok s] rows by (auto simp: list_all_iff)
  moreover have "length ds = length (remdups (map pc_process_id (Claims s)))"
    using spec(1-3) by (metis distinct_card distinct_remdups_id length_map list.set_map valid_claims_def)
  ultimately show ?thesis by (intro apply_registration_calm [OF w inv _ spec(2)])
qed

end
