(* ===== verification/Registration_Traces.thy ===== *)
theory Registration_Traces
  imports Registration_Handshake
begin

text \<open>
  A registration under faults: whatever fails, interferes or is answered, every round of
  \<open>registerWithRetry\<close> changes the state database by operations of the store only.
\<close>

text \<open>The sequence numbers of a directive are \<open>int64\<close> values of the wire format.\<close>

definition directive_int64 :: "process_directive \<Rightarrow> bool" where
  "directive_int64 d \<longleftrightarrow> list_all (\<lambda>a. in_int64 (ad_seq a)) (pd_actions d)"

definition answers_int64 :: "(process_claim list \<Rightarrow> daemon_error + process_directive list) \<Rightarrow> bool" where
  "answers_int64 server \<longleftrightarrow> (\<forall>claims ds. server claims = Inr ds \<longrightarrow> list_all directive_int64 ds)"

lemma tracedS_force: "tracedS codec (force_reports rids)"
  unfolding force_reports_def by (rule tracedS_simple)

lemma tracedS_action: "in_int64 (ad_seq d) \<Longrightarrow> tracedS (env_codec env) (applyActionDisposition env c d)"
  unfolding applyActionDisposition_def
  by (intro tracedS_steps traced_steps)
    (auto intro!: tracedS_steps tracedS_force traced_steps traced_retry split: action_disposition.split option.split)

lemma tracedS_actions: "directive_int64 d \<Longrightarrow> tracedS (env_codec env) (forS (pd_actions d) (applyActionDisposition env c))"
  by (rule tracedS_forS) (auto simp: directive_int64_def list_all_iff intro: tracedS_action)

lemma tracedS_runners: "tracedS codec (delete_runner pid)" "tracedS codec (set_runner r)" "tracedS codec (retire_runner pid)"
  unfolding delete_runner_def set_runner_def retire_runner_def by (rule tracedS_simple)+

lemma tracedS_close_preparation: "tracedS (env_codec env) (apply_close_preparation env c runner)"
  unfolding apply_close_preparation_def
  by (intro tracedS_steps traced_closeRejected) (auto split: option.split intro: tracedS_runners tracedS_simple)

lemma tracedS_start: "tracedS (env_codec env) (apply_start env c runner)"
proof -
  have "tracedS (env_codec env) (start_failed c e)" for e
    unfolding start_failed_def
    by (intro tracedS_bindS tracedS_runner_call) (auto split: sum.split intro: tracedS_simple)
  then show ?thesis unfolding apply_start_def
    by (auto split: sum.split intro!: tracedS_bindS tracedS_callS tracedS_simple tracedS_runner_call traced_tryD traced_retry)
qed

lemma tracedS_release_process:
  assumes "directive_int64 d"
  shows "tracedS (env_codec env) (apply_release env c runner (pd_actions d))"
proof -
  have retire: "tracedS (env_codec env) (bindS (runner_call pid) (\<lambda>t. case t of Inl e \<Rightarrow> failS e | Inr _ \<Rightarrow> m))"
    if "tracedS (env_codec env) m" for pid m
    by (intro tracedS_bindS tracedS_runner_call) (auto split: sum.split intro: tracedS_simple that)
  show ?thesis unfolding apply_release_def Let_def
    by (auto split: sum.split intro!: tracedS_bindS tracedS_callS tracedS_simple traced_tryD traced_retry traced_query
        traced_recover tracedS_force tracedS_actions [OF assms] retire tracedS_runners)
qed

lemma tracedS_process: "directive_int64 d \<Longrightarrow> tracedS (env_codec env) (applyProcessDisposition env c d)"
  unfolding applyProcessDisposition_def
  by (auto split: process_disposition.split intro!: tracedS_bindS tracedS_callS tracedS_simple traced_external
      tracedS_close_preparation tracedS_start tracedS_release_process tracedS_actions)

lemma tracedS_directives:
  "list_all directive_int64 ds \<Longrightarrow> tracedS (env_codec env) (apply_directives env claims seen ds)"
  by (induction ds arbitrary: seen)
    (auto split: option.split intro!: tracedS_bindS tracedS_simple tracedS_process)

theorem tracedS_registration:
  assumes "list_all directive_int64 ds"
  shows "tracedS (env_codec env) (applyRegistrationReconciliation env ds)"
  unfolding applyRegistrationReconciliation_def replace_client_processes_def
  by (intro tracedS_deferS tracedS_release tracedS_bindS tracedS_simple)
    (auto intro!: tracedS_bindS tracedS_simple tracedS_callS tracedS_directives [OF assms])

lemma tracedS_round:
  assumes "answers_int64 server"
  shows "tracedS (env_codec env) (register_round env server)"
proof -
  have "tracedS (env_codec env) (bindS (liftE (server claims)) (applyRegistrationReconciliation env))" for claims
  proof (cases "server claims")
    case (Inl e)
    then show ?thesis by (simp add: tracedS_def bindS_def liftE_def follows_refl)
  next
    case (Inr ds)
    then have "list_all directive_int64 ds" using assms by (auto simp: answers_int64_def)
    with Inr show ?thesis using tracedS_registration [of ds env] by (simp add: tracedS_def bindS_def liftE_def)
  qed
  then have "tracedS (env_codec env) (bindS (getS Claims)
      (\<lambda>claims. bindS (liftE (server claims)) (applyRegistrationReconciliation env)))"
    by (rule tracedS_bindS [OF tracedS_simple(3)])
  then show ?thesis unfolding register_round_def by (rule tracedS_deferS(2) [OF tracedS_release(1)])
qed

lemma external_follows: "world_ok w \<Longrightarrow> external w = (r, w') \<Longrightarrow> follows codec w w'"
  by (rule tracedD [OF traced_external])

lemma scan_follows:
  "world_ok w \<Longrightarrow> scanLocalProcessesForRegistration env n w = Some (r, w') \<Longrightarrow> follows (env_codec env) w w'"
proof (induction n arbitrary: w)
  case (Suc n)
  obtain r1 s1 w1 where scan: "scanLocalProcessesForRegistrationOnce env no_startup w = (r1, s1, w1)" by (metis prod_cases3)
  have f: "follows (env_codec env) w w1"
    using tracedS_scan [of env] Suc.prems(1) scan unfolding tracedS_def by (metis snd_conv)
  obtain r2 w2 where ext: "external w1 = (r2, w2)" by force
  have f2: "follows (env_codec env) w w2"
    by (rule follows_trans [OF f external_follows [OF follows_ok [OF f] ext]])
  note IH = Suc.IH [OF follows_ok [OF f2], THEN follows_trans [OF f2]]
  show ?case using Suc.prems(2) f f2 IH by (auto simp: scan ext split: sum.splits if_splits)
qed simp

theorem scan_retries_spec:
  assumes "world_ok w" "db_inv (env_codec env) (store w)"
    and "scanLocalProcessesForRegistration env n w = Some (Inr s, w')"
  shows "follows (env_codec env) w w' \<and> scanned s (store w')"
  using assms
proof (induction n arbitrary: w)
  case (Suc n)
  obtain r1 s1 w1 where scan: "scanLocalProcessesForRegistrationOnce env no_startup w = (r1, s1, w1)" by (metis prod_cases3)
  show ?case
  proof (cases r1)
    case (Inr u)
    with scan_spec [OF Suc.prems(1,2), of u s1 w1] scan Suc.prems(3) show ?thesis by simp
  next
    case (Inl e)
    have f: "follows (env_codec env) w w1"
      using tracedS_scan [of env] Suc.prems(1) scan unfolding tracedS_def by (metis snd_conv)
    obtain r2 w2 where ext: "external w1 = (r2, w2)" by force
    have f2: "follows (env_codec env) w w2"
      by (rule follows_trans [OF f external_follows [OF follows_ok [OF f] ext]])
    have "scanLocalProcessesForRegistration env n w2 = Some (Inr s, w')"
      using Suc.prems(3) Inl by (auto simp: scan ext split: sum.splits if_splits)
    from Suc.IH [OF follows_ok [OF f2] follows_db_inv [OF f2 Suc.prems(2)] this] show ?thesis
      using follows_trans [OF f2] by blast
  qed
qed simp

theorem register_follows:
  assumes "world_ok w" "list_all answers_int64 rounds" "registerWithRetry env n terminal rounds w = Some (r, w')"
  shows "follows (env_codec env) w w'"
  using assms
proof (induction rounds arbitrary: w)
  case (Cons server rounds)
  let ?f = "follows (env_codec env)"
  obtain r1 w1 where scan: "scanLocalProcessesForRegistration env n w = Some (r1, w1)"
    using Cons.prems(3) by (auto split: option.splits)
  have f1: "?f w w1" by (rule scan_follows [OF Cons.prems(1) scan])
  show ?case
  proof (cases r1)
    case (Inl e)
    with f1 scan Cons.prems(3) show ?thesis by simp
  next
    case (Inr s)
    obtain r2 s2 w2 where rnd: "register_round env server s w1 = (r2, s2, w2)" by (metis prod_cases3)
    have "?f w1 w2"
      using tracedS_round [of server env] Cons.prems(2) follows_ok [OF f1] rnd unfolding tracedS_def list.pred_inject
      by (metis snd_conv)
    then have f2: "?f w w2" by (rule follows_trans [OF f1])
    obtain r3 w3 where e3: "external w2 = (r3, w3)" by force
    have f3: "?f w w3" by (rule follows_trans [OF f2 external_follows [OF follows_ok [OF f2] e3]])
    obtain r4 w4 where e4: "external w3 = (r4, w4)" by force
    have f4: "?f w w4" by (rule follows_trans [OF f3 external_follows [OF follows_ok [OF f3] e4]])
    have rest: "?f w w'" if "registerWithRetry env n terminal rounds w4 = Some (r, w')"
      using follows_trans [OF f4] Cons.IH [OF follows_ok [OF f4] _ that] Cons.prems(2) by simp
    show ?thesis using Cons.prems(3) f2 f3 f4 rest
      by (auto simp: scan Inr rnd e3 e4 split: sum.splits if_splits)
  qed
qed (auto simp: follows_refl)

end
