(* ===== verification/Daemon_Backoff.thy ===== *)
theory Daemon_Backoff
  imports Daemon_Recovery
begin

text \<open>
  How long the daemon waits before it tries a request again (\<open>retryBackoffDelay\<close> and
  \<open>retryDelayForDaemonError\<close> of \<open>src/internal/machinedaemon/client.go\<close>, \<open>parseRetryAfter\<close> of
  \<open>client_http.go\<close>).  A duration is an \<open>int64\<close> of nanoseconds, and every operation wraps.
\<close>

section \<open>Backing off\<close>

definition Second :: int where
  "Second = 1000000000"

definition maximumRetryDelay :: int where
  "maximumRetryDelay = max_int64"

text \<open>The loop over the failures; the maximum is positive, where Go's division is \<open>div\<close>.\<close>

fun double_delay :: "nat \<Rightarrow> int \<Rightarrow> int \<Rightarrow> int" where
  "double_delay 0 maximum delay = delay"
| "double_delay (Suc n) maximum delay =
     (if delay \<ge> maximum div 2 then maximum else double_delay n maximum (wrap64 (delay * 2)))"

text \<open>\<open>rand.Int64N\<close> draws below its argument and panics (\<open>None\<close>) when there is nothing to draw.\<close>

definition Int64N :: "int \<Rightarrow> int \<Rightarrow> int option" where
  "Int64N draw n = (if n \<le> 0 then None else Some (draw mod n))"

definition retryBackoffDelay :: "int \<Rightarrow> int \<Rightarrow> int \<Rightarrow> int \<Rightarrow> int option" where
  "retryBackoffDelay draw initial0 maximum0 failures =
     (let initial = (if initial0 \<le> 0 then Second else initial0);
          maximum = (if maximum0 < initial then initial else maximum0);
          looped = double_delay (nat (max (wrap64 (failures - 1)) 0)) maximum initial;
          delay = (if looped > maximum then maximum else looped)
      in if delay \<le> 1 then Some delay
         else let minimum = delay div 2
              in map_option (\<lambda>jitter. wrap64 (minimum + jitter)) (Int64N draw (wrap64 (delay - minimum))))"

section \<open>The delay a server asks for\<close>

text \<open>The encodings of the white space that \<open>strings.TrimSpace\<close> removes.\<close>

definition space_runes :: "string list" where
  "space_runes = map (map char_of)
     ([[9], [10], [11], [12], [13], [32], [0xC2, 0x85], [0xC2, 0xA0], [0xE1, 0x9A, 0x80]]
      @ map (\<lambda>b. [0xE2, 0x80, b]) ([0x80..<0x8B] @ [0xA8, 0xA9, 0xAF])
      @ [[0xE2, 0x81, 0x9F], [0xE3, 0x80, 0x80 :: nat]])"

function trim_left :: "string list \<Rightarrow> string \<Rightarrow> string" where
  "trim_left runes s =
     (case find (\<lambda>r. r \<noteq> [] \<and> take (length r) s = r) runes of
        None \<Rightarrow> s
      | Some r \<Rightarrow> trim_left runes (drop (length r) s))"
  by auto
termination
proof (relation "measure (\<lambda>(runes, s). length s)")
  fix runes and s r :: string
  assume "find (\<lambda>r. r \<noteq> [] \<and> take (length r) s = r) runes = Some r"
  then have "r \<noteq> [] \<and> take (length r) s = r" by (auto dest: find_SomeD)
  then show "((runes, drop (length r) s), (runes, s)) \<in> measure (\<lambda>(runes, s). length s)" by (cases s) auto
qed simp

definition TrimSpace :: "string \<Rightarrow> string" where
  "TrimSpace s = rev (trim_left (map rev space_runes) (rev (trim_left space_runes s)))"

text \<open>\<open>strconv.ParseUint(value, 10, 64)\<close>: decimal digits, at least one, within \<open>uint64\<close>.\<close>

definition ParseUint :: "string \<Rightarrow> int option" where
  "ParseUint value =
     (if value = [] then None
      else case digits_value value 0 of None \<Rightarrow> None | Some n \<Rightarrow> if n < 2 ^ 64 then Some n else None)"

text \<open>\<open>retryAt.Sub(now)\<close>: the difference of two instants, saturated to a duration.\<close>

definition Sub :: "int \<Rightarrow> int \<Rightarrow> int" where
  "Sub t u = max min_int64 (min max_int64 (t - u))"

text \<open>\<open>parseTime\<close> is \<open>http.ParseTime\<close>, with the instant it reads in nanoseconds.\<close>

definition parseRetryAfter :: "(string \<Rightarrow> int option) \<Rightarrow> string \<Rightarrow> int \<Rightarrow> int option" where
  "parseRetryAfter parseTime value0 now =
     (let value = TrimSpace value0
      in if value = [] then None
         else case ParseUint value of
           Some seconds \<Rightarrow> if seconds > maximumRetryDelay div Second then None else Some (wrap64 (wrap64 seconds * Second))
         | None \<Rightarrow>
             (case parseTime value of
                None \<Rightarrow> None
              | Some retryAt \<Rightarrow> let delay = Sub retryAt now in Some (if delay < 0 then 0 else delay)))"

text \<open>The error of a request carries a \<open>Retry-After\<close> header if it is an \<open>httpStatusError\<close>.\<close>

definition retryAfterDelay :: "(string \<Rightarrow> int option) \<Rightarrow> string option \<Rightarrow> int \<Rightarrow> int option" where
  "retryAfterDelay parseTime header now =
     (case header of None \<Rightarrow> None | Some value \<Rightarrow> parseRetryAfter parseTime value now)"

definition retryDelayForDaemonError ::
    "(string \<Rightarrow> int option) \<Rightarrow> int \<Rightarrow> int \<Rightarrow> int \<Rightarrow> int \<Rightarrow> string option \<Rightarrow> int \<Rightarrow> int option" where
  "retryDelayForDaemonError parseTime draw initial maximum failures header now =
     (case retryBackoffDelay draw initial maximum failures of
        None \<Rightarrow> None
      | Some delay \<Rightarrow>
          (case retryAfterDelay parseTime header now of
             None \<Rightarrow> Some delay
           | Some serverDelay \<Rightarrow>
               if serverDelay > wrap64 (maximumRetryDelay - delay) then Some maximumRetryDelay
               else Some (wrap64 (serverDelay + delay))))"

section \<open>Bounds\<close>

text \<open>The delay before the jitter, without a loop and without a width.\<close>

definition backoff :: "int \<Rightarrow> int \<Rightarrow> nat \<Rightarrow> int" where
  "backoff initial maximum n =
     (if n = 0 \<or> initial * 2 ^ n < 2 * (maximum div 2) then initial * 2 ^ n else maximum)"

lemma double_delay_eq:
  assumes "0 < delay" "delay \<le> maximum" "maximum \<le> max_int64"
  shows "double_delay n maximum delay = backoff delay maximum n"
  using assms
proof (induction n arbitrary: delay)
  case 0
  then show ?case by (simp add: backoff_def)
next
  case (Suc n)
  show ?case
  proof (cases "delay \<ge> maximum div 2")
    case True
    have "delay * 1 \<le> delay * 2 ^ n" using Suc.prems(1) by (intro mult_left_mono) simp_all
    with True have "2 * (maximum div 2) \<le> delay * 2 ^ Suc n" by simp
    with True show ?thesis by (simp add: backoff_def)
  next
    case False
    then have le: "delay * 2 \<le> maximum" by linarith
    then have "wrap64 (delay * 2) = delay * 2" using Suc.prems by (intro wrap64_in_range) (simp add: in_int64_def min_int64_def)
    then have "double_delay (Suc n) maximum delay = backoff (delay * 2) maximum n"
      using False le Suc.IH [of "delay * 2"] Suc.prems by simp
    also have "\<dots> = backoff delay maximum (Suc n)"
      using False by (cases n) (auto simp: backoff_def algebra_simps)
    finally show ?thesis .
  qed
qed

lemma backoff_bounds:
  assumes "0 < initial" "initial \<le> maximum"
  shows "initial \<le> backoff initial maximum n" "backoff initial maximum n \<le> maximum"
proof -
  have "initial * 1 \<le> initial * 2 ^ n" using assms by (intro mult_left_mono) simp_all
  with assms show "initial \<le> backoff initial maximum n" "backoff initial maximum n \<le> maximum"
    by (auto simp: backoff_def)
qed

lemma jitter_bounds:
  assumes "1 < d" "d \<le> max_int64"
  shows "\<exists>x. map_option (\<lambda>jitter. wrap64 (d div 2 + jitter)) (Int64N draw (wrap64 (d - d div 2))) = Some x
    \<and> d div 2 \<le> x \<and> x < d"
proof -
  have w: "wrap64 (d - d div 2) = d - d div 2" using assms by (intro wrap64_in_range) (auto simp: in_int64_def min_int64_def)
  have pos: "0 < d - d div 2" using assms by linarith
  define j where "j = draw mod (d - d div 2)"
  have j: "0 \<le> j" "j < d - d div 2" using pos by (simp_all add: j_def)
  moreover have "0 \<le> d div 2 + j" "d div 2 + j \<le> max_int64" using j assms by auto
  then have "wrap64 (d div 2 + j) = d div 2 + j" by (intro wrap64_in_range) (simp add: in_int64_def min_int64_def)
  ultimately show ?thesis using pos by (simp add: Int64N_def w j_def [symmetric])
qed

text \<open>The effective bounds: a missing start is a second, and a smaller maximum is the start.\<close>

definition effective_initial :: "int \<Rightarrow> int" where
  "effective_initial initial = (if initial \<le> 0 then Second else initial)"

definition base_delay :: "int \<Rightarrow> int \<Rightarrow> int \<Rightarrow> int" where
  "base_delay initial maximum failures =
     backoff (effective_initial initial) (max (effective_initial initial) maximum) (nat (failures - 1))"

lemma base_delay_bounds:
  assumes "in_int64 initial" "in_int64 maximum"
  shows "0 < base_delay initial maximum failures" "base_delay initial maximum failures \<le> max_int64"
    "base_delay initial maximum failures \<le> max (effective_initial initial) maximum"
proof -
  have i: "0 < effective_initial initial" "effective_initial initial \<le> max_int64"
    using assms(1) by (auto simp: effective_initial_def Second_def in_int64_def max_int64_def)
  note b = backoff_bounds [OF i(1), of "max (effective_initial initial) maximum" "nat (failures - 1)"]
  show "0 < base_delay initial maximum failures" "base_delay initial maximum failures \<le> max_int64"
    "base_delay initial maximum failures \<le> max (effective_initial initial) maximum"
    using b i assms(2) by (auto simp: base_delay_def in_int64_def)
qed

lemma retryBackoffDelay_bounds:
  assumes "in_int64 initial" "in_int64 maximum" "in_int64 failures" "failures \<noteq> min_int64"
  shows "\<exists>d. retryBackoffDelay draw initial maximum failures = Some d \<and> 0 < d
    \<and> base_delay initial maximum failures div 2 \<le> d \<and> d \<le> base_delay initial maximum failures"
proof -
  let ?b = "base_delay initial maximum failures"
  let ?i = "effective_initial initial" and ?m = "max (effective_initial initial) maximum"
  have i: "0 < ?i" "?i \<le> ?m" "?m \<le> max_int64"
    using assms(1,2) by (auto simp: effective_initial_def Second_def in_int64_def max_int64_def)
  have "wrap64 (failures - 1) = failures - 1"
    using assms(3,4) by (intro wrap64_in_range) (auto simp: in_int64_def)
  then have n: "nat (max (wrap64 (failures - 1)) 0) = nat (failures - 1)" by (auto simp: max_def)
  have m: "(if maximum < ?i then ?i else maximum) = ?m" by auto
  have loop: "double_delay (nat (failures - 1)) ?m ?i = ?b" using double_delay_eq [OF i] by (simp add: base_delay_def)
  note b = base_delay_bounds [OF assms(1,2), of failures]
  have delay: "(if ?b > ?m then ?m else ?b) = ?b" using b(3) by auto
  have eq: "retryBackoffDelay draw initial maximum failures =
      (if ?b \<le> 1 then Some ?b
       else map_option (\<lambda>jitter. wrap64 (?b div 2 + jitter)) (Int64N draw (wrap64 (?b - ?b div 2))))"
    unfolding retryBackoffDelay_def Let_def n effective_initial_def [symmetric] m loop delay ..
  show ?thesis
  proof (cases "?b \<le> 1")
    case True
    with b(1) eq show ?thesis by auto
  next
    case False
    then obtain x where x: "retryBackoffDelay draw initial maximum failures = Some x" "?b div 2 \<le> x" "x < ?b"
      using jitter_bounds [of ?b draw] b(2) eq by auto
    moreover have "0 < ?b div 2" using False by linarith
    ultimately show ?thesis by auto
  qed
qed

lemma digits_value_nonneg: "digits_value s n = Some m \<Longrightarrow> 0 \<le> n \<Longrightarrow> 0 \<le> m"
  by (induction s n rule: digits_value.induct) (auto split: if_splits)

lemma parseRetryAfter_bounds:
  assumes "parseRetryAfter parseTime value now = Some d"
  shows "0 \<le> d" "d \<le> max_int64"
proof -
  have "0 \<le> d \<and> d \<le> max_int64"
  proof (cases "ParseUint (TrimSpace value)")
    case None
    with assms show ?thesis
      by (auto simp: parseRetryAfter_def Sub_def Let_def max_int64_def min_int64_def split: if_splits option.splits)
  next
    case (Some n)
    then have n: "0 \<le> n" by (auto simp: ParseUint_def dest: digits_value_nonneg split: if_splits option.splits)
    from assms Some have le: "n \<le> max_int64 div Second" and d: "d = wrap64 (wrap64 n * Second)"
      by (auto simp: parseRetryAfter_def Let_def maximumRetryDelay_def split: if_splits)
    have "n * Second \<le> max_int64" "n \<le> max_int64" using le by (auto simp: Second_def max_int64_def)
    with n d show ?thesis by (simp add: in_int64_def min_int64_def Second_def)
  qed
  then show "0 \<le> d" "d \<le> max_int64" by auto
qed

theorem retry_delay_bounds:
  assumes "in_int64 initial" "in_int64 maximum" "in_int64 failures" "failures \<noteq> min_int64"
  shows "\<exists>d. retryDelayForDaemonError parseTime draw initial maximum failures header now = Some d
    \<and> 0 < d \<and> d \<le> max_int64
    \<and> (case retryAfterDelay parseTime header now of
         None \<Rightarrow> base_delay initial maximum failures div 2 \<le> d \<and> d \<le> base_delay initial maximum failures
       | Some s \<Rightarrow> s \<le> d \<and> min max_int64 (s + base_delay initial maximum failures div 2) \<le> d
           \<and> d \<le> s + base_delay initial maximum failures)"
proof -
  let ?b = "base_delay initial maximum failures"
  obtain d where d: "retryBackoffDelay draw initial maximum failures = Some d" "0 < d" "?b div 2 \<le> d" "d \<le> ?b"
    using retryBackoffDelay_bounds [OF assms] by blast
  note b = base_delay_bounds [OF assms(1,2), of failures]
  have max: "wrap64 (max_int64 - d) = max_int64 - d"
    using d b by (simp add: in_int64_def min_int64_def max_int64_def)
  show ?thesis
  proof (cases "retryAfterDelay parseTime header now")
    case None
    with d b show ?thesis by (simp add: retryDelayForDaemonError_def)
  next
    case (Some s)
    then have s: "0 \<le> s" "s \<le> max_int64"
      using parseRetryAfter_bounds by (auto simp: retryAfterDelay_def split: option.splits)
    have add: "wrap64 (s + d) = s + d" if "s \<le> max_int64 - d"
      using that s d(2) by (intro wrap64_in_range) (simp add: in_int64_def min_int64_def)
    show ?thesis
      by (cases "s > max_int64 - d")
        (use s d b add Some in \<open>auto simp: retryDelayForDaemonError_def max maximumRetryDelay_def\<close>)
  qed
qed

end
