(* ===== verification/Daemon_Properties.thy ===== *)
theory Daemon_Properties
  imports StateDB_Properties Registration_Traces Daemon_Backoff
begin

text \<open>
  The properties of the machine daemon around its state database: reports reach the backend, stopped
  processes are closed and removed, and a registration brings the daemon and the backend together.
  They start from any database the store's operations can reach.
\<close>

section \<open>A concrete daemon\<close>

text \<open>
  A codec that tells events apart by one letter, and a process that was spawned, reported its start
  and began an action when its supervisor died.
\<close>

definition daemon_events :: "(bytes \<times> reported_event) list" where
  "daemon_events =
     [(''S'', sample_event EventProcessStarted [] ProcessStateRunning 1 0 2),
      (''U'', unknown_action_event ''p'' ''a1''),
      (''X'', terminal_event ''p'' ProcessStateUnknown ''local_process_unrecoverable''
         ''the accepted process no longer has a live supervisor'' ''Rhello'')]"

definition daemon_codec :: report_codec where
  "daemon_codec =
     \<lparr>unmarshal_event = map_of daemon_events,
      unmarshal_observation = (\<lambda>b. case b of [] \<Rightarrow> Some None | _ # text \<Rightarrow> Some (Some text)),
      marshal_report = (\<lambda>_ event. Some (event_process_id event))\<rparr>"

definition sample_env :: daemon_env where
  "sample_env =
     \<lparr>env_codec = daemon_codec,
      marshal_event = map_of (map (\<lambda>(b, e). (e, b)) daemon_events),
      marshal_result = (\<lambda>_ out _. Some (CHR ''R'' # out_text out)),
      process_output_of = (\<lambda>_. no_output\<lparr>out_text := ''hello''\<rparr>)\<rparr>"

definition sample_abandoned :: "store_op list" where
  "sample_abandoned = sample_start @
     [OpAuthorizeSpawnOnce ''p'' ''s'', OpRecordSpawned ''p'' ''s'' ''k'' ''7'',
      OpFreezeStartedReport ''r1'' ''p'' ''s'' (sample_report [] ReportProcessStarted ''S''),
      OpApplyOnce ''p'' ''s'' (sample_action ''a1'' 1)]"

definition sample_released :: "store_op list" where
  "sample_released = sample_abandoned @ [OpMarkServerReleased ''p'' ''s'']"

definition sample_world :: "store_op list \<Rightarrow> world" where
  "sample_world ops =
     \<lparr>store = after daemon_codec ops, client_processes = [], schedule = [], replies = [],
      ids = (\<lambda>n. replicate (Suc n) (CHR ''x'')), drawn = 0\<rparr>"

lemma sample_abandoned_int64: "list_all seq_int64 sample_abandoned" "list_all seq_int64 sample_released"
  by (simp_all add: sample_abandoned_def sample_released_def sample_start_def sample_action_def in_int64_def
      min_int64_def max_int64_def)

lemma daemon_codec_simps [simp]:
  "unmarshal_event daemon_codec = map_of daemon_events"
  "unmarshal_observation daemon_codec = (\<lambda>b. case b of [] \<Rightarrow> Some None | _ # text \<Rightarrow> Some (Some text))"
  "marshal_report daemon_codec = (\<lambda>_ event. Some (event_process_id event))"
  by (simp_all add: daemon_codec_def)

lemma sample_env_simps [simp]:
  "env_codec sample_env = daemon_codec" "marshal_event sample_env = map_of (map (\<lambda>(b, e). (e, b)) daemon_events)"
  "marshal_result sample_env = (\<lambda>_ out _. Some (CHR ''R'' # out_text out))"
  "process_output_of sample_env = (\<lambda>_. no_output\<lparr>out_text := ''hello''\<rparr>)"
  by (simp_all add: sample_env_def)

definition abandoned_process :: process where
  "abandoned_process = sample_process\<lparr>phase := ProcessAccepted, exec_committed := True, containment_kind := ''k'',
     containment_id := ''7''\<rparr>"

lemma sample_started_daemon:
  "after daemon_codec sample_start =
     \<lparr>machine_identity = Some (''i'', ''m''), processes = [sample_process\<lparr>phase := ProcessAccepted\<rparr>],
      process_actions = [], frozen_reports = []\<rparr>"
  by (simp add: after_def sample_defs evaluate_defs)

lemma sample_abandoned_state:
  "after daemon_codec sample_abandoned =
     \<lparr>machine_identity = Some (''i'', ''m''), processes = [abandoned_process],
      process_actions = [(sample_action ''a1'' 1)\<lparr>effect_committed := True\<rparr>],
      frozen_reports = [frozen_row ''r1'' (sample_report [] ReportProcessStarted ''S'')]\<rparr>"
  unfolding sample_abandoned_def
  by (simp add: after_append sample_started_daemon)
    (simp add: sample_defs evaluate_defs daemon_events_def frozen_row_def abandoned_process_def)


lemma sample_world_simps [simp]:
  "store (sample_world ops) = after daemon_codec ops" "calm (sample_world ops)" "world_ok (sample_world ops)"
  "client_processes (sample_world ops) = []" "ids (sample_world ops) = (\<lambda>n. replicate (Suc n) (CHR ''x''))"
  by (simp_all add: sample_world_def calm_def world_ok_def)






text \<open>A backend that still has the process running and its action accepted.\<close>

definition sample_sdb :: server_db where
  "sample_sdb =
     \<lparr>sdb_processes = [\<lparr>sp_id = ''p'', sp_tool_call_id = ''t1'', sp_state = ProcessStateRunning, sp_exit_code = None, sp_reason_code = [],
        sp_source_started = True\<rparr>],
      sdb_actions = [\<lparr>sa_id = ''a1'', sa_process_id = ''p'', sa_tool_call_id = ''t2'', sa_kind = ProcessActionWrite,
        sa_seq = 1, sa_payload = ''x'', sa_state = ActionStateAccepted, sa_reason_code = []\<rparr>],
      sdb_tool_calls = [\<lparr>tc_id = ''t1'', tc_built_in = True, tc_waiting = True, tc_result = None\<rparr>,
        \<lparr>tc_id = ''t2'', tc_built_in = True, tc_waiting = True, tc_result = None\<rparr>]\<rparr>"

definition sample_claim :: process_claim where
  "sample_claim =
     \<lparr>pc_process_id = ''p'', pc_supervisor_instance_id = ''s'', pc_phase = Phase ProcessAccepted, pc_live = False,
      pc_exec_committed = True, pc_admission_closed = False, pc_resolved_seq = 0,
      pc_actions = [\<lparr>ac_id = ''a1'', ac_kind = ProcessActionWrite, ac_seq = 1, ac_position = ActionPositionEffectCommitted\<rparr>]\<rparr>"

definition sample_startup :: localStartupState where
  "sample_startup = no_startup\<lparr>Claims := [sample_claim], stoppedLocks := [''p'']\<rparr>"

definition sample_directive :: process_directive where
  "sample_directive =
     \<lparr>pd_process_id = ''p'', pd_supervisor_instance_id = ''s'', pd_disposition = ProcessDispositionRelease,
      pd_actions = [\<lparr>ad_id = ''a1'', ad_kind = ProcessActionWrite, ad_seq = 1, ad_payload = [],
        ad_disposition = ActionDispositionRelease\<rparr>]\<rparr>"

lemma sample_snapshot:
  "map_sum id (map (\<lambda>snap. (Process snap, claim_of (\<lambda>_. False) snap, RejectedReportIDs snap)))
     (SnapshotForReconciliation (after daemon_codec sample_abandoned)) = Inr [(abandoned_process, Inr sample_claim, [])]"
  unfolding sample_abandoned_state by code_simp

lemma inspect_calm: "calm w \<Longrightarrow> inspectLocalSupervisor env p w = (Inr Stopped, w)"
  by (simp add: inspectLocalSupervisor_def external_calm tryD_def returnD_def)

lemma snapshot_calm: "calm w \<Longrightarrow> SnapshotForReconciliation (store w) = Inr snaps \<Longrightarrow> snapshotD codec w = (Inr snaps, w)"
  by (simp add: snapshotD_def tx_calm)

lemma sample_scan:
  "scanLocalProcessesForRegistration sample_env (Suc n) (sample_world sample_abandoned) =
     Some (Inr sample_startup, sample_world sample_abandoned)"
proof -
  obtain snap where snap: "SnapshotForReconciliation (after daemon_codec sample_abandoned) = Inr [snap]"
    "Process snap = abandoned_process" "claim_of (\<lambda>_. False) snap = Inr sample_claim" "RejectedReportIDs snap = []"
    using sample_snapshot by (cases "SnapshotForReconciliation (after daemon_codec sample_abandoned)") auto
  have "Store_Processes (after daemon_codec sample_abandoned) = [abandoned_process]"
    by (simp add: Store_Processes_def ListProcesses_def sample_abandoned_state)
  then show ?thesis
    by (simp add: scanLocalProcessesForRegistrationOnce_def on_failS_def scan_inventory_def bindS_def external_calm
        query_calm inspect_process_def inspect_calm snapshot_calm snap claim_process_def liftE_def same_identity_def
        lookup_runtime_def sample_startup_def no_startup_def abandoned_process_def sample_process_def)
qed

lemma sample_reconcile:
  "\<exists>sdb'. reconcileRegisteredRuntimeTx (\<lambda>ps. ps) [sample_claim] sample_sdb = Inr ([sample_directive], sdb')"
proof -
  have "map_sum id fst (reconcileRegisteredRuntimeTx (\<lambda>ps. ps) [sample_claim] sample_sdb) = Inr [sample_directive]"
    by code_simp
  then show ?thesis by (cases "reconcileRegisteredRuntimeTx (\<lambda>ps. ps) [sample_claim] sample_sdb") auto
qed

lemma sample_server_ok: "server_ok sample_sdb" "agree (after daemon_codec sample_abandoned) sample_sdb"
  by (simp_all add: server_ok_def agree_def sample_sdb_def max_int64_def list_all_iff)

section \<open>The daemon runs on its store\<close>







section \<open>Reports reach the backend\<close>

text \<open>
  C36. Of the candidates in delivery order the outbox selects exactly the first 128 that may be sent:
  whose process is not in cleanup, which are pending or forced, and which no earlier report of their
  process holds back.
\<close>
theorem outbox_selection_is_exact:
  assumes "list_all seq_int64 ops"
  shows "select_reports cleanup forced 128 [] [] (DeliveryCandidates (after codec ops)) =
    take 128 (filter (eligible cleanup forced (DeliveryCandidates (after codec ops))) (DeliveryCandidates (after codec ops)))"
  by (rule selection_eq [OF db_inv_after [OF assms]])

theorem outbox_selection_is_exact_witness:
  "map ID (select_reports (\<lambda>_. False) [] 128 [] [] (DeliveryCandidates (after daemon_codec sample_abandoned))) = [''r1'']"
proof -
  have "map ID (take 128 (filter (eligible (\<lambda>_. False) [] (DeliveryCandidates (after daemon_codec sample_abandoned)))
      (DeliveryCandidates (after daemon_codec sample_abandoned)))) = [''r1'']"
    unfolding sample_abandoned_state by code_simp
  then show ?thesis using outbox_selection_is_exact [OF sample_abandoned_int64(1), of "\<lambda>_. False" "[]" daemon_codec] by simp
qed

text \<open>
  C9. The outbox drains: once every recorded action is reported, and every report is pending or
  forced, a backend that takes each report empties the outbox in at most one round per report, without losing
  a process or moving one back.
\<close>
theorem outbox_drains:
  assumes "list_all seq_int64 ops" "store w = after codec ops" "calm w"
    and "all_reported (store w)" "sendable forced w"
    and "list_all accepting rounds" "card (unsettled (store w)) \<le> length rounds"
  shows "\<exists>db'. snd (replayReportOutbox codec rounds forced w) = w\<lparr>store := db'\<rparr> \<and> unsettled db' = {}
    \<and> db_inv codec db' \<and> all_reported db' \<and> (\<forall>pid. advances pid (store w) db')
    \<and> process_id ` set (processes db') = process_id ` set (processes (store w))"
proof -
  have inv: "db_inv codec (store w)" using db_inv_after [OF assms(1)] assms(2) by simp
  then show ?thesis using outbox_drained [OF inv assms(3-7)] assms(4) by (auto simp: drains_def)
qed

definition accept_all :: server where
  "accept_all = (\<lambda>_. Inr \<lparr>ack_status = AckStatusCommitted, ack_code = [], ack_err = []\<rparr>)"

lemma accept_all: "accepting accept_all"
  by (simp add: accepting_def accept_all_def)

definition sample_reporting :: "store_op list" where
  "sample_reporting = sample_start @ [OpAuthorizeSpawnOnce ''p'' ''s'', OpRecordSpawned ''p'' ''s'' ''k'' ''7'',
     OpFreezeStartedReport ''r1'' ''p'' ''s'' (sample_report [] ReportProcessStarted ''S'')]"

theorem outbox_drains_witness:
  "\<exists>db'. snd (replayReportOutbox daemon_codec [accept_all] [] (sample_world sample_reporting)) =
       (sample_world sample_reporting)\<lparr>store := db'\<rparr> \<and> unsettled db' = {} \<and> process_id ` set (processes db') = {''p''}"
proof -
  have db: "after daemon_codec sample_reporting =
     \<lparr>machine_identity = Some (''i'', ''m''), processes = [abandoned_process], process_actions = [],
      frozen_reports = [frozen_row ''r1'' (sample_report [] ReportProcessStarted ''S'')]\<rparr>"
    unfolding sample_reporting_def after_append sample_started_daemon
    by (simp add: sample_defs evaluate_defs daemon_events_def frozen_row_def abandoned_process_def)
  then have un: "unsettled (after daemon_codec sample_reporting) = {frozen_row ''r1'' (sample_report [] ReportProcessStarted ''S'')}"
    by (auto simp: unsettled_def frozen_row_def)
  let ?w = "sample_world sample_reporting"
  have "list_all seq_int64 sample_reporting" by (simp add: sample_reporting_def sample_start_def)
  moreover have "sendable [] ?w" by (simp add: sendable_def un frozen_row_def cleanup_process_def lookup_runtime_def)
  moreover have "all_reported (store ?w)" by (simp add: all_reported_def db)
  moreover have "list_all accepting [accept_all]" "card (unsettled (store ?w)) \<le> length [accept_all]"
    by (simp_all add: un accept_all)
  moreover have "process_id ` set (processes (store ?w)) = {''p''}" by (simp add: db abandoned_process_def sample_process_def)
  ultimately show ?thesis using outbox_drains [of sample_reporting ?w daemon_codec "[]" "[accept_all]"] sample_world_simps
    by metis
qed

section \<open>Stopped processes\<close>





section \<open>Registering\<close>

text \<open>
  C34. A scan that succeeds, after however many attempts, claims exactly what the database holds at
  that moment: one claim per process with its phase and frontier, whether its supervisor is alive,
  and one entry per recorded action with the evidence there is for it.
\<close>
theorem scan_claims_are_exact:
  assumes "list_all seq_int64 ops" "store w = after (env_codec env) ops" "world_ok w"
    and "scanLocalProcessesForRegistration env n w = Some (Inr s, w')"
  shows "Claims s = map (claim_for (store w') (runs s)) (ListProcesses (store w'))"
proof -
  have "db_inv (env_codec env) (store w)" using db_inv_after [OF assms(1)] assms(2) by simp
  from scan_retries_spec [OF assms(3) this assms(4)] show ?thesis by (simp add: scanned_def)
qed

theorem scan_claims_are_exact_witness:
  "Claims sample_startup = map (claim_for (after daemon_codec sample_abandoned) (runs sample_startup)) [abandoned_process]"
  using scan_claims_are_exact [OF sample_abandoned_int64(1) _ _ sample_scan]
  by (simp add: ListProcesses_def sample_abandoned_state)

text \<open>
  The backend's validation accepts a list of claims if and only if it is well formed: identifiers
  present and distinct, phases known, and every action above the claimed frontier with its own
  identifier and sequence number; it changes nothing.
\<close>
theorem claim_validation_is_exact:
  "validateProcessReconciliationClaims input = Inr claims \<longleftrightarrow> claims = input \<and> valid_claims input"
  by (rule validate_claims_iff)

text \<open>
  C35. What a scan claims is always of the form the backend's validation demands.
\<close>
theorem scanned_claims_are_well_formed:
  assumes "list_all seq_int64 ops" "store w = after (env_codec env) ops" "world_ok w"
    and "scanLocalProcessesForRegistration env n w = Some (Inr s, w')"
  shows "validateProcessReconciliationClaims (Claims s) = Inr (Claims s)"
proof -
  have inv: "db_inv (env_codec env) (store w)" using db_inv_after [OF assms(1)] assms(2) by simp
  from scan_retries_spec [OF assms(3) inv assms(4)] have "follows (env_codec env) w w'" "scanned s (store w')" by auto
  then have "valid_claims (Claims s)" using scanned_valid follows_db_inv inv by blast
  then show ?thesis by (simp add: validate_claims_iff)
qed

theorem scanned_claims_are_well_formed_witness:
  "validateProcessReconciliationClaims [sample_claim] = Inr [sample_claim]"
  using scanned_claims_are_well_formed [OF sample_abandoned_int64(1) _ _ sample_scan] by (simp add: sample_startup_def)

text \<open>
  C8. The backend answers with exactly one directive per claim, and each is one the claim admits: a
  preparation is closed only if it was never granted, a process is started only if its supervisor is
  alive and the backend waits for it to start, an action is handed only to a live supervisor that
  does not have it, settled only on frozen evidence, and released only if the daemon has no terminal evidence for it.
\<close>
theorem directives_answer_the_claims:
  assumes "server_ok sdb" "\<And>ps. mset (visit ps) = mset ps"
    and "reconcileRegisteredRuntimeTx visit claims sdb = Inr (ds, sdb')"
  shows "distinct (map pd_process_id ds) \<and> pd_process_id ` set ds = pc_process_id ` set claims
    \<and> (\<forall>d \<in> set ds. \<exists>c \<in> set claims. process_admitted sdb c d)"
  using reconcile_spec [OF assms] by blast

theorem directives_answer_the_claims_witness: "process_admitted sample_sdb sample_claim sample_directive"
proof -
  obtain sdb' where "reconcileRegisteredRuntimeTx (\<lambda>ps. ps) [sample_claim] sample_sdb = Inr ([sample_directive], sdb')"
    using sample_reconcile by blast
  from directives_answer_the_claims [OF sample_server_ok(1) _ this] show ?thesis by simp
qed



section \<open>Waiting before a retry\<close>

text \<open>
  C37. The delay before a retry never overflows and \<open>rand.Int64N\<close> never panics: the delay is positive,
  lies between half and all of the doubled and capped base delay, and a server that asked for a delay is
  never contacted earlier than it asked.
\<close>
theorem retry_delay_is_bounded:
  assumes "in_int64 initial" "in_int64 maximum" "in_int64 failures" "failures \<noteq> min_int64"
  shows "\<exists>d. retryDelayForDaemonError parseTime draw initial maximum failures header now = Some d
    \<and> 0 < d \<and> d \<le> max_int64
    \<and> (case retryAfterDelay parseTime header now of
         None \<Rightarrow> base_delay initial maximum failures div 2 \<le> d \<and> d \<le> base_delay initial maximum failures
       | Some s \<Rightarrow> s \<le> d \<and> min max_int64 (s + base_delay initial maximum failures div 2) \<le> d
           \<and> d \<le> s + base_delay initial maximum failures)"
  by (rule retry_delay_bounds [OF assms])

theorem retry_delay_is_bounded_witness:
  "\<exists>d. retryDelayForDaemonError (\<lambda>_. None) 7 Second (30 * Second) 10 None 0 = Some d \<and> 15 * Second \<le> d \<and> d \<le> 30 * Second"
proof -
  have "base_delay Second (30 * Second) 10 = 30 * Second"
    by (simp add: base_delay_def effective_initial_def backoff_def Second_def)
  moreover have "in_int64 Second" "in_int64 (30 * Second)" "in_int64 10" "10 \<noteq> min_int64"
    by (simp_all add: in_int64_def Second_def max_int64_def min_int64_def)
  ultimately show ?thesis
    using retry_delay_is_bounded [of Second "30 * Second" 10 "\<lambda>_. None" 7 None 0]
    by (auto simp: retryAfterDelay_def Second_def)
qed

end
