(* ===== verification/Compaction_Planner.thy ===== *)
theory Compaction_Planner
  imports Omnara_Prelude
begin

text \<open>
  The planner of context compaction (\<open>src/internal/compaction/planner.go\<close>, \<open>progressive.go\<close>): which
  prefix of an agent's event log may be replaced by a summary.  Events carry sequences in strictly
  increasing order; an atomic group (a tool call with its result) must not be cut.

  A \<open>uuid.UUID\<close> is its 16 bytes.  How many parts \<open>json.Unmarshal\<close> finds in an event's content is an
  argument, with \<open>None\<close> for malformed content.  Sequences are \<open>int64\<close> values; the planner only adds one
  to a sequence below another sequence, so those sums are exact, and the one sum without such a
  bound, in \<open>PlanCheckpoint\<close>, is written with its wrap-around.
\<close>

section \<open>Events, groups and plans\<close>

type_synonym uuid = string

definition uuid_nil :: uuid where
  "uuid_nil = replicate 16 (CHR 0x00)"

datatype event_kind =
    KindModelOutput | KindToolResult | KindAgentInput | KindContextCheckpoint | KindOther string

record source_event =
  EventID :: uuid
  Sequence :: int
  TurnID :: uuid
  IsOpeningEvent :: bool
  EventKind :: event_kind
  InputKind :: string
  ToolName :: string
  ProviderCallID :: string
  ToolOutcome :: string
  ContentParts :: string
  CreatedAt :: int

record atomic_group =
  GroupKind :: string
  StartSequence :: int
  EndSequence :: int

record plan_input =
  PlanProjectID :: uuid
  PlanAgentID :: uuid
  InputEventSequence :: int
  SummarizedThroughEventSequence :: int
  RetainFromEventSequence :: int
  PlanAtomicGroups :: "atomic_group list"

record checkpoint_plan =
  CheckpointProjectID :: uuid
  CheckpointAgentID :: uuid
  CheckpointInputEventSequence :: int
  EventSequenceStart :: int
  EventSequenceEnd :: int

record retain_boundary_input =
  SourceEventSequenceStart :: int
  DesiredRetainFromSequence :: int
  DesiredRetainTokens :: int
  MaximumRetainFromSequence :: int
  Events :: "source_event list"
  AtomicGroups :: "atomic_group list"

datatype planner_error =
    ErrSequencesRequired
  | ErrDesiredExceedsMaximum
  | ErrEventsNotOrdered
  | ErrInvalidGroup string
  | ErrPlanOwnerRequired
  | ErrWatermarkRequired
  | ErrExceedsWatermark
  | ErrSplitsGroup int int atomic_group
  | ErrNegativeCount

type_synonym part_counter = "string \<Rightarrow> nat option"

section \<open>Safe ends\<close>

definition maxRecentTailTargetTokens :: int where
  "maxRecentTailTargetTokens = 20000"

definition RecentTailTargetTokens :: "int \<Rightarrow> int" where
  "RecentTailTargetTokens usableInputTokens =
     (if usableInputTokens \<le> 0 then 0
      else let recentTailTargetTokens = usableInputTokens div 4
        in if recentTailTargetTokens > maxRecentTailTargetTokens then maxRecentTailTargetTokens
           else recentTailTargetTokens)"

definition EstimateSourceEventTokens :: "source_event \<Rightarrow> int" where
  "EstimateSourceEventTokens event = int (length (ContentParts event)) div 4 + 1"

definition compactionEventHasModelSemantics :: "part_counter \<Rightarrow> source_event \<Rightarrow> bool" where
  "compactionEventHasModelSemantics parts event =
     (if EventKind event = KindContextCheckpoint then False
      else if ToolName event \<noteq> [] \<or> ProviderCallID event \<noteq> [] \<or> ToolOutcome event \<noteq> [] then True
      else case parts (ContentParts event) of None \<Rightarrow> True | Some n \<Rightarrow> 0 < n)"

text \<open>A Go map from turns to sequences; a missing key reads as zero.\<close>

definition lookup_seq :: "(uuid \<Rightarrow> int option) \<Rightarrow> uuid \<Rightarrow> int" where
  "lookup_seq m k = (case m k of None \<Rightarrow> 0 | Some n \<Rightarrow> n)"

definition latestByTurn :: "(source_event \<Rightarrow> bool) \<Rightarrow> source_event list \<Rightarrow> uuid \<Rightarrow> int option" where
  "latestByTurn P events =
     fold (\<lambda>event m. if P event then m(TurnID event \<mapsto> Sequence event) else m) events Map.empty"

definition compactionEventEndsSettledStep :: "source_event \<Rightarrow> (uuid \<Rightarrow> int option) \<Rightarrow> bool" where
  "compactionEventEndsSettledStep event latestModelOutputByTurn =
     (case EventKind event of
        KindModelOutput \<Rightarrow> True
      | KindToolResult \<Rightarrow> True
      | KindAgentInput \<Rightarrow> lookup_seq latestModelOutputByTurn (TurnID event) > Sequence event
      | _ \<Rightarrow> False)"

definition safeCompactionSourceEndsWithWitness ::
    "part_counter \<Rightarrow> source_event list \<Rightarrow> source_event list \<Rightarrow> atomic_group list \<Rightarrow> int list" where
  "safeCompactionSourceEndsWithWitness parts events witnessEvents groups =
     (let latestModelOutputByTurn = latestByTurn (\<lambda>event. EventKind event = KindModelOutput) witnessEvents
      in map Sequence (filter (\<lambda>event.
           compactionEventHasModelSemantics parts event
         \<and> compactionEventEndsSettledStep event latestModelOutputByTurn
         \<and> \<not> list_ex (\<lambda>group. StartSequence group \<le> Sequence event \<and> Sequence event < EndSequence group) groups)
         events))"

definition safeCompactionSourceEnds ::
    "part_counter \<Rightarrow> source_event list \<Rightarrow> atomic_group list \<Rightarrow> int list" where
  "safeCompactionSourceEnds parts events groups =
     safeCompactionSourceEndsWithWitness parts events events groups"

definition completeTurnSourceEnds :: "source_event list \<Rightarrow> source_event list \<Rightarrow> int list \<Rightarrow> int list" where
  "completeTurnSourceEnds events witnessEvents candidates =
     (let latestSequenceByTurn =
            latestByTurn (\<lambda>event. EventKind event \<noteq> KindContextCheckpoint \<and> TurnID event \<noteq> uuid_nil) witnessEvents;
          eventBySequence = fold (\<lambda>event m. m(Sequence event \<mapsto> event)) events Map.empty
      in filter (\<lambda>candidate.
           case eventBySequence candidate of
             None \<Rightarrow> False
           | Some event \<Rightarrow> EventKind event = KindModelOutput \<and> TurnID event \<noteq> uuid_nil
               \<and> lookup_seq latestSequenceByTurn (TurnID event) = candidate) candidates)"

section \<open>Choosing the boundary\<close>

text \<open>The loop over candidates: the last one before the target and the first one after it; zero is none.\<close>

fun boundaries_from :: "(int \<Rightarrow> bool) \<Rightarrow> int \<Rightarrow> int list \<Rightarrow> int \<times> int" where
  "boundaries_from beforeTarget before [] = (before, 0)"
| "boundaries_from beforeTarget before (candidate # candidates) =
     (if beforeTarget candidate then boundaries_from beforeTarget candidate candidates
      else (before, candidate))"

definition boundariesAroundTarget :: "int list \<Rightarrow> (int \<Rightarrow> bool) \<Rightarrow> int \<times> int" where
  "boundariesAroundTarget candidates beforeTarget = boundaries_from beforeTarget 0 candidates"

fun tail_fits :: "int \<Rightarrow> int \<Rightarrow> int \<Rightarrow> source_event list \<Rightarrow> bool" where
  "tail_fits target retainFrom tokens [] = True"
| "tail_fits target retainFrom tokens (event # events) =
     (if Sequence event < retainFrom then tail_fits target retainFrom tokens events
      else let tokens' = tokens + EstimateSourceEventTokens event
        in if tokens' > target then False else tail_fits target retainFrom tokens' events)"

definition retainedTailFitsTarget :: "retain_boundary_input \<Rightarrow> int \<Rightarrow> bool" where
  "retainedTailFitsTarget input retainFrom =
     (if DesiredRetainTokens input \<le> 0 then True
      else tail_fits (DesiredRetainTokens input) retainFrom 0 (Events input))"

fun strictly_ordered :: "int \<Rightarrow> source_event list \<Rightarrow> bool" where
  "strictly_ordered previousSequence [] = True"
| "strictly_ordered previousSequence (event # events) =
     (if Sequence event \<le> previousSequence then False else strictly_ordered (Sequence event) events)"

definition validateRetainBoundaryInput :: "retain_boundary_input \<Rightarrow> planner_error + unit" where
  "validateRetainBoundaryInput input =
     (if SourceEventSequenceStart input \<le> 0 \<or> DesiredRetainFromSequence input \<le> 0
         \<or> MaximumRetainFromSequence input \<le> 0
      then Inl ErrSequencesRequired
      else if DesiredRetainFromSequence input > MaximumRetainFromSequence input
      then Inl ErrDesiredExceedsMaximum
      else if \<not> strictly_ordered 0 (Events input)
      then Inl ErrEventsNotOrdered
      else checkE (\<lambda>group. if StartSequence group \<le> 0 \<or> EndSequence group < StartSequence group
             then Inl (ErrInvalidGroup (GroupKind group)) else Inr ()) (AtomicGroups input))"

definition wholeTurnBoundaryRetainFrom :: "retain_boundary_input \<Rightarrow> int list \<Rightarrow> int" where
  "wholeTurnBoundaryRetainFrom input safeEnds =
     (if DesiredRetainTokens input \<le> 0 \<or> Events input = [] then 0
      else
        let desiredSourceEnd = DesiredRetainFromSequence input - 1;
            latestSequence = Sequence (last (Events input));
            eligibleEnds = filter (\<lambda>end. \<not> (end < SourceEventSequenceStart input
                \<or> end \<ge> MaximumRetainFromSequence input \<or> end \<ge> latestSequence))
              (completeTurnSourceEnds (Events input) (Events input) safeEnds);
            (latestBefore, firstAfter) = boundariesAroundTarget eligibleEnds (\<lambda>end. end \<le> desiredSourceEnd)
        in if latestBefore > 0 \<and> retainedTailFitsTarget input (latestBefore + 1) then latestBefore + 1
           else if firstAfter > 0 then firstAfter + 1
           else 0)"

text \<open>The opening sequence and the tokens of a turn: the second loop of \<open>wholeTurnRetainFrom\<close>.\<close>

definition turn_opening :: "uuid \<Rightarrow> source_event list \<Rightarrow> int" where
  "turn_opening desiredTurnID events =
     fold (\<lambda>event openingSequence.
       if TurnID event = desiredTurnID \<and> IsOpeningEvent event
          \<and> (openingSequence = 0 \<or> Sequence event < openingSequence)
       then Sequence event else openingSequence) events 0"

definition turn_tokens :: "uuid \<Rightarrow> source_event list \<Rightarrow> int" where
  "turn_tokens desiredTurnID events =
     sum_list (map EstimateSourceEventTokens (filter (\<lambda>event. TurnID event = desiredTurnID) events))"

definition wholeTurnRetainFrom :: "retain_boundary_input \<Rightarrow> int list \<Rightarrow> int" where
  "wholeTurnRetainFrom input safeEnds =
     (if DesiredRetainTokens input \<le> 0 then 0
      else
        let desiredTurnID = (case find (\<lambda>event. Sequence event = DesiredRetainFromSequence input) (Events input) of
              None \<Rightarrow> uuid_nil | Some event \<Rightarrow> TurnID event)
        in if desiredTurnID = uuid_nil then 0
           else
             let openingSequence = turn_opening desiredTurnID (Events input);
                 turnTokens = turn_tokens desiredTurnID (Events input)
             in if openingSequence \<le> SourceEventSequenceStart input
                   \<or> openingSequence > DesiredRetainFromSequence input
                   \<or> openingSequence > MaximumRetainFromSequence input
                   \<or> turnTokens > DesiredRetainTokens input
                then 0
                else if list_ex (\<lambda>safeEnd. safeEnd = openingSequence - 1) safeEnds then openingSequence
                else 0)"

text \<open>The same scan over all safe ends, skipping those outside the range the caller allows.\<close>

fun retain_scan :: "retain_boundary_input \<Rightarrow> int \<Rightarrow> int list \<Rightarrow> int \<times> int" where
  "retain_scan input latestBefore [] = (latestBefore, 0)"
| "retain_scan input latestBefore (end # ends) =
     (if end < SourceEventSequenceStart input \<or> end \<ge> MaximumRetainFromSequence input
      then retain_scan input latestBefore ends
      else if end \<le> DesiredRetainFromSequence input - 1 then retain_scan input end ends
      else (latestBefore, end))"

definition SelectRetainFromEventSequence ::
    "part_counter \<Rightarrow> retain_boundary_input \<Rightarrow> planner_error + int option" where
  "SelectRetainFromEventSequence parts input =
     bindE (validateRetainBoundaryInput input) (\<lambda>_.
       let safeEnds = safeCompactionSourceEnds parts (Events input) (AtomicGroups input)
       in if wholeTurnRetainFrom input safeEnds > 0 then Inr (Some (wholeTurnRetainFrom input safeEnds))
          else if wholeTurnBoundaryRetainFrom input safeEnds > 0
          then Inr (Some (wholeTurnBoundaryRetainFrom input safeEnds))
          else
            let (latestBefore, firstAfter) = retain_scan input 0 safeEnds
            in if latestBefore > 0 \<and> retainedTailFitsTarget input (latestBefore + 1)
               then Inr (Some (latestBefore + 1))
               else if firstAfter > 0 then Inr (Some (firstAfter + 1))
               else if latestBefore > 0 then Inr (Some (latestBefore + 1))
               else Inr None)"

definition RetainFromEventSequenceCandidates ::
    "part_counter \<Rightarrow> retain_boundary_input \<Rightarrow> planner_error + int list" where
  "RetainFromEventSequenceCandidates parts input =
     bindE (validateRetainBoundaryInput input) (\<lambda>_.
       Inr (map (\<lambda>end. end + 1)
         (filter (\<lambda>end. \<not> (end < SourceEventSequenceStart input \<or> end \<ge> MaximumRetainFromSequence input))
           (safeCompactionSourceEnds parts (Events input) (AtomicGroups input)))))"

section \<open>Planning a checkpoint\<close>

definition rangesOverlap :: "int \<Rightarrow> int \<Rightarrow> int \<Rightarrow> int \<Rightarrow> bool" where
  "rangesOverlap aStart aEnd bStart bEnd \<longleftrightarrow> aStart \<le> bEnd \<and> bStart \<le> aEnd"

definition PlanCheckpoint :: "plan_input \<Rightarrow> planner_error + checkpoint_plan option" where
  "PlanCheckpoint input =
     (if PlanProjectID input = uuid_nil \<or> PlanAgentID input = uuid_nil
      then Inl ErrPlanOwnerRequired
      else if InputEventSequence input \<le> 0 then Inl ErrWatermarkRequired
      else if RetainFromEventSequence input \<le> 1 then Inr None
      else
        let start = wrap64 (SummarizedThroughEventSequence input + 1);
            end' = RetainFromEventSequence input - 1
        in if end' < start then Inr None
           else if end' > InputEventSequence input then Inl ErrExceedsWatermark
           else bindE (checkE (\<lambda>group.
                  if StartSequence group \<le> 0 \<or> EndSequence group < StartSequence group
                  then Inl (ErrInvalidGroup (GroupKind group))
                  else if start \<le> StartSequence group \<and> end' \<ge> EndSequence group then Inr ()
                  else if rangesOverlap start end' (StartSequence group) (EndSequence group)
                  then Inl (ErrSplitsGroup start end' group)
                  else Inr ()) (PlanAtomicGroups input)) (\<lambda>_.
                Inr (Some \<lparr>CheckpointProjectID = PlanProjectID input, CheckpointAgentID = PlanAgentID input,
                  CheckpointInputEventSequence = InputEventSequence input,
                  EventSequenceStart = start, EventSequenceEnd = end'\<rparr>)))"

text \<open>The atomic groups as the store reads them carry the same three fields.\<close>

type_synonym atomic_group_record = atomic_group

definition atomicGroupsFromRecords :: "atomic_group_record list \<Rightarrow> atomic_group list" where
  "atomicGroupsFromRecords records =
     map (\<lambda>record. \<lparr>GroupKind = GroupKind record, StartSequence = StartSequence record,
       EndSequence = EndSequence record\<rparr>) records"

definition OpeningEventsRequireVerbatimRetention :: "source_event list \<Rightarrow> int \<Rightarrow> bool" where
  "OpeningEventsRequireVerbatimRetention events openingStart \<longleftrightarrow>
     \<not> list_ex (\<lambda>event. Sequence event > openingStart \<and> EventKind event = KindModelOutput) events"

section \<open>Progressive checkpoints\<close>

definition defaultMaxProgressiveCheckpoints :: int where
  "defaultMaxProgressiveCheckpoints = 3"

record progressive_input =
  PriorSummarizedThroughEventSequence :: int
  ConsecutiveCheckpointCount :: int
  CandidateSummarizedThroughSequence :: int
  HasRemainingSemanticSource :: bool

record progressive_decision =
  Allowed :: bool
  Reason :: string

definition Evaluate :: "progressive_input \<Rightarrow> planner_error + progressive_decision" where
  "Evaluate input =
     (if CandidateSummarizedThroughSequence input \<le> PriorSummarizedThroughEventSequence input
      then Inr \<lparr>Allowed = False,
        Reason = ''candidate checkpoint does not advance the summarized event frontier''\<rparr>
      else if \<not> HasRemainingSemanticSource input
      then Inr \<lparr>Allowed = False,
        Reason = ''candidate checkpoint leaves no model-visible source for another compaction step''\<rparr>
      else if ConsecutiveCheckpointCount input < 0
      then Inl ErrNegativeCount
      else if ConsecutiveCheckpointCount input \<ge> defaultMaxProgressiveCheckpoints
      then Inr \<lparr>Allowed = False, Reason = ''progressive checkpoint limit of 3 was reached''\<rparr>
      else Inr \<lparr>Allowed = True, Reason = []\<rparr>)"


section \<open>Ordered events\<close>

lemma strictly_ordered_iff: "strictly_ordered p es \<longleftrightarrow> sorted_wrt (<) (p # map Sequence es)"
proof (induction es arbitrary: p)
  case (Cons e es)
  then show ?case by (auto intro: less_trans)
qed simp

lemma strictly_ordered_sorted: "strictly_ordered p es \<Longrightarrow> sorted_wrt (<) (map Sequence es)"
  by (simp add: strictly_ordered_iff)

lemma strictly_ordered_pos: "strictly_ordered 0 es \<Longrightarrow> e \<in> set es \<Longrightarrow> 0 < Sequence e"
  by (simp add: strictly_ordered_iff)

lemma strictly_ordered_inj:
  assumes "strictly_ordered p es" "e \<in> set es" "e' \<in> set es" "Sequence e = Sequence e'"
  shows "e = e'"
proof -
  have "distinct (map Sequence es)"
    using assms(1) by (auto dest: strictly_ordered_sorted simp: strict_sorted_iff)
  then show ?thesis using assms(2-) by (rule distinct_map_eq)
qed

text \<open>What the planner accepts as the end of a summarised prefix.\<close>

definition in_group :: "atomic_group list \<Rightarrow> int \<Rightarrow> bool" where
  "in_group groups n \<longleftrightarrow> list_ex (\<lambda>g. StartSequence g \<le> n \<and> n < EndSequence g) groups"

definition in_source :: "retain_boundary_input \<Rightarrow> int \<Rightarrow> bool" where
  "in_source input n \<longleftrightarrow> SourceEventSequenceStart input \<le> n \<and> n < MaximumRetainFromSequence input"

lemma set_safeCompactionSourceEndsWithWitness:
  "n \<in> set (safeCompactionSourceEndsWithWitness parts es ws gs) \<longleftrightarrow>
     (\<exists>e \<in> set es. n = Sequence e \<and> compactionEventHasModelSemantics parts e
       \<and> compactionEventEndsSettledStep e (latestByTurn (\<lambda>e. EventKind e = KindModelOutput) ws)
       \<and> \<not> in_group gs n)"
  by (auto simp: safeCompactionSourceEndsWithWitness_def in_group_def)

lemma safe_ends_sorted:
  assumes "strictly_ordered p es"
  shows "sorted_wrt (<) (safeCompactionSourceEndsWithWitness parts es ws gs)"
  using strictly_ordered_sorted [OF assms]
  by (auto simp: safeCompactionSourceEndsWithWitness_def sorted_wrt_map intro: sorted_wrt_filter)

lemma safe_ends_pos:
  "strictly_ordered 0 es \<Longrightarrow> n \<in> set (safeCompactionSourceEndsWithWitness parts es ws gs) \<Longrightarrow> 0 < n"
  by (auto simp: set_safeCompactionSourceEndsWithWitness dest: strictly_ordered_pos)

section \<open>The scans\<close>

lemma boundaries_from_cases:
  assumes "boundaries_from P b cs = (x, y)"
  shows "(x = b \<or> x \<in> set cs) \<and> (y = 0 \<or> y \<in> set cs)"
  using assms by (induction P b cs rule: boundaries_from.induct) (auto split: if_splits)

lemma boundaries_from_none:
  assumes "boundaries_from P b cs = (x, y)" "\<forall>c \<in> set cs. 0 < c" "0 \<le> b" "\<not> 0 < x" "\<not> 0 < y"
  shows "cs = []"
  using assms
proof (induction P b cs rule: boundaries_from.induct)
  case (2 P b c cs)
  show ?case
  proof (cases "P c")
    case True
    with 2 have "cs = []" by auto
    with True 2 show ?thesis by auto
  next
    case False
    with 2 show ?thesis by auto
  qed
qed simp

lemma retain_scan_eq:
  "retain_scan input b ends =
     boundaries_from (\<lambda>end. end \<le> DesiredRetainFromSequence input - 1) b (filter (in_source input) ends)"
  by (induction input b ends rule: retain_scan.induct) (auto simp: in_source_def)

lemma set_completeTurnSourceEnds: "set (completeTurnSourceEnds es ws cs) \<subseteq> set cs"
  by (auto simp: completeTurnSourceEnds_def Let_def)

lemma wholeTurnRetainFrom_safe:
  "0 < wholeTurnRetainFrom input ends \<Longrightarrow>
     wholeTurnRetainFrom input ends - 1 \<in> set (filter (in_source input) ends)"
  by (auto simp: wholeTurnRetainFrom_def Let_def in_source_def list_ex_iff split: if_splits option.splits)

lemma wholeTurnBoundaryRetainFrom_safe:
  assumes "0 < wholeTurnBoundaryRetainFrom input ends"
  shows "wholeTurnBoundaryRetainFrom input ends - 1 \<in> set (filter (in_source input) ends)"
proof -
  define cs where "cs = filter (\<lambda>end. \<not> (end < SourceEventSequenceStart input
      \<or> end \<ge> MaximumRetainFromSequence input \<or> end \<ge> Sequence (last (Events input))))
    (completeTurnSourceEnds (Events input) (Events input) ends)"
  obtain x y where xy: "boundaries_from (\<lambda>end. end \<le> DesiredRetainFromSequence input - 1) 0 cs = (x, y)"
    by force
  have "set cs \<subseteq> set (filter (in_source input) ends)"
    using set_completeTurnSourceEnds by (fastforce simp: cs_def in_source_def)
  moreover have "wholeTurnBoundaryRetainFrom input ends =
      (if DesiredRetainTokens input \<le> 0 \<or> Events input = [] then 0
       else if x > 0 \<and> retainedTailFitsTarget input (x + 1) then x + 1 else if y > 0 then y + 1 else 0)"
    unfolding wholeTurnBoundaryRetainFrom_def Let_def boundariesAroundTarget_def cs_def [symmetric] xy by simp
  ultimately show ?thesis
    using boundaries_from_cases [OF xy] assms by (auto split: if_splits)
qed

text \<open>Every answer of the selection is a candidate, and it has an answer exactly when there is one.\<close>

lemma SelectRetain_candidate:
  assumes "SelectRetainFromEventSequence parts input = Inr (Some r)"
  shows "\<exists>cs. RetainFromEventSequenceCandidates parts input = Inr cs \<and> r \<in> set cs"
proof -
  define ends where "ends = safeCompactionSourceEnds parts (Events input) (AtomicGroups input)"
  obtain x y where xy: "retain_scan input 0 ends = (x, y)" by force
  have *: "(x = 0 \<or> x \<in> set (filter (in_source input) ends)) \<and> (y = 0 \<or> y \<in> set (filter (in_source input) ends))"
    using boundaries_from_cases xy by (simp only: retain_scan_eq)
  from assms have valid: "validateRetainBoundaryInput input = Inr ()"
    by (auto simp: SelectRetainFromEventSequence_def)
  have "r - 1 \<in> set (filter (in_source input) ends)"
    using assms * xy wholeTurnRetainFrom_safe [of input ends] wholeTurnBoundaryRetainFrom_safe [of input ends]
    by (auto simp: SelectRetainFromEventSequence_def valid Let_def ends_def [symmetric] split: if_splits)
  moreover have "RetainFromEventSequenceCandidates parts input = Inr (map (\<lambda>end. end + 1) (filter (in_source input) ends))"
    by (simp add: RetainFromEventSequenceCandidates_def valid ends_def in_source_def [abs_def] not_less not_le conj_commute)
  ultimately show ?thesis by force
qed

lemma SelectRetain_none:
  assumes "SelectRetainFromEventSequence parts input = Inr None"
  shows "RetainFromEventSequenceCandidates parts input = Inr []"
proof -
  define ends where "ends = safeCompactionSourceEnds parts (Events input) (AtomicGroups input)"
  obtain x y where xy: "retain_scan input 0 ends = (x, y)" by force
  from assms have valid: "validateRetainBoundaryInput input = Inr ()"
    by (auto simp: SelectRetainFromEventSequence_def)
  then have "strictly_ordered 0 (Events input)"
    by (auto simp: validateRetainBoundaryInput_def split: if_splits)
  then have pos: "\<forall>n \<in> set (filter (in_source input) ends). 0 < n"
    by (auto simp: ends_def safeCompactionSourceEnds_def dest: safe_ends_pos)
  have "\<not> 0 < x" "\<not> 0 < y"
    using assms xy by (auto simp: SelectRetainFromEventSequence_def valid Let_def ends_def [symmetric] split: if_splits)
  with boundaries_from_none pos xy have "filter (in_source input) ends = []"
    by (simp only: retain_scan_eq) blast
  then show ?thesis
    by (simp add: RetainFromEventSequenceCandidates_def valid ends_def [symmetric] in_source_def [abs_def]
        not_less not_le conj_commute)
qed

section \<open>Checkpoint plans\<close>

lemma PlanCheckpointE:
  assumes "PlanCheckpoint input = Inr (Some plan)"
  obtains "EventSequenceStart plan = wrap64 (SummarizedThroughEventSequence input + 1)"
    "EventSequenceEnd plan = RetainFromEventSequence input - 1"
    "EventSequenceStart plan \<le> EventSequenceEnd plan" "EventSequenceEnd plan \<le> InputEventSequence input"
    "CheckpointInputEventSequence plan = InputEventSequence input"
    "\<And>g. g \<in> set (PlanAtomicGroups input) \<Longrightarrow>
       (EventSequenceStart plan \<le> StartSequence g \<and> EndSequence g \<le> EventSequenceEnd plan)
       \<or> EventSequenceEnd plan < StartSequence g \<or> EndSequence g < EventSequenceStart plan"
  using assms
  by (fastforce simp: PlanCheckpoint_def Let_def checkE_Inr rangesOverlap_def not_le split: if_splits)

end
