(* ===== verification/Compaction_Source.thy ===== *)
theory Compaction_Source
  imports Compaction_Planner
begin

text \<open>
  How compaction reads its source: the two queries of the execution store
  (\<open>src/internal/storage/executionstore/events_store.go\<close> with the SQL in \<open>dbsqlc/events.sql.go\<close>), the
  paging loops over them, and the window of events and atomic groups a compaction run decides on
  (\<open>src/internal/compaction/runner_candidate.go\<close>).

  The store holds, per project and agent, the event rows as the query projects them and the tool
  calls joined with the sequence of their result event.  Driver failures are outside the model; what
  the code rejects itself is an error value.
\<close>

datatype compaction_error =
    ErrStoreOwnerRequired
  | ErrStoreSequenceRequired
  | ErrRangeNotClosed int int
  | ErrRangeMissing int
  | ErrCandidatesMismatch
  | ErrPlanner planner_error
  | ErrExternal string

record call_row =
  CallSequence :: int
  ResultSequence :: "int option"

record compaction_store =
  StoreEvents :: "uuid \<Rightarrow> uuid \<Rightarrow> source_event list"
  StoreCalls :: "uuid \<Rightarrow> uuid \<Rightarrow> call_row list"

section \<open>Queries\<close>

definition ListCompactionSourceEvents ::
    "compaction_store \<Rightarrow> uuid \<Rightarrow> uuid \<Rightarrow> int \<Rightarrow> int \<Rightarrow> compaction_error + source_event list" where
  "ListCompactionSourceEvents store projectID agentID afterSequence limit =
     (if projectID = uuid_nil \<or> agentID = uuid_nil then Inl ErrStoreOwnerRequired
      else
        let limit = (if limit \<le> 0 \<or> limit > 500 then 100 else limit)
        in Inr (take (nat limit) (sort_key Sequence
             (filter (\<lambda>event. Sequence event > afterSequence) (StoreEvents store projectID agentID)))))"

text \<open>One group per event that made tool calls: up to its last result, or past the frontier while one is missing.\<close>

definition call_group :: "int \<Rightarrow> call_row list \<Rightarrow> int \<Rightarrow> atomic_group" where
  "call_group inputEventSequence rows start =
     (let results = map ResultSequence (filter (\<lambda>row. CallSequence row = start) rows)
      in \<lparr>GroupKind = ''tool_call_result'', StartSequence = start,
          EndSequence = (if None \<in> set results then inputEventSequence + 1
            else Max (set (map the results)))\<rparr>)"

definition call_groups :: "call_row list \<Rightarrow> int \<Rightarrow> int \<Rightarrow> atomic_group list" where
  "call_groups calls lastCheckpointEnd inputEventSequence =
     (let rows = filter (\<lambda>row. CallSequence row \<le> inputEventSequence
            \<and> (case ResultSequence row of None \<Rightarrow> True | Some result \<Rightarrow> result > lastCheckpointEnd)) calls
      in filter (\<lambda>group. EndSequence group > StartSequence group)
           (map (call_group inputEventSequence rows) (remdups (map CallSequence rows))))"

definition opening_groups :: "source_event list \<Rightarrow> int \<Rightarrow> int \<Rightarrow> atomic_group list" where
  "opening_groups events lastCheckpointEnd inputEventSequence =
     (let openings = filter (\<lambda>event. IsOpeningEvent event \<and> Sequence event \<le> inputEventSequence) events;
          turns = remdups (map TurnID openings);
          ofTurn = (\<lambda>turn. map Sequence (filter (\<lambda>event. TurnID event = turn) openings))
      in map (\<lambda>turn. \<lparr>GroupKind = ''turn_opening'', StartSequence = Min (set (ofTurn turn)),
             EndSequence = Max (set (ofTurn turn))\<rparr>)
           (filter (\<lambda>turn. length (ofTurn turn) > 1 \<and> Max (set (ofTurn turn)) > lastCheckpointEnd) turns))"

text \<open>Both sorts are stable, and the first part of the union has the smaller kind.\<close>

definition ListCompactionAtomicGroups ::
    "compaction_store \<Rightarrow> uuid \<Rightarrow> uuid \<Rightarrow> int \<Rightarrow> int \<Rightarrow> compaction_error + atomic_group_record list" where
  "ListCompactionAtomicGroups store projectID agentID lastCheckpointEnd inputEventSequence =
     (if projectID = uuid_nil \<or> agentID = uuid_nil then Inl ErrStoreOwnerRequired
      else if inputEventSequence \<le> 0 then Inl ErrStoreSequenceRequired
      else Inr (sort_key StartSequence (sort_key EndSequence
        (call_groups (StoreCalls store projectID agentID) lastCheckpointEnd inputEventSequence
         @ opening_groups (StoreEvents store projectID agentID) lastCheckpointEnd inputEventSequence))))"

section \<open>Paging\<close>

text \<open>
  The loop every reader of the log is written with: fetch pages of 500 events after the last one
  seen while that one is before \<open>stop\<close>, and leave on an empty or short page.  \<open>step\<close> is the body
  of the inner loop over one page: \<open>Inl\<close> leaves both loops with a result, \<open>Inr\<close> goes on.
\<close>

fun page_fold :: "(source_event \<Rightarrow> 's \<Rightarrow> 'r + 's) \<Rightarrow> source_event list \<Rightarrow> 's \<Rightarrow> 'r + 's" where
  "page_fold step [] st = Inr st"
| "page_fold step (event # events) st =
     (case step event st of Inl r \<Rightarrow> Inl r | Inr st' \<Rightarrow> page_fold step events st')"

function scan_pages ::
    "compaction_store \<Rightarrow> uuid \<Rightarrow> uuid \<Rightarrow> int \<Rightarrow> (source_event \<Rightarrow> 's \<Rightarrow> 'r + 's) \<Rightarrow> ('s \<Rightarrow> 'r) \<Rightarrow> int \<Rightarrow> 's
       \<Rightarrow> compaction_error + 'r" where
  "scan_pages store projectID agentID stop step finish after st =
     (if after < stop then
        (case ListCompactionSourceEvents store projectID agentID after 500 of
           Inl err \<Rightarrow> Inl err
         | Inr page \<Rightarrow>
             if page = [] then Inr (finish st)
             else (case page_fold step page st of
                 Inl r \<Rightarrow> Inr r
               | Inr st' \<Rightarrow>
                   if length page < 500 then Inr (finish st')
                   else scan_pages store projectID agentID stop step finish (Sequence (last page)) st'))
      else Inr (finish st))"
  by pat_completeness auto

lemma ListCompactionSourceEvents_after:
  "ListCompactionSourceEvents store p a after limit = Inr page \<Longrightarrow> e \<in> set page \<Longrightarrow> after < Sequence e"
  by (auto simp: ListCompactionSourceEvents_def Let_def dest!: in_set_takeD split: if_splits)

termination scan_pages
proof (relation "measure (\<lambda>(store, projectID, agentID, stop, step, finish, after, st). nat (stop - after))")
  fix store :: compaction_store and projectID agentID :: uuid and stop after :: int and page
  assume "after < stop" "ListCompactionSourceEvents store projectID agentID after 500 = Inr page" "page \<noteq> []"
  then have "after < Sequence (last page)"
    by (intro ListCompactionSourceEvents_after) auto
  with \<open>after < stop\<close> show "((store, projectID, agentID, stop, step, finish, Sequence (last page), st'),
      store, projectID, agentID, stop, step, finish, after, st)
    \<in> measure (\<lambda>(store, projectID, agentID, stop, step, finish, after, st). nat (stop - after))" for step finish st st'
    by simp
qed simp

declare scan_pages.simps [simp del]

definition loadContextEventsForCompaction ::
    "compaction_store \<Rightarrow> uuid \<Rightarrow> uuid \<Rightarrow> int \<Rightarrow> int \<Rightarrow> compaction_error + source_event list" where
  "loadContextEventsForCompaction store projectID agentID afterSequence watermark =
     scan_pages store projectID agentID watermark
       (\<lambda>event records. if Sequence event > watermark then Inl records else Inr (records @ [event]))
       (\<lambda>records. records) afterSequence []"

fun sequence_gap :: "int \<Rightarrow> source_event list \<Rightarrow> int option" where
  "sequence_gap wantSequence [] = None"
| "sequence_gap wantSequence (event # events) =
     (if Sequence event \<noteq> wantSequence then Some wantSequence else sequence_gap (wantSequence + 1) events)"

definition loadClosedEventRange ::
    "compaction_store \<Rightarrow> checkpoint_plan \<Rightarrow> compaction_error + source_event list" where
  "loadClosedEventRange store plan =
     bindE (scan_pages store (CheckpointProjectID plan) (CheckpointAgentID plan) (EventSequenceEnd plan)
         (\<lambda>event out. if Sequence event > EventSequenceEnd plan then Inl out else Inr (out @ [event]))
         (\<lambda>out. out) (EventSequenceStart plan - 1) []) (\<lambda>out.
       if int (length out) \<noteq> EventSequenceEnd plan - EventSequenceStart plan + 1
       then Inl (ErrRangeNotClosed (EventSequenceStart plan) (EventSequenceEnd plan))
       else case sequence_gap (EventSequenceStart plan) out of
              Some wantSequence \<Rightarrow> Inl (ErrRangeMissing wantSequence)
            | None \<Rightarrow> Inr out)"

definition openingEventsRequireVerbatimRetention ::
    "compaction_store \<Rightarrow> checkpoint_plan \<Rightarrow> int \<Rightarrow> compaction_error + bool" where
  "openingEventsRequireVerbatimRetention store plan openingEventSequence =
     scan_pages store (CheckpointProjectID plan) (CheckpointAgentID plan) (CheckpointInputEventSequence plan)
       (\<lambda>event _. if Sequence event > CheckpointInputEventSequence plan then Inl True
          else if EventKind event = KindModelOutput then Inl False else Inr ())
       (\<lambda>_. True) openingEventSequence ()"

definition hasRemainingSemanticSource ::
    "part_counter \<Rightarrow> compaction_store \<Rightarrow> checkpoint_plan \<Rightarrow> int \<Rightarrow> bool \<Rightarrow> compaction_error + bool" where
  "hasRemainingSemanticSource parts store plan openingEventSequence protectOpening =
     scan_pages store (CheckpointProjectID plan) (CheckpointAgentID plan) (CheckpointInputEventSequence plan)
       (\<lambda>event _. if Sequence event > CheckpointInputEventSequence plan then Inl False
          else if protectOpening \<and> Sequence event \<ge> openingEventSequence then Inr ()
          else if compactionEventHasModelSemantics parts event then Inl True else Inr ())
       (\<lambda>_. False) (EventSequenceEnd plan) ()"

section \<open>The boundary window\<close>

record boundary_window =
  SourceEvents :: "source_event list"
  WitnessEvents :: "source_event list"
  WindowGroups :: "atomic_group_record list"

definition compactionSourceNeedsLaterModelWitness :: "part_counter \<Rightarrow> source_event list \<Rightarrow> bool" where
  "compactionSourceNeedsLaterModelWitness parts events =
     (let latestModelOutputByTurn = latestByTurn (\<lambda>event. EventKind event = KindModelOutput) events
      in list_ex (\<lambda>event. EventKind event = KindAgentInput \<and> compactionEventHasModelSemantics parts event
           \<and> lookup_seq latestModelOutputByTurn (TurnID event) \<le> Sequence event) events)"

definition loadCompactionBoundaryWindow ::
    "part_counter \<Rightarrow> compaction_store \<Rightarrow> checkpoint_plan \<Rightarrow> compaction_error + boundary_window" where
  "loadCompactionBoundaryWindow parts store plan =
     bindE (loadClosedEventRange store plan) (\<lambda>sourceEvents.
     bindE (if EventSequenceEnd plan < CheckpointInputEventSequence plan
               \<and> compactionSourceNeedsLaterModelWitness parts sourceEvents
            then loadClosedEventRange store (plan\<lparr>EventSequenceEnd := CheckpointInputEventSequence plan\<rparr>)
            else Inr sourceEvents) (\<lambda>witnessEvents.
     bindE (ListCompactionAtomicGroups store (CheckpointProjectID plan) (CheckpointAgentID plan)
             (EventSequenceStart plan - 1) (EventSequenceEnd plan)) (\<lambda>atomicGroups.
     Inr \<lparr>SourceEvents = sourceEvents, WitnessEvents = witnessEvents, WindowGroups = atomicGroups\<rparr>)))"

definition window_safe_ends :: "part_counter \<Rightarrow> boundary_window \<Rightarrow> int list" where
  "window_safe_ends parts window =
     safeCompactionSourceEndsWithWitness parts (SourceEvents window) (WitnessEvents window)
       (atomicGroupsFromRecords (WindowGroups window))"

section \<open>What the loops compute\<close>

definition log_ok :: "compaction_store \<Rightarrow> uuid \<Rightarrow> uuid \<Rightarrow> bool" where
  "log_ok store p a \<longleftrightarrow> p \<noteq> uuid_nil \<and> a \<noteq> uuid_nil \<and> strictly_ordered 0 (StoreEvents store p a)"

abbreviation events_after :: "compaction_store \<Rightarrow> uuid \<Rightarrow> uuid \<Rightarrow> int \<Rightarrow> source_event list" where
  "events_after store p a n \<equiv> filter (\<lambda>e. n < Sequence e) (StoreEvents store p a)"

lemma sort_key_ordered: "sorted_wrt (<) (map f xs) \<Longrightarrow> sort_key (f :: _ \<Rightarrow> int) xs = xs"
  by (intro sort_key_id_if_sorted) (simp add: strict_sorted_iff)

lemma ordered_filter: "sorted_wrt (<) (map f xs) \<Longrightarrow> sorted_wrt (<) (map (f :: _ \<Rightarrow> int) (filter P xs))"
  by (simp add: sorted_wrt_map sorted_wrt_filter)

lemma log_ok_ordered: "log_ok store p a \<Longrightarrow> sorted_wrt (<) (map Sequence (StoreEvents store p a))"
  by (auto simp: log_ok_def dest: strictly_ordered_sorted)

lemma ListCompactionSourceEvents_page:
  assumes "log_ok store p a"
  shows "ListCompactionSourceEvents store p a after 500 = Inr (take 500 (events_after store p a after))"
  using assms ordered_filter [OF log_ok_ordered [OF assms]]
  by (simp add: ListCompactionSourceEvents_def log_ok_def sort_key_ordered)

lemma ordered_filter_take:
  assumes "sorted_wrt (<) (map f xs)" "take n (filter (\<lambda>x. k < f x) xs) = page" "page \<noteq> []"
  shows "filter (\<lambda>x. (f (last page) :: int) < f x) xs = drop n (filter (\<lambda>x. k < f x) xs)"
proof -
  let ?ys = "filter (\<lambda>x. k < f x) xs"
  have k: "k < f (last page)"
    using last_in_set [OF assms(3)] assms(2) by (auto dest: in_set_takeD)
  have "filter (\<lambda>x. f (last page) < f x) xs = filter (\<lambda>x. f (last page) < f x) ?ys"
    using k by (auto intro: filter_cong)
  also have "\<dots> = filter (\<lambda>x. f (last page) < f x) (page @ drop n ?ys)"
    by (metis assms(2) append_take_drop_id)
  also have "\<dots> = drop n ?ys"
  proof -
    have *: "sorted_wrt (<) (map f page @ map f (drop n ?ys))"
      using ordered_filter [OF assms(1), of "\<lambda>x. k < f x"] assms(2) by (metis append_take_drop_id map_append)
    then have gt: "\<forall>x \<in> set (drop n ?ys). f (last page) < f x"
      using last_in_set [OF assms(3)] by (auto simp: sorted_wrt_append)
    from * have "sorted (map f page)" by (simp add: sorted_wrt_append strict_sorted_iff)
    then have "\<forall>x \<in> set page. f x \<le> f (last page)"
      using assms(3) by (auto simp: last_conv_nth in_set_conv_nth sorted_iff_nth_mono)
    with gt have "(\<forall>x \<in> set page. \<not> f (last page) < f x) \<and> (\<forall>x \<in> set (drop n ?ys). f (last page) < f x)"
      by (simp add: not_less)
    then show ?thesis by simp
  qed
  finally show ?thesis .
qed

lemma page_fold_append:
  "page_fold step (xs @ ys) st =
     (case page_fold step xs st of Inl r \<Rightarrow> Inl r | Inr st' \<Rightarrow> page_fold step ys st')"
  by (induction xs arbitrary: st) (auto split: sum.splits)

text \<open>Paging reads the log after \<open>after\<close> as one list would be read, as long as the body leaves at \<open>stop\<close>.\<close>

lemma scan_pages_eq:
  assumes ok: "log_ok store p a" and stop: "\<And>e s. stop < Sequence e \<Longrightarrow> step e s = Inl (finish s)"
  shows "scan_pages store p a stop step finish after st =
    Inr (case page_fold step (events_after store p a after) st of Inl r \<Rightarrow> r | Inr s \<Rightarrow> finish s)"
  using assms
proof (induction store p a stop step finish after st rule: scan_pages.induct)
  case (1 store p a stop step finish after st)
  let ?L = "events_after store p a after"
  note page = ListCompactionSourceEvents_page [OF "1.prems"(1), of after]
  show ?case
  proof (cases "after < stop")
    case False
    then have "page_fold step ?L st = (if ?L = [] then Inr st else Inl (finish st))"
      using "1.prems"(2) by (cases ?L) (auto simp: filter_eq_Cons_iff)
    with False show ?thesis by (simp add: scan_pages.simps [of store p a stop] split: if_splits)
  next
    case True
    show ?thesis
    proof (cases "?L = []")
      case True
      then show ?thesis by (simp add: scan_pages.simps [of store p a stop] page)
    next
      case False
      have split: "page_fold step ?L st = (case page_fold step (take 500 ?L) st of
          Inl r \<Rightarrow> Inl r | Inr s \<Rightarrow> page_fold step (drop 500 ?L) s)"
        by (metis append_take_drop_id page_fold_append)
      have rest: "drop 500 ?L = events_after store p a (Sequence (last (take 500 ?L)))"
        using False by (intro ordered_filter_take [OF log_ok_ordered [OF "1.prems"(1)] refl, symmetric]) simp
      have IH: "scan_pages store p a stop step finish (Sequence (last (take 500 ?L))) s =
          Inr (case page_fold step (drop 500 ?L) s of Inl r \<Rightarrow> r | Inr s \<Rightarrow> finish s)"
        if "page_fold step (take 500 ?L) st = Inr s" "\<not> length (take 500 ?L) < 500" for s
        unfolding rest using "1.IH" [OF \<open>after < stop\<close> page _ that] False "1.prems" by simp
      show ?thesis
        using True False IH
        by (auto simp: scan_pages.simps [of store p a stop] page split split: sum.splits)
    qed
  qed
qed

lemma ordered_takeWhile:
  "sorted_wrt (<) (map f xs) \<Longrightarrow> takeWhile (\<lambda>x. f x \<le> (w :: int)) xs = filter (\<lambda>x. f x \<le> w) xs"
proof (induction xs)
  case (Cons x xs)
  then have "\<not> f x \<le> w \<Longrightarrow> filter (\<lambda>x. f x \<le> w) xs = []" by (auto simp: filter_empty_conv)
  with Cons show ?case by simp
qed simp

lemma page_fold_collect:
  "(case page_fold (\<lambda>e r. if w < Sequence e then Inl r else Inr (r @ [e])) es acc of Inl r \<Rightarrow> r | Inr r \<Rightarrow> r)
     = acc @ takeWhile (\<lambda>e. Sequence e \<le> w) es"
  by (induction es arbitrary: acc) auto

lemma page_fold_absent:
  "(case page_fold (\<lambda>e u. if w < Sequence e then Inl True else if hit e then Inl False else Inr ()) es ()
     of Inl r \<Rightarrow> r | Inr u \<Rightarrow> True) \<longleftrightarrow> \<not> (\<exists>e \<in> set (takeWhile (\<lambda>e. Sequence e \<le> w) es). hit e)"
  by (induction es) auto

lemma page_fold_present:
  "(case page_fold (\<lambda>e u. if w < Sequence e then Inl False else if skip e then Inr () else if hit e then Inl True else Inr ())
       es () of Inl r \<Rightarrow> r | Inr u \<Rightarrow> False)
     \<longleftrightarrow> (\<exists>e \<in> set (takeWhile (\<lambda>e. Sequence e \<le> w) es). \<not> skip e \<and> hit e)"
  by (induction es) auto

abbreviation events_between :: "compaction_store \<Rightarrow> uuid \<Rightarrow> uuid \<Rightarrow> int \<Rightarrow> int \<Rightarrow> source_event list" where
  "events_between store p a n w \<equiv> filter (\<lambda>e. n < Sequence e \<and> Sequence e \<le> w) (StoreEvents store p a)"

lemma takeWhile_events_after:
  assumes "log_ok store p a"
  shows "takeWhile (\<lambda>e. Sequence e \<le> w) (events_after store p a n) = events_between store p a n w"
  using ordered_takeWhile [OF ordered_filter [OF log_ok_ordered [OF assms]]] by (simp add: conj_commute)

lemma loadContextEventsForCompaction_eq:
  assumes "log_ok store p a"
  shows "loadContextEventsForCompaction store p a n w = Inr (events_between store p a n w)"
  unfolding loadContextEventsForCompaction_def
  by (subst scan_pages_eq [OF assms]) (simp_all add: page_fold_collect takeWhile_events_after [OF assms])

lemma openingEventsRequireVerbatimRetention_eq:
  assumes "log_ok store (CheckpointProjectID plan) (CheckpointAgentID plan)"
  shows "openingEventsRequireVerbatimRetention store plan n =
    Inr (\<not> (\<exists>e \<in> set (events_between store (CheckpointProjectID plan) (CheckpointAgentID plan) n
      (CheckpointInputEventSequence plan)). EventKind e = KindModelOutput))"
  unfolding openingEventsRequireVerbatimRetention_def
  by (subst scan_pages_eq [OF assms]) (simp_all add: page_fold_absent takeWhile_events_after [OF assms])

lemma hasRemainingSemanticSource_eq:
  assumes "log_ok store (CheckpointProjectID plan) (CheckpointAgentID plan)"
  shows "hasRemainingSemanticSource parts store plan n protect =
    Inr (\<exists>e \<in> set (events_between store (CheckpointProjectID plan) (CheckpointAgentID plan)
        (EventSequenceEnd plan) (CheckpointInputEventSequence plan)).
      \<not> (protect \<and> n \<le> Sequence e) \<and> compactionEventHasModelSemantics parts e)"
  unfolding hasRemainingSemanticSource_def
  by (subst scan_pages_eq [OF assms]) (simp_all add: page_fold_present [of _ "\<lambda>e. protect \<and> n \<le> Sequence e"] takeWhile_events_after [OF assms])

lemma sequence_gap_None: "sequence_gap n es = None \<longleftrightarrow> map Sequence es = [n .. n + int (length es) - 1]"
proof (induction n es rule: sequence_gap.induct)
  case (2 n e es)
  then show ?case by (auto simp: upto_rec1 [of n] algebra_simps)
qed simp

lemma loadClosedEventRange_eq:
  assumes ok: "log_ok store (CheckpointProjectID plan) (CheckpointAgentID plan)"
    and range: "EventSequenceStart plan \<le> EventSequenceEnd plan"
  defines "out \<equiv> events_between store (CheckpointProjectID plan) (CheckpointAgentID plan)
    (EventSequenceStart plan - 1) (EventSequenceEnd plan)"
  shows "loadClosedEventRange store plan = Inr es \<longleftrightarrow>
    es = out \<and> map Sequence out = [EventSequenceStart plan .. EventSequenceEnd plan]"
proof -
  have scan: "loadClosedEventRange store plan =
    (if int (length out) \<noteq> EventSequenceEnd plan - EventSequenceStart plan + 1
       then Inl (ErrRangeNotClosed (EventSequenceStart plan) (EventSequenceEnd plan))
       else case sequence_gap (EventSequenceStart plan) out of
              Some n \<Rightarrow> Inl (ErrRangeMissing n) | None \<Rightarrow> Inr out)"
    unfolding loadClosedEventRange_def out_def
    by (subst scan_pages_eq [OF ok]) (simp_all add: page_fold_collect takeWhile_events_after [OF ok])
  have "int (length out) = EventSequenceEnd plan - EventSequenceStart plan + 1"
    if "map Sequence out = [EventSequenceStart plan .. EventSequenceEnd plan]"
    using arg_cong [OF that, of length] range by simp
  moreover have "sequence_gap (EventSequenceStart plan) out = None \<longleftrightarrow>
      map Sequence out = [EventSequenceStart plan .. EventSequenceEnd plan]"
    if "int (length out) = EventSequenceEnd plan - EventSequenceStart plan + 1"
    by (simp add: sequence_gap_None that)
  ultimately show ?thesis
    unfolding scan by (auto split: option.split)
qed

end
