(* ===== verification/Compaction_Kernel.thy ===== *)
theory Compaction_Kernel
  imports Compaction_Source
begin

text \<open>
  The decisions of a compaction on top of the planner and the window: the plan for a model call
  context (\<open>src/internal/harness/kernel/agent_executor_compaction.go\<close>), the choice of the prefix one
  summary request can hold, and the smaller prefix after a truncated summary
  (\<open>src/internal/compaction/runner_candidate.go\<close>).

  Building a model request and estimating its tokens goes through the context builder and the
  provider client.  Here it is an argument: of a retained boundary it says whether the projected
  context fits, of a prefix of events and an output allowance it gives the estimated and the usable
  input tokens.  No law is assumed of it in the definitions.
\<close>

section \<open>The plan of a model call context\<close>

fun recent_tail :: "int \<Rightarrow> int \<Rightarrow> int \<Rightarrow> source_event list \<Rightarrow> int" where
  "recent_tail target tokens retainFrom [] = retainFrom"
| "recent_tail target tokens retainFrom (event # events) =
     (if tokens + EstimateSourceEventTokens event \<ge> target then Sequence event
      else recent_tail target (tokens + EstimateSourceEventTokens event) (Sequence event) events)"

definition retainFromForRecentEvents :: "source_event list \<Rightarrow> int \<Rightarrow> int" where
  "retainFromForRecentEvents events recentTailTargetTokens =
     (if events = [] then 0
      else if recentTailTargetTokens \<le> 0 then Sequence (last events)
      else recent_tail recentTailTargetTokens 0 (Sequence (last events)) (rev events))"

definition modelCallOpeningRequiresVerbatimRetention :: "source_event list \<Rightarrow> int \<Rightarrow> int \<Rightarrow> bool" where
  "modelCallOpeningRequiresVerbatimRetention events summarizedThrough openingEventSequence =
     (if openingEventSequence \<le> summarizedThrough then False
      else OpeningEventsRequireVerbatimRetention events openingEventSequence)"

text \<open>\<open>sort.Search\<close>: the smallest index at which a monotone predicate holds, by halving.\<close>

function sort_Search_loop :: "(nat \<Rightarrow> bool) \<Rightarrow> nat \<Rightarrow> nat \<Rightarrow> nat" where
  "sort_Search_loop f i j =
     (if i < j then
        let h = (i + j) div 2
        in if \<not> f h then sort_Search_loop f (h + 1) j else sort_Search_loop f i h
      else i)"
  by pat_completeness auto
termination by (relation "measure (\<lambda>(f, i, j). j - i)") auto

definition sort_Search :: "nat \<Rightarrow> (nat \<Rightarrow> bool) \<Rightarrow> nat" where
  "sort_Search n f = sort_Search_loop f 0 n"

function first_fit :: "(int \<Rightarrow> 'e + bool) \<Rightarrow> int list \<Rightarrow> int \<Rightarrow> int \<Rightarrow> int \<Rightarrow> 'e + int" where
  "first_fit fits candidates low high best =
     (if low \<le> high then
        let mid = low + (high - low) div 2
        in case fits (candidates ! nat mid) of
             Inl err \<Rightarrow> Inl err
           | Inr ok \<Rightarrow> if ok then first_fit fits candidates low (mid - 1) mid
                       else first_fit fits candidates (mid + 1) high best
      else Inr best)"
  by pat_completeness auto
termination by (relation "measure (\<lambda>(f, cs, low, high, best). nat (high + 1 - low))") auto

definition firstFittingRetainFrom :: "int list \<Rightarrow> int \<Rightarrow> (int \<Rightarrow> 'e + bool) \<Rightarrow> 'e + int option" where
  "firstFittingRetainFrom candidates desired fits =
     (let low = int (sort_Search (length candidates) (\<lambda>index. candidates ! index \<ge> desired));
          high = int (length candidates) - 1
      in bindE (first_fit fits candidates low high (-1)) (\<lambda>best.
           if best < 0 then Inr None else Inr (Some (candidates ! nat best))))"

definition clampRetainFromToModelBudget ::
    "part_counter \<Rightarrow> retain_boundary_input \<Rightarrow> (int \<Rightarrow> compaction_error + bool) \<Rightarrow> compaction_error + int option" where
  "clampRetainFromToModelBudget parts boundaryInput fits =
     (case RetainFromEventSequenceCandidates parts boundaryInput of
        Inl err \<Rightarrow> Inl (ErrPlanner err)
      | Inr candidates \<Rightarrow> firstFittingRetainFrom candidates (DesiredRetainFromSequence boundaryInput) fits)"

record context_row =
  ContextProjectID :: uuid
  ContextAgentID :: uuid
  ContextInputEventSequence :: int

text \<open>
  \<open>checkpoint\<close> is the frontier and the summary of the latest applicable checkpoint, \<open>usableInputTokens\<close>
  the tokens the model accepts under the call's request policy, and \<open>fits summary boundary\<close> tells whether
  the context with that summary and the events from that boundary on fits the model.
\<close>

definition frontier_of :: "(int \<times> string) option \<Rightarrow> int" where
  "frontier_of checkpoint = (case checkpoint of None \<Rightarrow> 0 | Some (n, _) \<Rightarrow> n)"

definition projection_summary :: "(int \<times> string) option \<Rightarrow> string" where
  "projection_summary checkpoint =
     (case checkpoint of
        None \<Rightarrow> ''[Earlier conversation compacted.]''
      | Some (_, summary) \<Rightarrow> summary @ [CHR 0x0A, CHR 0x0A] @ ''[Additional closed history compacted.]'')"

definition context_boundary_input ::
    "int \<Rightarrow> int \<Rightarrow> int \<Rightarrow> int \<Rightarrow> source_event list \<Rightarrow> atomic_group list \<Rightarrow> retain_boundary_input" where
  "context_boundary_input usableInputTokens openingEventSequence summarizedThrough frontier events atomicGroups =
     (let recentTailTargetTokens = RecentTailTargetTokens usableInputTokens;
          retainFrom = retainFromForRecentEvents events recentTailTargetTokens;
          verbatim = modelCallOpeningRequiresVerbatimRetention events summarizedThrough openingEventSequence
      in \<lparr>SourceEventSequenceStart = summarizedThrough + 1,
          DesiredRetainFromSequence =
            (if verbatim \<and> retainFrom > openingEventSequence then openingEventSequence else retainFrom),
          DesiredRetainTokens = recentTailTargetTokens,
          MaximumRetainFromSequence = (if verbatim then openingEventSequence else frontier + 1),
          Events = events, AtomicGroups = atomicGroups\<rparr>)"

text \<open>From the boundary input on: select, clamp to the model's budget, and plan.\<close>

definition plan_from_boundary ::
    "part_counter \<Rightarrow> (int \<times> string) option \<Rightarrow> (string \<Rightarrow> int \<Rightarrow> compaction_error + bool) \<Rightarrow> context_row
       \<Rightarrow> retain_boundary_input \<Rightarrow> compaction_error + checkpoint_plan option" where
  "plan_from_boundary parts checkpoint fits contextRow boundaryInput =
     (case SelectRetainFromEventSequence parts boundaryInput of
        Inl err \<Rightarrow> Inl (ErrPlanner err)
      | Inr None \<Rightarrow> Inr None
      | Inr (Some retainFrom) \<Rightarrow>
          bindE (clampRetainFromToModelBudget parts (boundaryInput\<lparr>DesiredRetainFromSequence := retainFrom\<rparr>)
              (fits (projection_summary checkpoint))) (\<lambda>clamped.
            case clamped of
              None \<Rightarrow> Inr None
            | Some retainFrom \<Rightarrow>
                (case PlanCheckpoint \<lparr>PlanProjectID = ContextProjectID contextRow,
                     PlanAgentID = ContextAgentID contextRow,
                     InputEventSequence = ContextInputEventSequence contextRow,
                     SummarizedThroughEventSequence = frontier_of checkpoint,
                     RetainFromEventSequence = retainFrom, PlanAtomicGroups = AtomicGroups boundaryInput\<rparr> of
                   Inl err \<Rightarrow> Inl (ErrPlanner err)
                 | Inr plan \<Rightarrow> Inr plan)))"

definition planCompactionForContext ::
    "part_counter \<Rightarrow> compaction_store \<Rightarrow> (int \<times> string) option \<Rightarrow> int \<Rightarrow> (string \<Rightarrow> int \<Rightarrow> compaction_error + bool)
       \<Rightarrow> context_row \<Rightarrow> int \<Rightarrow> compaction_error + checkpoint_plan option" where
  "planCompactionForContext parts store checkpoint usableInputTokens fits contextRow openingEventSequence =
     (let frontier = ContextInputEventSequence contextRow;
          summarizedThrough = frontier_of checkpoint
      in if frontier \<le> summarizedThrough + 1 then Inr None
         else
           bindE (ListCompactionAtomicGroups store (ContextProjectID contextRow) (ContextAgentID contextRow)
             summarizedThrough frontier) (\<lambda>groups.
           bindE (loadContextEventsForCompaction store (ContextProjectID contextRow) (ContextAgentID contextRow)
             summarizedThrough frontier) (\<lambda>events.
           if length events < 2 then Inr None
           else plan_from_boundary parts checkpoint fits contextRow
             (context_boundary_input usableInputTokens openingEventSequence summarizedThrough frontier events
               (atomicGroupsFromRecords groups)))))"

section \<open>The summary request\<close>

record input_budget =
  EstimatedInputTokens :: int
  UsableInputTokens :: int

definition Fits :: "input_budget \<Rightarrow> bool" where
  "Fits a \<longleftrightarrow> EstimatedInputTokens a > 0 \<and> EstimatedInputTokens a \<le> UsableInputTokens a"

definition OverBudget :: "input_budget \<Rightarrow> bool" where
  "OverBudget a \<longleftrightarrow> \<not> Fits a"

record prepared_request =
  SourceEnd :: int
  InputBudget :: input_budget

definition no_request :: prepared_request where
  "no_request = \<lparr>SourceEnd = 0, InputBudget = \<lparr>EstimatedInputTokens = 0, UsableInputTokens = 0\<rparr>\<rparr>"

type_synonym request_estimate = "source_event list \<Rightarrow> int \<Rightarrow> compaction_error + input_budget"

definition prepareCandidate ::
    "request_estimate \<Rightarrow> source_event list \<Rightarrow> int \<Rightarrow> int \<Rightarrow> int \<Rightarrow> compaction_error + prepared_request" where
  "prepareCandidate estimate events start end' maxOutputTokens =
     (let count = (end' - start) + 1
      in if count \<le> 0 \<or> count > int (length events) then Inl ErrCandidatesMismatch
         else bindE (estimate (take (nat count) events) maxOutputTokens) (\<lambda>budget.
           Inr \<lparr>SourceEnd = end', InputBudget = budget\<rparr>))"

function last_fit ::
    "(int \<Rightarrow> compaction_error + prepared_request) \<Rightarrow> int list \<Rightarrow> int \<Rightarrow> int \<Rightarrow> prepared_request
       \<Rightarrow> compaction_error + prepared_request" where
  "last_fit prepare candidates low high bestRequest =
     (if low \<le> high then
        let mid = low + (high - low) div 2
        in case prepare (candidates ! nat mid) of
             Inl err \<Rightarrow> Inl err
           | Inr candidate \<Rightarrow>
               if OverBudget (InputBudget candidate) then last_fit prepare candidates low (mid - 1) bestRequest
               else last_fit prepare candidates (mid + 1) high candidate
      else Inr bestRequest)"
  by pat_completeness auto
termination by (relation "measure (\<lambda>(f, cs, low, high, best). nat (high + 1 - low))") auto

text \<open>A target past the best fit may still go out with a smaller output allowance.\<close>

fun fit_targets ::
    "(int \<Rightarrow> int \<Rightarrow> compaction_error + prepared_request) \<Rightarrow> int \<Rightarrow> int \<Rightarrow> prepared_request \<Rightarrow> int list
       \<Rightarrow> compaction_error + prepared_request" where
  "fit_targets prepare maxOutputTokens minimum bestRequest [] = Inr bestRequest"
| "fit_targets prepare maxOutputTokens minimum bestRequest (end' # targets) =
     (if end' \<le> SourceEnd bestRequest then fit_targets prepare maxOutputTokens minimum bestRequest targets
      else bindE (prepare end' maxOutputTokens) (\<lambda>candidate.
        if OverBudget (InputBudget candidate) then
          let fitted = maxOutputTokens - (EstimatedInputTokens (InputBudget candidate)
                - UsableInputTokens (InputBudget candidate))
          in if fitted < max 1 minimum then fit_targets prepare maxOutputTokens minimum bestRequest targets
             else bindE (prepare end' fitted) (\<lambda>candidate'.
               if Fits (InputBudget candidate') then Inr candidate'
               else fit_targets prepare maxOutputTokens minimum bestRequest targets)
        else if Fits (InputBudget candidate) then Inr candidate
        else fit_targets prepare maxOutputTokens minimum bestRequest targets))"

definition largestFittingCompactionRequest ::
    "part_counter \<Rightarrow> request_estimate \<Rightarrow> int \<Rightarrow> source_event list \<Rightarrow> source_event list \<Rightarrow> atomic_group_record list
       \<Rightarrow> int \<Rightarrow> compaction_error + int \<Rightarrow> compaction_error + prepared_request" where
  "largestFittingCompactionRequest parts estimate start events witnessEvents groups maxOutputTokens minimum =
     (let candidates = safeCompactionSourceEndsWithWitness parts events witnessEvents (atomicGroupsFromRecords groups);
          prepare = prepareCandidate estimate events start
      in if candidates = [] then Inr no_request
         else bindE (last_fit (\<lambda>end. prepare end maxOutputTokens) candidates 0 (int (length candidates) - 1) no_request)
           (\<lambda>bestRequest.
             let turns = completeTurnSourceEnds events witnessEvents candidates;
                 targets = (if turns \<noteq> [] \<and> hd turns \<noteq> hd candidates then [hd turns, hd candidates]
                   else [hd candidates])
             in bindE minimum (\<lambda>limit. fit_targets prepare maxOutputTokens limit bestRequest targets)))"

text \<open>The code of the error a run records when the request covers less than the planned source.\<close>

definition compactionSourceAdjustmentError ::
    "part_counter \<Rightarrow> source_event list \<Rightarrow> source_event list \<Rightarrow> atomic_group_record list \<Rightarrow> int \<Rightarrow> string" where
  "compactionSourceAdjustmentError parts events witnessEvents groups plannedEnd =
     (let safeEnds = safeCompactionSourceEndsWithWitness parts events witnessEvents (atomicGroupsFromRecords groups)
      in if safeEnds = [] \<or> last safeEnds < plannedEnd then ''compaction_source_boundary_adjustment''
         else ''compaction_source_over_budget'')"

section \<open>A smaller source\<close>

fun prefix_sums :: "int \<Rightarrow> int list \<Rightarrow> int list" where
  "prefix_sums totalBytes [] = []"
| "prefix_sums totalBytes (n # ns) = (totalBytes + n) # prefix_sums (totalBytes + n) ns"

fun last_before :: "(int \<Rightarrow> bool) \<Rightarrow> int \<Rightarrow> int list \<Rightarrow> int" where
  "last_before over chosen [] = chosen"
| "last_before over chosen (candidate # candidates) =
     (if over candidate then chosen else last_before over candidate candidates)"

text \<open>\<open>render\<close> is the text of one event in the source of a summary (\<open>renderEventSource\<close>).\<close>

definition nextSmallerSourceEnd ::
    "part_counter \<Rightarrow> (source_event \<Rightarrow> compaction_error + string) \<Rightarrow> compaction_store \<Rightarrow> checkpoint_plan
       \<Rightarrow> compaction_error + int" where
  "nextSmallerSourceEnd parts render store plan =
     bindE (loadCompactionBoundaryWindow parts store plan) (\<lambda>window.
       let events = SourceEvents window;
           candidates = window_safe_ends parts window
       in if candidates = [] then Inr 0
          else
            let candidates = (if last candidates = EventSequenceEnd plan then butlast candidates else candidates)
            in if candidates = [] then Inr 0
               else bindE (mapE render events) (\<lambda>rendered.
                 let sizes = map (\<lambda>text. int (length text)) rendered;
                     prefixBytes = prefix_sums 0 sizes;
                     targetBytes = sum_list sizes div 2;
                     size_at = (\<lambda>end. prefixBytes ! nat (end - EventSequenceStart plan));
                     completeTurnEnds = completeTurnSourceEnds events (WitnessEvents window) candidates;
                     (before, after) = boundariesAroundTarget completeTurnEnds (\<lambda>end. size_at end \<le> targetBytes)
                 in if before > 0 then Inr before
                    else if after > 0 then Inr after
                    else Inr (last_before (\<lambda>end. size_at end > targetBytes) (hd candidates) candidates)))"

section \<open>Bisection\<close>

declare sort_Search_loop.simps [simp del] first_fit.simps [simp del] last_fit.simps [simp del]

lemma sort_Search_loop_spec:
  assumes "i \<le> j" "\<forall>k \<in> {i..<j}. \<forall>l \<in> {k..<j}. f k \<longrightarrow> f l"
  shows "sort_Search_loop f i j \<in> {i..j} \<and> (\<forall>k \<in> {i..<sort_Search_loop f i j}. \<not> f k)
    \<and> (\<forall>k \<in> {sort_Search_loop f i j..<j}. f k)"
  using assms
proof (induction f i j rule: sort_Search_loop.induct)
  case (1 f i j)
  define h where "h = (i + j) div 2"
  note unfold = sort_Search_loop.simps [of f i j] Let_def h_def [symmetric]
  show ?case
  proof (cases "i < j")
    case True
    then have h: "i \<le> h" "h < j" by (auto simp: h_def)
    show ?thesis
    proof (cases "f h")
      case False
      define r where "r = sort_Search_loop f (h + 1) j"
      have below: "\<forall>k \<in> {i..<h + 1}. \<not> f k" using False "1.prems"(2) h by force
      have "h + 1 \<le> j" and "\<forall>k \<in> {h + 1..<j}. \<forall>l \<in> {k..<j}. f k \<longrightarrow> f l"
        using h "1.prems"(2) by auto
      from "1.IH"(1) [OF True h_def False this] have r: "r \<in> {h + 1..j}" "\<forall>k \<in> {h + 1..<r}. \<not> f k" "\<forall>k \<in> {r..<j}. f k"
        by (simp_all add: r_def)
      have "{i..<r} = {i..<h + 1} \<union> {h + 1..<r}" using h r(1) by auto
      with below r h show ?thesis using True False by (auto simp: unfold r_def [simplified, symmetric])
    next
      case fh: True
      define r where "r = sort_Search_loop f i h"
      have above: "\<forall>k \<in> {h..<j}. f k" using fh "1.prems"(2) h by auto
      have "\<not> \<not> f h" and "\<forall>k \<in> {i..<h}. \<forall>l \<in> {k..<h}. f k \<longrightarrow> f l" using fh h "1.prems"(2) by auto
      from "1.IH"(2) [OF True h_def this(1) h(1) this(2)] have r: "r \<in> {i..h}" "\<forall>k \<in> {i..<r}. \<not> f k" "\<forall>k \<in> {r..<h}. f k"
        by (simp_all add: r_def)
      have "{r..<j} = {r..<h} \<union> {h..<j}" using h r(1) by auto
      with above r h show ?thesis using True fh by (auto simp: unfold r_def [symmetric])
    qed
  next
    case False
    then have "sort_Search_loop f i j = i" by (simp add: unfold)
    with False "1.prems" show ?thesis by simp
  qed
qed

lemma first_fit_sound:
  assumes "first_fit fits cs low high best = Inr r" "0 \<le> low"
  shows "r = best \<or> low \<le> r \<and> r \<le> high \<and> fits (cs ! nat r) = Inr True"
  using assms
proof (induction fits cs low high best rule: first_fit.induct)
  case (1 fits cs low high best)
  define mid where "mid = low + (high - low) div 2"
  show ?case
  proof (cases "low \<le> high")
    case True
    then have m: "low \<le> mid" "mid \<le> high" by (auto simp: mid_def)
    show ?thesis
    proof (cases "fits (cs ! nat mid)")
      case (Inl e)
      with "1.prems" True show ?thesis by (simp add: first_fit.simps [of fits cs low high] Let_def mid_def [symmetric])
    next
      case (Inr ok)
      note unfold = first_fit.simps [of fits cs low high best] Let_def mid_def [symmetric]
      show ?thesis
      proof (cases ok)
        case True
        with Inr "1.prems" \<open>low \<le> high\<close> have "first_fit fits cs low (mid - 1) mid = Inr r" by (simp add: unfold)
        from "1.IH"(1) [OF \<open>low \<le> high\<close> mid_def Inr True this "1.prems"(2)] show ?thesis
          using Inr True m by auto
      next
        case False
        with Inr "1.prems" \<open>low \<le> high\<close> have "first_fit fits cs (mid + 1) high best = Inr r" by (simp add: unfold)
        from "1.IH"(2) [OF \<open>low \<le> high\<close> mid_def Inr False this] show ?thesis
          using m "1.prems"(2) by auto
      qed
    qed
  next
    case False
    with 1 show ?thesis by (simp add: first_fit.simps [of fits cs low high])
  qed
qed

lemma first_fit_least:
  assumes "0 \<le> low" "\<forall>i \<in> {low..high}. fits (cs ! nat i) = Inr (P i)"
    and "\<forall>i \<in> {low..high}. \<forall>j \<in> {i..high}. P i \<longrightarrow> P j"
  shows "\<exists>r. first_fit fits cs low high best = Inr r \<and>
    (r = best \<and> (\<forall>i \<in> {low..high}. \<not> P i) \<or> r \<in> {low..high} \<and> P r \<and> (\<forall>i \<in> {low..<r}. \<not> P i))"
  using assms
proof (induction fits cs low high best rule: first_fit.induct)
  case (1 fits cs low high best)
  define mid where "mid = low + (high - low) div 2"
  note unfold = first_fit.simps [of fits cs low high best] Let_def mid_def [symmetric]
  show ?case
  proof (cases "low \<le> high")
    case True
    then have m: "mid \<in> {low..high}" by (auto simp: mid_def)
    note fm = bspec [OF "1.prems"(2) m]
    show ?thesis
    proof (cases "P mid")
      case True
      have sub: "{low..mid - 1} \<subseteq> {low..high}" "\<And>i. {i..mid - 1} \<subseteq> {i..high}" using m by auto
      have "\<forall>i \<in> {low..mid - 1}. fits (cs ! nat i) = Inr (P i)"
        and "\<forall>i \<in> {low..mid - 1}. \<forall>j \<in> {i..mid - 1}. P i \<longrightarrow> P j"
        using "1.prems"(2,3) sub by blast+
      from "1.IH"(1) [OF \<open>low \<le> high\<close> mid_def fm True "1.prems"(1) this]
      obtain r where "first_fit fits cs low (mid - 1) mid = Inr r"
        "r = mid \<and> (\<forall>i \<in> {low..mid - 1}. \<not> P i) \<or> r \<in> {low..mid - 1} \<and> P r \<and> (\<forall>i \<in> {low..<r}. \<not> P i)"
        by blast
      then show ?thesis using m True \<open>low \<le> high\<close> fm by (auto simp: unfold)
    next
      case False
      then have below: "\<And>i. i \<in> {low..mid} \<Longrightarrow> \<not> P i" using "1.prems"(3) m by (meson atLeastAtMost_iff order_trans)
      have sub: "{mid + 1..high} \<subseteq> {low..high}" using m by auto
      have "0 \<le> mid + 1" and "\<forall>i \<in> {mid + 1..high}. fits (cs ! nat i) = Inr (P i)"
        and "\<forall>i \<in> {mid + 1..high}. \<forall>j \<in> {i..high}. P i \<longrightarrow> P j"
        using "1.prems"(1) m apply simp
        using "1.prems"(2) sub apply blast
        using "1.prems"(3) sub by blast
      from "1.IH"(2) [OF \<open>low \<le> high\<close> mid_def fm False this]
      obtain r where r: "first_fit fits cs (mid + 1) high best = Inr r"
        "r = best \<and> (\<forall>i \<in> {mid + 1..high}. \<not> P i) \<or> r \<in> {mid + 1..high} \<and> P r \<and> (\<forall>i \<in> {mid + 1..<r}. \<not> P i)"
        by blast
      have split: "{low..high} = {low..mid} \<union> {mid + 1..high}"
        and "r \<in> {mid + 1..high} \<Longrightarrow> {low..<r} = {low..mid} \<union> {mid + 1..<r}"
        using m by auto
      with r below show ?thesis using False \<open>low \<le> high\<close> fm by (auto simp: unfold)
    qed
  next
    case False
    then show ?thesis by (simp add: unfold)
  qed
qed

lemma last_fit_sound:
  assumes "last_fit prepare cs low high best = Inr r" "0 \<le> low"
  shows "r = best \<or> (\<exists>i \<in> {low..high}. prepare (cs ! nat i) = Inr r \<and> Fits (InputBudget r))"
  using assms
proof (induction prepare cs low high best rule: last_fit.induct)
  case (1 prepare cs low high best)
  define mid where "mid = low + (high - low) div 2"
  note unfold = last_fit.simps [of prepare cs low high best] Let_def mid_def [symmetric]
  show ?case
  proof (cases "low \<le> high \<and> (\<exists>q. prepare (cs ! nat mid) = Inr q)")
    case True
    then obtain q where q: "low \<le> high" "prepare (cs ! nat mid) = Inr q" by blast
    then have m: "mid \<in> {low..high}" by (auto simp: mid_def)
    then have sub: "{low..mid - 1} \<subseteq> {low..high}" "{mid + 1..high} \<subseteq> {low..high}" by auto
    show ?thesis
    proof (cases "OverBudget (InputBudget q)")
      case True
      with q "1.prems" have "last_fit prepare cs low (mid - 1) best = Inr r" by (simp add: unfold)
      from "1.IH"(1) [OF q(1) mid_def q(2) True this "1.prems"(2)] show ?thesis using sub by blast
    next
      case False
      with q "1.prems" have "last_fit prepare cs (mid + 1) high q = Inr r" by (simp add: unfold)
      moreover have "0 \<le> mid + 1" using m "1.prems" by simp
      ultimately have "r = q \<or> (\<exists>i \<in> {mid + 1..high}. prepare (cs ! nat i) = Inr r \<and> Fits (InputBudget r))"
        by (rule "1.IH"(2) [OF q(1) mid_def q(2) False])
      then show ?thesis using sub m q False by (auto simp: OverBudget_def)
    qed
  next
    case False
    with "1.prems" show ?thesis by (auto simp: unfold split: if_splits sum.splits)
  qed
qed

text \<open>When longer prefixes never fit better, the halving finds the longest prefix that fits.\<close>

lemma last_fit_greatest:
  assumes "0 \<le> low" "\<forall>i \<in> {low..high}. prepare (cs ! nat i) = Inr (q i)"
    and "\<forall>i \<in> {low..high}. \<forall>j \<in> {low..i}. Fits (InputBudget (q i)) \<longrightarrow> Fits (InputBudget (q j))"
  shows "\<exists>r. last_fit prepare cs low high best = Inr r \<and>
    (r = best \<and> (\<forall>i \<in> {low..high}. \<not> Fits (InputBudget (q i)))
     \<or> (\<exists>k \<in> {low..high}. r = q k \<and> Fits (InputBudget (q k)) \<and> (\<forall>i \<in> {k<..high}. \<not> Fits (InputBudget (q i)))))"
  using assms
proof (induction prepare cs low high best rule: last_fit.induct)
  case (1 prepare cs low high best)
  define mid where "mid = low + (high - low) div 2"
  note unfold = last_fit.simps [of prepare cs low high best] Let_def mid_def [symmetric] OverBudget_def
  show ?case
  proof (cases "low \<le> high")
    case True
    then have m: "mid \<in> {low..high}" by (auto simp: mid_def)
    note fm = bspec [OF "1.prems"(2) m]
    show ?thesis
    proof (cases "OverBudget (InputBudget (q mid))")
      case over: True
      then have above: "\<And>i. i \<in> {mid..high} \<Longrightarrow> \<not> Fits (InputBudget (q i))"
        using "1.prems"(3) m by (meson atLeastAtMost_iff OverBudget_def order_trans)
      have sub: "{low..mid - 1} \<subseteq> {low..high}" using m by auto
      have "\<forall>i \<in> {low..mid - 1}. prepare (cs ! nat i) = Inr (q i)"
        and "\<forall>i \<in> {low..mid - 1}. \<forall>j \<in> {low..i}. Fits (InputBudget (q i)) \<longrightarrow> Fits (InputBudget (q j))"
        using "1.prems"(2,3) sub by blast+
      from "1.IH"(1) [OF True mid_def fm over "1.prems"(1) this]
      obtain r where r: "last_fit prepare cs low (mid - 1) best = Inr r"
        "r = best \<and> (\<forall>i \<in> {low..mid - 1}. \<not> Fits (InputBudget (q i)))
         \<or> (\<exists>k \<in> {low..mid - 1}. r = q k \<and> Fits (InputBudget (q k)) \<and> (\<forall>i \<in> {k<..mid - 1}. \<not> Fits (InputBudget (q i))))"
        by blast
      have split: "{low..high} = {low..mid - 1} \<union> {mid..high}"
        "\<And>k. k \<in> {low..mid - 1} \<Longrightarrow> {k<..high} = {k<..mid - 1} \<union> {mid..high}"
        using m by auto
      have "last_fit prepare cs low high best = Inr r" using r(1) over True fm by (simp add: unfold)
      with r(2) above show ?thesis unfolding split(1) using split(2) by (metis Un_iff)
    next
      case fits: False
      have sub: "{mid + 1..high} \<subseteq> {low..high}" "\<And>i. {mid + 1..i} \<subseteq> {low..i}" using m by auto
      have "\<forall>i \<in> {mid + 1..high}. prepare (cs ! nat i) = Inr (q i)"
        and "\<forall>i \<in> {mid + 1..high}. \<forall>j \<in> {mid + 1..i}. Fits (InputBudget (q i)) \<longrightarrow> Fits (InputBudget (q j))"
        using "1.prems"(2,3) sub by blast+
      moreover have "0 \<le> mid + 1" using m "1.prems"(1) by simp
      ultimately obtain r where r: "last_fit prepare cs (mid + 1) high (q mid) = Inr r"
        "r = q mid \<and> (\<forall>i \<in> {mid + 1..high}. \<not> Fits (InputBudget (q i)))
         \<or> (\<exists>k \<in> {mid + 1..high}. r = q k \<and> Fits (InputBudget (q k)) \<and> (\<forall>i \<in> {k<..high}. \<not> Fits (InputBudget (q i))))"
        using "1.IH"(2) [OF True mid_def fm fits] by blast
      have "last_fit prepare cs low high best = Inr r" using r(1) fits True fm by (simp add: unfold)
      moreover have "{mid<..high} = {mid + 1..high}" by auto
      ultimately show ?thesis using r(2) m sub fits by (metis OverBudget_def subsetD)
    qed
  next
    case False
    then show ?thesis by (simp add: unfold)
  qed
qed

section \<open>The boundary that fits\<close>

lemma sort_Search_sorted:
  fixes cs :: "int list" and desired :: int
  assumes "sorted_wrt (<) cs" and k_def: "k = sort_Search (length cs) (\<lambda>i. cs ! i \<ge> desired)"
  shows "k \<le> length cs \<and> (\<forall>i < length cs. desired \<le> cs ! i \<longleftrightarrow> k \<le> i)"
proof -
  define f where "f i = (desired \<le> cs ! i)" for i
  have eq: "sort_Search_loop f 0 (length cs) = k" by (simp add: k_def sort_Search_def f_def [abs_def])
  have "\<forall>i \<in> {0..<length cs}. \<forall>j \<in> {i..<length cs}. f i \<longrightarrow> f j"
    using assms(1) by (auto simp: f_def strict_sorted_iff sorted_iff_nth_mono intro: order_trans)
  from sort_Search_loop_spec [OF le0 this, unfolded eq]
  have k: "k \<le> length cs" "\<forall>i \<in> {0..<k}. \<not> f i" "\<forall>i \<in> {k..<length cs}. f i" by auto
  have "desired \<le> cs ! i \<longleftrightarrow> k \<le> i" if "i < length cs" for i
    using k(2,3) that unfolding f_def by (cases "k \<le> i") simp_all
  with k(1) show ?thesis by blast
qed

lemma firstFittingRetainFrom_sound:
  assumes "firstFittingRetainFrom cs desired fits = Inr (Some c)" "sorted_wrt (<) cs"
  shows "c \<in> set cs \<and> desired \<le> c \<and> fits c = Inr True"
proof -
  define k where "k = sort_Search (length cs) (\<lambda>i. cs ! i \<ge> desired)"
  from assms(1) obtain r where r: "first_fit fits cs (int k) (int (length cs) - 1) (-1) = Inr r"
    "0 \<le> r" "c = cs ! nat r"
    by (auto simp: firstFittingRetainFrom_def Let_def k_def split: if_splits)
  with first_fit_sound [OF r(1)] have "k \<le> nat r" "nat r < length cs" "fits c = Inr True" by auto
  with sort_Search_sorted [OF assms(2) k_def] r(3) show ?thesis by simp
qed

lemma find_nth_least:
  assumes "k < length xs" "P (xs ! k)" "\<forall>i < k. \<not> P (xs ! i)"
  shows "find P xs = Some (xs ! k)"
  using assms by (auto simp: find_Some_iff)

lemma firstFittingRetainFrom_find:
  assumes sorted: "sorted_wrt (<) cs" and total_fits: "\<forall>c \<in> set cs. fits c = Inr (ok c)"
    and mono: "\<forall>c \<in> set cs. \<forall>d \<in> set cs. c \<le> d \<longrightarrow> ok c \<longrightarrow> ok d"
  shows "firstFittingRetainFrom cs desired fits = Inr (find (\<lambda>c. desired \<le> c \<and> ok c) cs)"
proof -
  define k where "k = sort_Search (length cs) (\<lambda>i. cs ! i \<ge> desired)"
  note k = sort_Search_sorted [OF sorted k_def]
  define P where "P i = ok (cs ! nat i)" for i
  let ?I = "{int k..int (length cs) - 1}"
  have in_cs: "\<forall>i \<in> ?I. cs ! nat i \<in> set cs" and sub: "\<forall>i \<in> ?I. {i..int (length cs) - 1} \<subseteq> ?I" by auto
  have "\<forall>i \<in> ?I. \<forall>j \<in> {i..int (length cs) - 1}. cs ! nat i \<le> cs ! nat j"
    using sorted by (auto simp: strict_sorted_iff sorted_iff_nth_mono)
  then have P_mono: "\<forall>i \<in> ?I. \<forall>j \<in> {i..int (length cs) - 1}. P i \<longrightarrow> P j"
    unfolding P_def using mono in_cs sub by blast
  have "\<forall>i \<in> ?I. fits (cs ! nat i) = Inr (P i)" using total_fits in_cs by (auto simp: P_def)
  from first_fit_least [OF _ this P_mono, of "-1"]
  obtain r where r: "first_fit fits cs (int k) (int (length cs) - 1) (-1) = Inr r"
    and "r = -1 \<and> (\<forall>i \<in> ?I. \<not> P i) \<or> r \<in> ?I \<and> P r \<and> (\<forall>i \<in> {int k..<r}. \<not> P i)"
    by auto
  then consider "r = -1" "\<forall>i \<in> ?I. \<not> P i" | "r \<in> ?I" "P r" "\<forall>i \<in> {int k..<r}. \<not> P i" by blast
  then show ?thesis
  proof cases
    case 1
    have "find (\<lambda>c. desired \<le> c \<and> ok c) cs = None"
    proof (subst find_None_iff, safe)
      fix c assume "c \<in> set cs" "desired \<le> c" "ok c"
      then obtain i where "i < length cs" "c = cs ! i" by (auto simp: in_set_conv_nth)
      with \<open>desired \<le> c\<close> k have "int i \<in> ?I" by auto
      with 1(2) have "\<not> P (int i)" by blast
      with \<open>ok c\<close> \<open>c = cs ! i\<close> show False by (simp add: P_def)
    qed
    with 1 r show ?thesis by (simp add: firstFittingRetainFrom_def k_def)
  next
    case 2
    have "\<not> (desired \<le> cs ! i \<and> ok (cs ! i))" if "i < nat r" for i
    proof (cases "k \<le> i")
      case True
      with 2 that have "\<not> P (int i)" by auto
      then show ?thesis by (simp add: P_def)
    next
      case False
      with k that 2(1) show ?thesis by auto
    qed
    moreover have "nat r < length cs" "desired \<le> cs ! nat r" "ok (cs ! nat r)"
      using 2 k by (auto simp: P_def)
    ultimately have "find (\<lambda>c. desired \<le> c \<and> ok c) cs = Some (cs ! nat r)"
      by (intro find_nth_least) auto
    with 2 r show ?thesis by (simp add: firstFittingRetainFrom_def k_def)
  qed
qed

end
