(* ===== verification/Compaction_Runs.thy ===== *)
theory Compaction_Runs
  imports Compaction_Kernel
begin

text \<open>
  From a plan to a run: the checks \<open>Runner.run\<close> makes of its plan before it claims a model call
  (\<open>src/internal/compaction/runner.go\<close>), and the lemmas that relate what the kernel plans from the whole
  open history to what the runner reads again from the planned source.
\<close>

record run_input =
  RunPlan :: checkpoint_plan
  RunTurnID :: uuid
  OpeningInputIDs :: "uuid list"
  OpeningEventSequence :: int
  RuntimeLockID :: uuid
  ParentModelCallContextID :: uuid

datatype run_error =
    ErrPlanInvalid
  | ErrRunOwnerRequired
  | ErrOpeningExceedsFrontier
  | ErrMustRetainOpening
  | ErrSourceStart int int
  | ErrRunSource compaction_error

definition validate :: "run_input \<Rightarrow> run_error + unit" where
  "validate input =
     (let plan = RunPlan input
      in if CheckpointProjectID plan = uuid_nil \<or> CheckpointAgentID plan = uuid_nil
            \<or> CheckpointInputEventSequence plan \<le> 0 \<or> EventSequenceStart plan \<le> 0
            \<or> EventSequenceEnd plan < EventSequenceStart plan
            \<or> EventSequenceEnd plan > CheckpointInputEventSequence plan
         then Inl ErrPlanInvalid
         else if RunTurnID input = uuid_nil \<or> OpeningInputIDs input = [] \<or> RuntimeLockID input = uuid_nil
            \<or> ParentModelCallContextID input = uuid_nil
         then Inl ErrRunOwnerRequired
         else if OpeningEventSequence input \<le> 0
            \<or> OpeningEventSequence input > CheckpointInputEventSequence plan
         then Inl ErrOpeningExceedsFrontier
         else Inr ())"

text \<open>\<open>prior\<close> is the frontier of the latest checkpoint; the result tells whether the opening is protected.\<close>

definition run_admission :: "compaction_store \<Rightarrow> (int \<times> string) option \<Rightarrow> run_input \<Rightarrow> run_error + bool" where
  "run_admission store prior input =
     bindE (validate input) (\<lambda>_.
       case openingEventsRequireVerbatimRetention store (RunPlan input) (OpeningEventSequence input) of
         Inl err \<Rightarrow> Inl (ErrRunSource err)
       | Inr protectOpening \<Rightarrow>
           if protectOpening \<and> EventSequenceEnd (RunPlan input) \<ge> OpeningEventSequence input
           then Inl ErrMustRetainOpening
           else
             let wantStart = (case prior of None \<Rightarrow> 1 | Some (n, _) \<Rightarrow> n + 1)
             in if EventSequenceStart (RunPlan input) \<noteq> wantStart
                then Inl (ErrSourceStart (EventSequenceStart (RunPlan input)) wantStart)
                else Inr protectOpening)"

section \<open>Latest events of a turn\<close>

lemma latestByTurn_Nil [simp]: "latestByTurn P [] t = None"
  by (simp add: latestByTurn_def)

lemma latestByTurn_snoc [simp]:
  "latestByTurn P (es @ [e]) t = (if P e \<and> TurnID e = t then Some (Sequence e) else latestByTurn P es t)"
  by (simp add: latestByTurn_def)

lemma latestByTurn_SomeD:
  "latestByTurn P es t = Some n \<Longrightarrow> \<exists>e \<in> set es. P e \<and> TurnID e = t \<and> Sequence e = n"
  by (induction es rule: rev_induct) (auto split: if_splits)

lemma latestByTurn_ge:
  assumes "sorted_wrt (<) (map Sequence es)" "e \<in> set es" "P e" "TurnID e = t"
  shows "\<exists>n. latestByTurn P es t = Some n \<and> Sequence e \<le> n"
  using assms
proof (induction es rule: rev_induct)
  case (snoc x es)
  then show ?case by (auto simp: sorted_wrt_append)
qed simp

text \<open>A later event of the turn satisfies \<open>P\<close> exactly if the map holds a larger sequence.\<close>

lemma lookup_latestByTurn:
  assumes "sorted_wrt (<) (map Sequence es)" "0 \<le> n"
  shows "n < lookup_seq (latestByTurn P es) t \<longleftrightarrow> (\<exists>e \<in> set es. P e \<and> TurnID e = t \<and> n < Sequence e)"
proof (cases "latestByTurn P es t")
  case None
  with latestByTurn_ge [OF assms(1)] assms(2) show ?thesis by (fastforce simp: lookup_seq_def)
next
  case (Some m)
  then show ?thesis
    using latestByTurn_SomeD [OF Some] latestByTurn_ge [OF assms(1), of _ P t]
    by (fastforce simp: lookup_seq_def)
qed

text \<open>When an event ends a settled step, in terms of the events that follow it.\<close>

definition settled :: "source_event list \<Rightarrow> source_event \<Rightarrow> bool" where
  "settled es e \<longleftrightarrow> EventKind e \<in> {KindModelOutput, KindToolResult}
     \<or> EventKind e = KindAgentInput
       \<and> (\<exists>m \<in> set es. EventKind m = KindModelOutput \<and> TurnID m = TurnID e \<and> Sequence e < Sequence m)"

lemma endsSettledStep_iff:
  assumes "sorted_wrt (<) (map Sequence es)" "0 < Sequence e"
  shows "compactionEventEndsSettledStep e (latestByTurn (\<lambda>e. EventKind e = KindModelOutput) es) \<longleftrightarrow> settled es e"
  using lookup_latestByTurn [OF assms(1), of "Sequence e" "\<lambda>e. EventKind e = KindModelOutput" "TurnID e"] assms(2)
  by (cases "EventKind e") (simp_all add: compactionEventEndsSettledStep_def settled_def)

lemma safe_ends_iff:
  assumes "sorted_wrt (<) (map Sequence ws)" "\<forall>e \<in> set es. 0 < Sequence e"
  shows "n \<in> set (safeCompactionSourceEndsWithWitness parts es ws gs) \<longleftrightarrow>
    (\<exists>e \<in> set es. Sequence e = n \<and> compactionEventHasModelSemantics parts e \<and> settled ws e \<and> \<not> in_group gs n)"
  using assms by (auto simp: set_safeCompactionSourceEndsWithWitness endsSettledStep_iff)

section \<open>The window\<close>

text \<open>
  The source and the groups a run decides on; \<open>whole\<close> is the open history up to the input frontier,
  which the runner reads only if the source holds an unanswered input.
\<close>

definition whole_source :: "compaction_store \<Rightarrow> checkpoint_plan \<Rightarrow> source_event list" where
  "whole_source store plan = events_between store (CheckpointProjectID plan) (CheckpointAgentID plan)
     (EventSequenceStart plan - 1) (CheckpointInputEventSequence plan)"

definition plan_ok :: "compaction_store \<Rightarrow> checkpoint_plan \<Rightarrow> bool" where
  "plan_ok store plan \<longleftrightarrow> log_ok store (CheckpointProjectID plan) (CheckpointAgentID plan)
     \<and> 0 < EventSequenceStart plan \<and> EventSequenceStart plan \<le> EventSequenceEnd plan
     \<and> EventSequenceEnd plan \<le> CheckpointInputEventSequence plan"

lemma windowE:
  assumes "loadCompactionBoundaryWindow parts store plan = Inr window"
  obtains "loadClosedEventRange store plan = Inr (SourceEvents window)"
    "WitnessEvents window = SourceEvents window
       \<and> (CheckpointInputEventSequence plan \<le> EventSequenceEnd plan
          \<or> \<not> compactionSourceNeedsLaterModelWitness parts (SourceEvents window))
     \<or> loadClosedEventRange store (plan\<lparr>EventSequenceEnd := CheckpointInputEventSequence plan\<rparr>) = Inr (WitnessEvents window)"
    "ListCompactionAtomicGroups store (CheckpointProjectID plan) (CheckpointAgentID plan)
       (EventSequenceStart plan - 1) (EventSequenceEnd plan) = Inr (WindowGroups window)"
  using assms by (auto simp: loadCompactionBoundaryWindow_def split: if_splits)

lemma window_source:
  assumes "plan_ok store plan" "loadCompactionBoundaryWindow parts store plan = Inr window"
  shows "SourceEvents window = events_between store (CheckpointProjectID plan) (CheckpointAgentID plan)
      (EventSequenceStart plan - 1) (EventSequenceEnd plan)
    \<and> map Sequence (SourceEvents window) = [EventSequenceStart plan .. EventSequenceEnd plan]"
  using assms(2)
proof (rule windowE)
  assume "loadClosedEventRange store plan = Inr (SourceEvents window)"
  with assms(1) show ?thesis by (simp add: plan_ok_def loadClosedEventRange_eq)
qed

lemma whole_source_ordered:
  "plan_ok store plan \<Longrightarrow> sorted_wrt (<) (map Sequence (whole_source store plan))"
  by (simp add: plan_ok_def whole_source_def ordered_filter [OF log_ok_ordered])

text \<open>Reading the later events only on demand decides as if they were always read.\<close>

lemma window_witness_settled:
  assumes ok: "plan_ok store plan" and win: "loadCompactionBoundaryWindow parts store plan = Inr window"
    and e: "e \<in> set (SourceEvents window)" "compactionEventHasModelSemantics parts e"
  shows "settled (WitnessEvents window) e \<longleftrightarrow> settled (whole_source store plan) e"
proof -
  note src = window_source [OF ok win]
  have sub: "set (SourceEvents window) \<subseteq> set (whole_source store plan)"
    using src ok by (auto simp: whole_source_def plan_ok_def)
  have pos: "0 < Sequence e" and sorted: "sorted_wrt (<) (map Sequence (SourceEvents window))"
    using e(1) src ok ordered_filter [OF log_ok_ordered] by (auto simp: plan_ok_def)
  from win show ?thesis
  proof (rule windowE)
    assume "WitnessEvents window = SourceEvents window
       \<and> (CheckpointInputEventSequence plan \<le> EventSequenceEnd plan
          \<or> \<not> compactionSourceNeedsLaterModelWitness parts (SourceEvents window))
     \<or> loadClosedEventRange store (plan\<lparr>EventSequenceEnd := CheckpointInputEventSequence plan\<rparr>) = Inr (WitnessEvents window)"
    then consider "WitnessEvents window = whole_source store plan"
      | "WitnessEvents window = SourceEvents window" "\<not> compactionSourceNeedsLaterModelWitness parts (SourceEvents window)"
      using ok src by (fastforce simp: plan_ok_def whole_source_def loadClosedEventRange_eq)
    then show ?thesis
    proof cases
      case 2
      then have "EventKind e = KindAgentInput \<Longrightarrow> settled (SourceEvents window) e"
        using e endsSettledStep_iff [OF sorted pos]
        by (fastforce simp: compactionSourceNeedsLaterModelWitness_def list_ex_iff compactionEventEndsSettledStep_def)
      with 2 sub show ?thesis by (fastforce simp: settled_def)
    qed simp
  qed
qed

lemma whole_source_pos: "plan_ok store plan \<Longrightarrow> e \<in> set (whole_source store plan) \<Longrightarrow> 0 < Sequence e"
  by (auto simp: whole_source_def plan_ok_def)

lemma window_ordered:
  assumes "plan_ok store plan" "loadCompactionBoundaryWindow parts store plan = Inr window"
  shows "sorted_wrt (<) (map Sequence (SourceEvents window)) \<and> sorted_wrt (<) (map Sequence (WitnessEvents window))
    \<and> (\<forall>e \<in> set (SourceEvents window). 0 < Sequence e)"
  using assms(2)
proof (rule windowE)
  assume "loadClosedEventRange store plan = Inr (SourceEvents window)"
    and "WitnessEvents window = SourceEvents window
       \<and> (CheckpointInputEventSequence plan \<le> EventSequenceEnd plan
          \<or> \<not> compactionSourceNeedsLaterModelWitness parts (SourceEvents window))
     \<or> loadClosedEventRange store (plan\<lparr>EventSequenceEnd := CheckpointInputEventSequence plan\<rparr>) = Inr (WitnessEvents window)"
  with assms(1) show ?thesis
    by (auto simp: plan_ok_def loadClosedEventRange_eq intro: ordered_filter [OF log_ok_ordered])
qed

lemma window_safe_ends_whole:
  assumes "plan_ok store plan" "loadCompactionBoundaryWindow parts store plan = Inr window"
  shows "window_safe_ends parts window = safeCompactionSourceEndsWithWitness parts (SourceEvents window)
    (whole_source store plan) (atomicGroupsFromRecords (WindowGroups window))"
proof -
  have "compactionEventEndsSettledStep e (latestByTurn (\<lambda>e. EventKind e = KindModelOutput) (WitnessEvents window))
      \<longleftrightarrow> compactionEventEndsSettledStep e (latestByTurn (\<lambda>e. EventKind e = KindModelOutput) (whole_source store plan))"
    if "e \<in> set (SourceEvents window)" "compactionEventHasModelSemantics parts e" for e
    using window_witness_settled [OF assms that] window_ordered [OF assms] whole_source_ordered [OF assms(1)] that(1)
    by (simp add: endsSettledStep_iff)
  then show ?thesis
    unfolding window_safe_ends_def safeCompactionSourceEndsWithWitness_def Let_def
    by (intro arg_cong [of _ _ "map Sequence"] filter_cong) auto
qed

lemma atomicGroupsFromRecords_id [simp]: "atomicGroupsFromRecords gs = gs"
  by (simp add: atomicGroupsFromRecords_def map_idI)

lemma window_safe_ends_range:
  assumes "plan_ok store plan" "loadCompactionBoundaryWindow parts store plan = Inr window"
    and "n \<in> set (window_safe_ends parts window)"
  shows "EventSequenceStart plan \<le> n \<and> n \<le> EventSequenceEnd plan"
  using assms(3) window_source [OF assms(1,2)]
  by (auto simp: window_safe_ends_def set_safeCompactionSourceEndsWithWitness)

section \<open>A smaller source after a truncated summary\<close>

lemma last_before_mem: "last_before over c cs \<in> insert c (set cs)"
  by (induction over c cs rule: last_before.induct) auto

lemma last_candidate_below:
  assumes "sorted_wrt (<) (cs :: int list)" "\<forall>c \<in> set cs. c \<le> e" "cs' = (if last cs = e then butlast cs else cs)"
    and "cs \<noteq> []"
  shows "set cs' = {c \<in> set cs. c < e}"
proof -
  from assms(4) obtain ys y where cs: "cs = ys @ [y]" by (cases cs rule: rev_cases) auto
  have "\<forall>c \<in> set ys. c < y" and "y \<le> e" using assms(1,2) by (auto simp: cs sorted_wrt_append)
  then show ?thesis using assms(3) by (auto simp: cs)
qed

lemma nextSmallerSourceEnd_candidates:
  assumes ok: "plan_ok store plan" and win: "loadCompactionBoundaryWindow parts store plan = Inr window"
    and res: "nextSmallerSourceEnd parts render store plan = Inr n"
  defines "below \<equiv> {c \<in> set (window_safe_ends parts window). c < EventSequenceEnd plan}"
  shows "(n = 0 \<and> below = {}) \<or> n \<in> below"
proof -
  let ?cs = "window_safe_ends parts window"
  define cs' where "cs' = (if last ?cs = EventSequenceEnd plan then butlast ?cs else ?cs)"
  note ordered = window_ordered [OF ok win]
  have sorted: "sorted_wrt (<) ?cs"
    using ordered by (auto simp: window_safe_ends_def safeCompactionSourceEndsWithWitness_def intro: ordered_filter)
  have below: "set cs' = below" if "?cs \<noteq> []"
    using last_candidate_below [OF sorted _ cs'_def that] window_safe_ends_range [OF ok win] by (auto simp: below_def)
  show ?thesis
  proof (cases "?cs = [] \<or> cs' = []")
    case True
    with res win have "n = 0"
      by (auto simp: nextSmallerSourceEnd_def Let_def cs'_def split: if_splits)
    moreover have "below = {}" using True below by (cases "?cs = []") (auto simp: below_def)
    ultimately show ?thesis by simp
  next
    case False
    from res win obtain rendered where "mapE render (SourceEvents window) = Inr rendered"
      using False by (auto simp: nextSmallerSourceEnd_def Let_def cs'_def [symmetric])
    define P where "P end \<longleftrightarrow> prefix_sums 0 (map (\<lambda>t. int (length t)) rendered) ! nat (end - EventSequenceStart plan)
      \<le> sum_list (map (\<lambda>t. int (length t)) rendered) div 2" for "end"
    obtain x y where xy: "boundaries_from P 0 (completeTurnSourceEnds (SourceEvents window) (WitnessEvents window) cs') = (x, y)"
      by force
    have "n = (if x > 0 then x else if y > 0 then y else last_before (\<lambda>end. \<not> P end) (hd cs') cs')"
      using res win False \<open>mapE render _ = _\<close> xy
      by (simp add: nextSmallerSourceEnd_def Let_def cs'_def [symmetric] boundariesAroundTarget_def P_def [abs_def] not_le
          split: if_splits)
    moreover have "(x = 0 \<or> x \<in> set cs') \<and> (y = 0 \<or> y \<in> set cs')"
      using boundaries_from_cases [OF xy] set_completeTurnSourceEnds by blast
    moreover have "last_before (\<lambda>end. \<not> P end) (hd cs') cs' \<in> set cs'"
      using last_before_mem [of "\<lambda>end. \<not> P end" "hd cs'" cs'] False by auto
    ultimately show ?thesis using below False by (auto split: if_splits)
  qed
qed

section \<open>What a plan covers\<close>

lemma call_groups_cover:
  assumes "row \<in> set calls" "CallSequence row \<le> w"
    and "case ResultSequence row of None \<Rightarrow> True | Some r \<Rightarrow> r > m"
  obtains g where "g \<in> set (call_groups calls m w)" "StartSequence g = CallSequence row"
      "case ResultSequence row of None \<Rightarrow> EndSequence g = w + 1 | Some r \<Rightarrow> r \<le> EndSequence g \<or> EndSequence g = w + 1"
    | r where "ResultSequence row = Some r" "r \<le> CallSequence row"
proof -
  define rows where "rows = filter (\<lambda>row. CallSequence row \<le> w
    \<and> (case ResultSequence row of None \<Rightarrow> True | Some r \<Rightarrow> r > m)) calls"
  define g where "g = call_group w rows (CallSequence row)"
  have row: "row \<in> set rows" using assms by (simp add: rows_def)
  define rs where "rs = map ResultSequence (filter (\<lambda>x. CallSequence x = CallSequence row) rows)"
  have rs: "ResultSequence row \<in> set rs" using row by (simp add: rs_def)
  have eq: "g = \<lparr>GroupKind = ''tool_call_result'', StartSequence = CallSequence row,
      EndSequence = (if None \<in> set rs then w + 1 else Max (set (map the rs)))\<rparr>"
    unfolding g_def call_group_def Let_def rs_def ..
  have "r \<le> Max (set (map the rs))" if "ResultSequence row = Some r" for r
    using rs that by (intro Max_ge) (auto intro: image_eqI [of _ the "Some r"])
  then have g: "StartSequence g = CallSequence row"
      "case ResultSequence row of None \<Rightarrow> EndSequence g = w + 1 | Some r \<Rightarrow> r \<le> EndSequence g \<or> EndSequence g = w + 1"
    using rs by (auto simp: eq split: option.splits)
  show thesis
  proof (cases "EndSequence g > StartSequence g")
    case True
    with row have "g \<in> set (call_groups calls m w)"
      by (auto simp: call_groups_def rows_def [symmetric] Let_def g_def)
    with g that(1) show thesis by blast
  next
    case False
    with g assms(2) that(2) show thesis by (auto split: option.splits)
  qed
qed

lemma opening_groups_cover:
  assumes "e \<in> set es" "e' \<in> set es" "IsOpeningEvent e" "IsOpeningEvent e'" "TurnID e = TurnID e'"
    and "Sequence e < Sequence e'" "Sequence e' \<le> w" "m < Sequence e'"
  obtains g where "g \<in> set (opening_groups es m w)" "StartSequence g \<le> Sequence e" "Sequence e' \<le> EndSequence g"
proof -
  define openings where "openings = filter (\<lambda>e. IsOpeningEvent e \<and> Sequence e \<le> w) es"
  define ns where "ns = map Sequence (filter (\<lambda>x. TurnID x = TurnID e) openings)"
  have in_o: "e \<in> set openings" "e' \<in> set openings" using assms by (auto simp: openings_def)
  then have mem: "Sequence e \<in> set ns" "Sequence e' \<in> set ns" using assms(5) by (auto simp: ns_def)
  then have "card (set ns) \<ge> card {Sequence e, Sequence e'}" by (intro card_mono) auto
  then have len: "length ns > 1" using assms(6) card_length [of ns] by simp
  have bounds: "Min (set ns) \<le> Sequence e" "Sequence e' \<le> Max (set ns)" using mem by auto
  let ?g = "\<lparr>GroupKind = ''turn_opening'', StartSequence = Min (set ns), EndSequence = Max (set ns)\<rparr>"
  have "?g \<in> set (opening_groups es m w)"
    unfolding opening_groups_def Let_def openings_def [symmetric]
    using in_o len bounds assms(8) unfolding ns_def by (auto intro!: image_eqI [of _ _ "TurnID e"])
  with that bounds show thesis by simp
qed

lemma call_group_end_le:
  assumes "g \<in> set (call_groups calls m w)" "\<And>c. c \<in> set calls \<Longrightarrow> CallSequence c \<le> w \<Longrightarrow> \<exists>r. ResultSequence c = Some r \<and> r \<le> w"
  shows "EndSequence g \<le> w"
proof -
  define rows where "rows = filter (\<lambda>row. CallSequence row \<le> w
    \<and> (case ResultSequence row of None \<Rightarrow> True | Some r \<Rightarrow> r > m)) calls"
  from assms(1) obtain c where c: "c \<in> set rows" "g = call_group w rows (CallSequence c)"
    by (auto simp: call_groups_def Let_def rows_def [symmetric])
  define rs where "rs = map ResultSequence (filter (\<lambda>x. CallSequence x = CallSequence c) rows)"
  have "\<forall>x \<in> set rs. \<exists>r. x = Some r \<and> r \<le> w" using assms(2) by (fastforce simp: rs_def rows_def)
  moreover have "rs \<noteq> []" using c(1) by (auto simp: rs_def filter_empty_conv)
  ultimately have "None \<notin> set rs" "Max (set (map the rs)) \<le> w" by (force, subst Max_le_iff) fastforce+
  moreover have "EndSequence g = (if None \<in> set rs then w + 1 else Max (set (map the rs)))"
    unfolding c(2) call_group_def Let_def rs_def by simp
  ultimately show ?thesis by simp
qed

lemma opening_group_end_le:
  assumes "g \<in> set (opening_groups es m w)"
  shows "EndSequence g \<le> w"
proof -
  define openings where "openings = filter (\<lambda>e. IsOpeningEvent e \<and> Sequence e \<le> w) es"
  from assms obtain t where t: "EndSequence g = Max (set (map Sequence (filter (\<lambda>e. TurnID e = t) openings)))"
    "length (map Sequence (filter (\<lambda>e. TurnID e = t) openings)) > 1"
    unfolding opening_groups_def Let_def openings_def [symmetric] by auto
  then have "EndSequence g \<in> set (map Sequence (filter (\<lambda>e. TurnID e = t) openings))"
    by (metis List.finite_set Max_in length_0_conv less_nat_zero_code set_empty)
  then show ?thesis by (auto simp: openings_def)
qed

lemma set_ListCompactionAtomicGroups:
  "ListCompactionAtomicGroups store p a m w = Inr groups \<Longrightarrow>
     set groups = set (call_groups (StoreCalls store p a) m w) \<union> set (opening_groups (StoreEvents store p a) m w)"
  by (auto simp: ListCompactionAtomicGroups_def split: if_splits)

definition context_ok :: "compaction_store \<Rightarrow> (int \<times> string) option \<Rightarrow> context_row \<Rightarrow> bool" where
  "context_ok store checkpoint row \<longleftrightarrow> log_ok store (ContextProjectID row) (ContextAgentID row)
     \<and> 0 \<le> frontier_of checkpoint \<and> in_int64 (ContextInputEventSequence row)"

lemma sorted_candidates:
  assumes "RetainFromEventSequenceCandidates parts input = Inr cs"
  shows "sorted_wrt (<) cs"
proof -
  from assms have "strictly_ordered 0 (Events input)"
    by (auto simp: RetainFromEventSequenceCandidates_def validateRetainBoundaryInput_def split: if_splits)
  then have "sorted_wrt (<) (filter (\<lambda>end. \<not> (end < SourceEventSequenceStart input \<or> end \<ge> MaximumRetainFromSequence input))
      (safeCompactionSourceEnds parts (Events input) (AtomicGroups input)))" (is "sorted_wrt _ ?ends")
    unfolding safeCompactionSourceEnds_def by (intro sorted_wrt_filter safe_ends_sorted)
  then have "sorted_wrt (<) (map (\<lambda>end. end + 1) ?ends)"
    unfolding sorted_wrt_map by (rule sorted_wrt_mono_rel [rotated]) simp
  with assms show ?thesis by (auto simp: RetainFromEventSequenceCandidates_def)
qed

lemma candidatesE:
  assumes "RetainFromEventSequenceCandidates parts input = Inr cs" "r \<in> set cs"
  obtains e where "e \<in> set (Events input)" "Sequence e = r - 1" "compactionEventHasModelSemantics parts e"
    "settled (Events input) e" "\<not> in_group (AtomicGroups input) (r - 1)"
    "SourceEventSequenceStart input \<le> r - 1" "r \<le> MaximumRetainFromSequence input"
proof -
  from assms(1) have ord: "strictly_ordered 0 (Events input)"
    by (auto simp: RetainFromEventSequenceCandidates_def validateRetainBoundaryInput_def split: if_splits)
  note iff = safe_ends_iff [OF strictly_ordered_sorted [OF ord]]
  have "\<forall>e \<in> set (Events input). 0 < Sequence e" using ord by (auto dest: strictly_ordered_pos)
  from iff [OF this, of "r - 1" parts "AtomicGroups input"] assms that show thesis
    by (fastforce simp: RetainFromEventSequenceCandidates_def safeCompactionSourceEnds_def)
qed

text \<open>What a successful plan went through.\<close>

lemma plan_from_boundaryE:
  assumes "plan_from_boundary parts checkpoint fits row input = Inr (Some plan)"
  obtains d cs r where
    "RetainFromEventSequenceCandidates parts (input\<lparr>DesiredRetainFromSequence := d\<rparr>) = Inr cs"
    "firstFittingRetainFrom cs d (fits (projection_summary checkpoint)) = Inr (Some r)"
    "PlanCheckpoint \<lparr>PlanProjectID = ContextProjectID row, PlanAgentID = ContextAgentID row,
       InputEventSequence = ContextInputEventSequence row, SummarizedThroughEventSequence = frontier_of checkpoint,
       RetainFromEventSequence = r, PlanAtomicGroups = AtomicGroups input\<rparr> = Inr (Some plan)"
  using assms
  by (auto simp: plan_from_boundary_def clampRetainFromToModelBudget_def simp del: bindE_eq_Inr
      elim!: bindE_InrE split: sum.split_asm option.split_asm)

text \<open>The boundary of a plan is a candidate of the boundary input the kernel built.\<close>

lemma planCompactionForContextE:
  assumes "planCompactionForContext parts store checkpoint usable fits row opening = Inr (Some plan)"
  obtains events groups input cs r where
    "ListCompactionAtomicGroups store (ContextProjectID row) (ContextAgentID row)
       (frontier_of checkpoint) (ContextInputEventSequence row) = Inr groups"
    "loadContextEventsForCompaction store (ContextProjectID row) (ContextAgentID row)
       (frontier_of checkpoint) (ContextInputEventSequence row) = Inr events"
    "Events input = events" "AtomicGroups input = groups"
    "modelCallOpeningRequiresVerbatimRetention events (frontier_of checkpoint) opening \<Longrightarrow>
       MaximumRetainFromSequence input = opening"
    "RetainFromEventSequenceCandidates parts input = Inr cs" "r \<in> set cs"
    "fits (projection_summary checkpoint) r = Inr True"
    "PlanCheckpoint \<lparr>PlanProjectID = ContextProjectID row, PlanAgentID = ContextAgentID row,
       InputEventSequence = ContextInputEventSequence row, SummarizedThroughEventSequence = frontier_of checkpoint,
       RetainFromEventSequence = r, PlanAtomicGroups = groups\<rparr> = Inr (Some plan)"
    "frontier_of checkpoint + 1 < ContextInputEventSequence row"
proof -
  let ?W = "ContextInputEventSequence row" and ?S = "frontier_of checkpoint"
  from assms obtain groups events where
    frontier: "?S + 1 < ?W" and
    groups: "ListCompactionAtomicGroups store (ContextProjectID row) (ContextAgentID row) ?S ?W = Inr groups" and
    events: "loadContextEventsForCompaction store (ContextProjectID row) (ContextAgentID row) ?S ?W = Inr events" and
    "plan_from_boundary parts checkpoint fits row (context_boundary_input usable opening ?S ?W events groups) = Inr (Some plan)"
    by (auto simp: planCompactionForContext_def Let_def split: if_splits)
  from this(4) show thesis
  proof (rule plan_from_boundaryE)
    fix d cs r
    let ?input = "(context_boundary_input usable opening ?S ?W events groups)\<lparr>DesiredRetainFromSequence := d\<rparr>"
    assume cs: "RetainFromEventSequenceCandidates parts ?input = Inr cs"
      and fit: "firstFittingRetainFrom cs d (fits (projection_summary checkpoint)) = Inr (Some r)"
      and plan: "PlanCheckpoint \<lparr>PlanProjectID = ContextProjectID row, PlanAgentID = ContextAgentID row,
       InputEventSequence = ?W, SummarizedThroughEventSequence = ?S, RetainFromEventSequence = r,
       PlanAtomicGroups = AtomicGroups (context_boundary_input usable opening ?S ?W events groups)\<rparr> = Inr (Some plan)"
    from firstFittingRetainFrom_sound [OF fit sorted_candidates [OF cs]]
    have "r \<in> set cs" "fits (projection_summary checkpoint) r = Inr True" by simp_all
    then show thesis
      using plan frontier by (intro that [OF groups events _ _ _ cs]) (auto simp: context_boundary_input_def Let_def)
  qed
qed

lemma planned_fields:
  assumes ctx: "context_ok store checkpoint row"
    and "planCompactionForContext parts store checkpoint usable fits row opening = Inr (Some plan)"
  shows "CheckpointProjectID plan = ContextProjectID row \<and> CheckpointAgentID plan = ContextAgentID row
    \<and> CheckpointInputEventSequence plan = ContextInputEventSequence row
    \<and> EventSequenceStart plan = frontier_of checkpoint + 1
    \<and> EventSequenceStart plan \<le> EventSequenceEnd plan \<and> EventSequenceEnd plan \<le> ContextInputEventSequence row"
  using assms(2)
proof (rule planCompactionForContextE)
  fix events groups input cs r
  assume frontier: "frontier_of checkpoint + 1 < ContextInputEventSequence row"
    and plan: "PlanCheckpoint \<lparr>PlanProjectID = ContextProjectID row, PlanAgentID = ContextAgentID row,
       InputEventSequence = ContextInputEventSequence row, SummarizedThroughEventSequence = frontier_of checkpoint,
       RetainFromEventSequence = r, PlanAtomicGroups = groups\<rparr> = Inr (Some plan)"
  have "wrap64 (frontier_of checkpoint + 1) = frontier_of checkpoint + 1"
    using ctx frontier by (intro wrap64_succ_below [of _ "ContextInputEventSequence row"]) (auto simp: context_ok_def)
  with plan show ?thesis
    by (auto simp: PlanCheckpoint_def Let_def split: if_splits)
qed

lemma planned_groups:
  assumes ctx: "context_ok store checkpoint row"
    and plan: "planCompactionForContext parts store checkpoint usable fits row opening = Inr (Some plan)"
    and g: "g \<in> set (call_groups (StoreCalls store (ContextProjectID row) (ContextAgentID row))
        (frontier_of checkpoint) (ContextInputEventSequence row)
      @ opening_groups (StoreEvents store (ContextProjectID row) (ContextAgentID row))
        (frontier_of checkpoint) (ContextInputEventSequence row))"
  shows "(EventSequenceStart plan \<le> StartSequence g \<and> EndSequence g \<le> EventSequenceEnd plan)
    \<or> EventSequenceEnd plan < StartSequence g \<or> EndSequence g < EventSequenceStart plan"
  using plan
proof (rule planCompactionForContextE)
  fix events groups input cs r
  assume groups: "ListCompactionAtomicGroups store (ContextProjectID row) (ContextAgentID row)
       (frontier_of checkpoint) (ContextInputEventSequence row) = Inr groups"
    and checkpoint: "PlanCheckpoint \<lparr>PlanProjectID = ContextProjectID row, PlanAgentID = ContextAgentID row,
       InputEventSequence = ContextInputEventSequence row, SummarizedThroughEventSequence = frontier_of checkpoint,
       RetainFromEventSequence = r, PlanAtomicGroups = groups\<rparr> = Inr (Some plan)"
  from groups g have "g \<in> set groups" by (auto simp: ListCompactionAtomicGroups_def split: if_splits)
  with checkpoint show ?thesis by (auto elim!: PlanCheckpointE)
qed

lemma planned_calls:
  assumes ctx: "context_ok store checkpoint row"
    and plan: "planCompactionForContext parts store checkpoint usable fits row opening = Inr (Some plan)"
    and call: "call \<in> set (StoreCalls store (ContextProjectID row) (ContextAgentID row))"
      "CallSequence call \<le> EventSequenceEnd plan"
  shows "\<exists>r. ResultSequence call = Some r \<and> r \<le> EventSequenceEnd plan"
proof (cases "case ResultSequence call of None \<Rightarrow> True | Some r \<Rightarrow> r > frontier_of checkpoint")
  case True
  note fields = planned_fields [OF ctx plan]
  have "CallSequence call \<le> ContextInputEventSequence row" using call(2) fields by simp
  from call(1) this True show ?thesis
  proof (rule call_groups_cover)
    fix g
    assume "g \<in> set (call_groups (StoreCalls store (ContextProjectID row) (ContextAgentID row))
        (frontier_of checkpoint) (ContextInputEventSequence row))" "StartSequence g = CallSequence call"
      "case ResultSequence call of None \<Rightarrow> EndSequence g = ContextInputEventSequence row + 1
       | Some r \<Rightarrow> r \<le> EndSequence g \<or> EndSequence g = ContextInputEventSequence row + 1"
    with planned_groups [OF ctx plan, of g] call fields True show ?thesis by (auto split: option.splits)
  qed (use call in auto)
next
  case False
  with planned_fields [OF ctx plan] show ?thesis by (auto split: option.splits)
qed

lemma planned_openings:
  assumes ctx: "context_ok store checkpoint row"
    and plan: "planCompactionForContext parts store checkpoint usable fits row opening = Inr (Some plan)"
    and ev: "e \<in> set (StoreEvents store (ContextProjectID row) (ContextAgentID row))"
      "e' \<in> set (StoreEvents store (ContextProjectID row) (ContextAgentID row))"
      "IsOpeningEvent e" "IsOpeningEvent e'" "TurnID e = TurnID e'"
      "Sequence e' \<le> ContextInputEventSequence row" "Sequence e \<le> EventSequenceEnd plan"
  shows "Sequence e' \<le> EventSequenceEnd plan"
proof (rule ccontr)
  assume neg: "\<not> Sequence e' \<le> EventSequenceEnd plan"
  note fields = planned_fields [OF ctx plan]
  have "Sequence e < Sequence e'" "frontier_of checkpoint < Sequence e'" using ev(7) neg fields by auto
  with ev show False
  proof (elim opening_groups_cover [OF ev(1,2,3,4,5) _ ev(6)])
    fix g
    assume "g \<in> set (opening_groups (StoreEvents store (ContextProjectID row) (ContextAgentID row))
        (frontier_of checkpoint) (ContextInputEventSequence row))" "StartSequence g \<le> Sequence e" "Sequence e' \<le> EndSequence g"
    with planned_groups [OF ctx plan, of g] neg ev(7) fields show False by auto
  qed
qed

lemma planned_boundary:
  assumes ctx: "context_ok store checkpoint row"
    and plan: "planCompactionForContext parts store checkpoint usable fits row opening = Inr (Some plan)"
  shows "\<exists>e \<in> set (whole_source store plan). Sequence e = EventSequenceEnd plan
    \<and> compactionEventHasModelSemantics parts e \<and> settled (whole_source store plan) e
    \<and> fits (projection_summary checkpoint) (EventSequenceEnd plan + 1) = Inr True
    \<and> (opening > frontier_of checkpoint \<and> \<not> (\<exists>m \<in> set (whole_source store plan). EventKind m = KindModelOutput \<and> opening < Sequence m)
       \<longrightarrow> EventSequenceEnd plan < opening)"
  using plan
proof (rule planCompactionForContextE)
  fix events groups input cs r
  assume events: "loadContextEventsForCompaction store (ContextProjectID row) (ContextAgentID row)
       (frontier_of checkpoint) (ContextInputEventSequence row) = Inr events"
    and input: "Events input = events" "AtomicGroups input = groups"
    and verbatim: "modelCallOpeningRequiresVerbatimRetention events (frontier_of checkpoint) opening \<Longrightarrow>
       MaximumRetainFromSequence input = opening"
    and cs: "RetainFromEventSequenceCandidates parts input = Inr cs" "r \<in> set cs"
    and fit: "fits (projection_summary checkpoint) r = Inr True"
    and pc: "PlanCheckpoint \<lparr>PlanProjectID = ContextProjectID row, PlanAgentID = ContextAgentID row,
       InputEventSequence = ContextInputEventSequence row, SummarizedThroughEventSequence = frontier_of checkpoint,
       RetainFromEventSequence = r, PlanAtomicGroups = groups\<rparr> = Inr (Some plan)"
  have ends: "EventSequenceEnd plan = r - 1" using pc by (auto elim: PlanCheckpointE)
  have whole: "events = whole_source store plan"
    using events planned_fields [OF ctx plan] ctx
    by (simp add: whole_source_def context_ok_def loadContextEventsForCompaction_eq)
  have maximum: "MaximumRetainFromSequence input = opening"
    if "opening > frontier_of checkpoint" "\<not> (\<exists>m \<in> set events. EventKind m = KindModelOutput \<and> opening < Sequence m)"
    using that by (intro verbatim)
      (auto simp: modelCallOpeningRequiresVerbatimRetention_def OpeningEventsRequireVerbatimRetention_def list_ex_iff)
  obtain e where e: "e \<in> set events" "Sequence e = r - 1" "compactionEventHasModelSemantics parts e"
      "settled events e" "r \<le> MaximumRetainFromSequence input"
    using candidatesE [OF cs] unfolding input by metis
  have "EventSequenceEnd plan < opening" if "opening > frontier_of checkpoint"
    "\<not> (\<exists>m \<in> set events. EventKind m = KindModelOutput \<and> opening < Sequence m)"
    using maximum [OF that] e(5) ends by simp
  with e ends fit show ?thesis unfolding whole by (intro bexI [of _ e]) auto
qed

text \<open>The checks of a run accept what the kernel planned.\<close>

lemma planned_plan_ok:
  assumes "context_ok store checkpoint row"
    and "planCompactionForContext parts store checkpoint usable fits row opening = Inr (Some plan)"
  shows "plan_ok store plan"
  using planned_fields [OF assms] assms(1) by (simp add: plan_ok_def context_ok_def)

lemma planned_admitted:
  assumes ctx: "context_ok store checkpoint row"
    and plan: "planCompactionForContext parts store checkpoint usable fits row opening = Inr (Some plan)"
    and inside: "frontier_of checkpoint < opening" "opening \<le> ContextInputEventSequence row"
    and run: "RunPlan input = plan" "OpeningEventSequence input = opening" "RunTurnID input \<noteq> uuid_nil"
      "OpeningInputIDs input \<noteq> []" "RuntimeLockID input \<noteq> uuid_nil" "ParentModelCallContextID input \<noteq> uuid_nil"
  shows "\<exists>protect. run_admission store checkpoint input = Inr protect"
proof -
  note fields = planned_fields [OF ctx plan] and ok = planned_plan_ok [OF ctx plan]
  define protect where "protect \<longleftrightarrow> \<not> (\<exists>e \<in> set (events_between store (CheckpointProjectID plan) (CheckpointAgentID plan) opening
      (CheckpointInputEventSequence plan)). EventKind e = KindModelOutput)"
  have opens: "openingEventsRequireVerbatimRetention store plan opening = Inr protect"
    using ok by (simp add: plan_ok_def openingEventsRequireVerbatimRetention_eq protect_def)
  have "EventSequenceEnd plan < opening" if protect
    using planned_boundary [OF ctx plan] that inside(1) by (auto simp: protect_def whole_source_def)
  moreover have "validate input = Inr ()"
    using fields ok run inside ctx by (auto simp: validate_def Let_def plan_ok_def log_ok_def context_ok_def)
  moreover have "EventSequenceStart plan = (case checkpoint of None \<Rightarrow> 1 | Some (n, _) \<Rightarrow> n + 1)"
    using fields by (auto simp: frontier_of_def split: option.splits)
  ultimately have "run_admission store checkpoint input = Inr protect"
    unfolding run_admission_def using run(1,2) opens by auto
  then show ?thesis ..
qed

text \<open>Read again at the planned end, every group that starts in the source also ends there.\<close>

lemma window_group_closed:
  assumes ctx: "context_ok store checkpoint row"
    and plan: "planCompactionForContext parts store checkpoint usable fits row opening = Inr (Some plan)"
    and win: "loadCompactionBoundaryWindow parts store plan = Inr window" and g: "g \<in> set (WindowGroups window)"
  shows "EndSequence g \<le> EventSequenceEnd plan"
proof -
  note fields = planned_fields [OF ctx plan]
  let ?calls = "StoreCalls store (ContextProjectID row) (ContextAgentID row)"
    and ?es = "StoreEvents store (ContextProjectID row) (ContextAgentID row)" and ?n = "EventSequenceEnd plan"
  from win g have "g \<in> set (call_groups ?calls (EventSequenceStart plan - 1) ?n) \<union> set (opening_groups ?es (EventSequenceStart plan - 1) ?n)"
    by (elim windowE) (simp add: fields set_ListCompactionAtomicGroups)
  then consider "g \<in> set (call_groups ?calls (EventSequenceStart plan - 1) ?n)"
    | "g \<in> set (opening_groups ?es (EventSequenceStart plan - 1) ?n)" by auto
  then show ?thesis
  proof cases
    case 1
    have "\<exists>r. ResultSequence c = Some r \<and> r \<le> ?n" if "c \<in> set ?calls" "CallSequence c \<le> ?n" for c
      using planned_calls [OF ctx plan that] .
    with 1 show ?thesis by (intro call_group_end_le [OF 1]) auto
  next
    case 2
    then show ?thesis by (rule opening_group_end_le)
  qed
qed

lemma planned_end_safe:
  assumes ctx: "context_ok store checkpoint row"
    and plan: "planCompactionForContext parts store checkpoint usable fits row opening = Inr (Some plan)"
    and win: "loadCompactionBoundaryWindow parts store plan = Inr window"
  shows "EventSequenceEnd plan \<in> set (window_safe_ends parts window)"
proof -
  note fields = planned_fields [OF ctx plan] and ok = planned_plan_ok [OF ctx plan]
  let ?n = "EventSequenceEnd plan"
  have "\<not> in_group (WindowGroups window) ?n"
  proof
    assume "in_group (WindowGroups window) ?n"
    then obtain g where "g \<in> set (WindowGroups window)" "StartSequence g \<le> ?n" "?n < EndSequence g"
      by (auto simp: in_group_def list_ex_iff)
    then show False
      using window_group_closed [OF ctx plan win] by fastforce
  qed
  moreover obtain e where "e \<in> set (whole_source store plan)" "Sequence e = ?n"
      "compactionEventHasModelSemantics parts e" "settled (whole_source store plan) e"
    using planned_boundary [OF ctx plan] by blast
  moreover from this have "e \<in> set (SourceEvents window)"
    using window_source [OF ok win] by (auto simp: whole_source_def)
  ultimately show ?thesis
    using window_ordered [OF ok win]
    by (auto simp: window_safe_ends_whole [OF ok win] safe_ends_iff [OF whole_source_ordered [OF ok]])
qed

end
