(* ===== verification/Compaction_Properties.thy ===== *)
theory Compaction_Properties
  imports Compaction_Runs
begin

text \<open>
  The properties of compaction: a plan never cuts a tool call from its result or a turn's opening, the
  runner accepts what the kernel plans, the paging loops and the searches by halving agree with
  their obvious references, and a source that has to shrink does so to another safe boundary.
\<close>

section \<open>A sample history\<close>

text \<open>
  Two turns of one agent: an input, an output with a tool call, its result, the final output, and the
  opening of the next turn, which the model has not answered.
\<close>

definition sample_event :: "int \<Rightarrow> uuid \<Rightarrow> bool \<Rightarrow> event_kind \<Rightarrow> source_event" where
  "sample_event n turn is_opening kind = \<lparr>EventID = ''id'', Sequence = n, TurnID = turn, IsOpeningEvent = is_opening,
     EventKind = kind, InputKind = [], ToolName = [], ProviderCallID = [], ToolOutcome = [],
     ContentParts = ''[1]'', CreatedAt = n\<rparr>"

definition sample_events :: "source_event list" where
  "sample_events =
     [sample_event 1 ''t1'' True KindAgentInput, sample_event 2 ''t1'' False KindModelOutput,
      sample_event 3 ''t1'' False KindToolResult, sample_event 4 ''t1'' False KindModelOutput,
      sample_event 5 ''t2'' True KindAgentInput]"

definition sample_store :: compaction_store where
  "sample_store = \<lparr>StoreEvents = (\<lambda>p a. if p = ''p'' \<and> a = ''a'' then sample_events else []),
     StoreCalls = (\<lambda>p a. if p = ''p'' \<and> a = ''a'' then [\<lparr>CallSequence = 2, ResultSequence = Some 3\<rparr>] else [])\<rparr>"

definition sample_parts :: part_counter where
  "sample_parts text = (if text = ''[1]'' then Some 1 else None)"

definition sample_row :: context_row where
  "sample_row = \<lparr>ContextProjectID = ''p'', ContextAgentID = ''a'', ContextInputEventSequence = 5\<rparr>"

definition sample_plan :: checkpoint_plan where
  "sample_plan = \<lparr>CheckpointProjectID = ''p'', CheckpointAgentID = ''a'', CheckpointInputEventSequence = 5,
     EventSequenceStart = 1, EventSequenceEnd = 4\<rparr>"

definition sample_fits :: "string \<Rightarrow> int \<Rightarrow> compaction_error + bool" where
  "sample_fits summary boundary = Inr (boundary \<ge> 4)"



lemma sample_planned: "planCompactionForContext sample_parts sample_store None 4000 sample_fits sample_row 5 = Inr (Some sample_plan)"
  by code_simp

section \<open>The summary request\<close>






section \<open>Properties\<close>

text \<open>
  C7. A compaction plan covers the history right after the last checkpoint up to a boundary inside the
  frontier, and it never cuts what belongs together: every tool call up to the boundary has its
  result there too, the opening events of a turn are on one side, the boundary is a model-visible
  event that ends a settled step, and the context with the summary fits the model.
\<close>

theorem planned_source_is_closed:
  assumes "context_ok store checkpoint row"
    and "planCompactionForContext parts store checkpoint usable fits row opening = Inr (Some plan)"
  shows "EventSequenceStart plan = frontier_of checkpoint + 1
    \<and> EventSequenceStart plan \<le> EventSequenceEnd plan \<and> EventSequenceEnd plan \<le> ContextInputEventSequence row
    \<and> (\<forall>call \<in> set (StoreCalls store (ContextProjectID row) (ContextAgentID row)).
         CallSequence call \<le> EventSequenceEnd plan
           \<longrightarrow> (\<exists>r. ResultSequence call = Some r \<and> r \<le> EventSequenceEnd plan))
    \<and> (\<forall>e \<in> set (StoreEvents store (ContextProjectID row) (ContextAgentID row)).
       \<forall>e' \<in> set (StoreEvents store (ContextProjectID row) (ContextAgentID row)).
         IsOpeningEvent e \<and> IsOpeningEvent e' \<and> TurnID e = TurnID e'
           \<and> Sequence e' \<le> ContextInputEventSequence row \<and> Sequence e \<le> EventSequenceEnd plan
           \<longrightarrow> Sequence e' \<le> EventSequenceEnd plan)
    \<and> (\<exists>e \<in> set (whole_source store plan). Sequence e = EventSequenceEnd plan
         \<and> compactionEventHasModelSemantics parts e \<and> settled (whole_source store plan) e)
    \<and> fits (projection_summary checkpoint) (EventSequenceEnd plan + 1) = Inr True"
  using planned_fields [OF assms] planned_calls [OF assms] planned_openings [OF assms] planned_boundary [OF assms]
  by blast

theorem planned_source_is_closed_witness:
  "context_ok sample_store None sample_row
    \<and> planCompactionForContext sample_parts sample_store None 4000 sample_fits sample_row 5 = Inr (Some sample_plan)
    \<and> (\<exists>r. ResultSequence (hd (StoreCalls sample_store ''p'' ''a'')) = Some r \<and> r \<le> 4)"
proof -
  have ok: "context_ok sample_store None sample_row" by code_simp
  have call: "hd (StoreCalls sample_store ''p'' ''a'') \<in> set (StoreCalls sample_store ''p'' ''a'')"
    "CallSequence (hd (StoreCalls sample_store ''p'' ''a'')) \<le> 4" by code_simp+
  from planned_source_is_closed [OF ok sample_planned]
  have "\<forall>call \<in> set (StoreCalls sample_store ''p'' ''a'').
      CallSequence call \<le> 4 \<longrightarrow> (\<exists>r. ResultSequence call = Some r \<and> r \<le> 4)"
    by (simp add: sample_plan_def sample_row_def)
  with call ok sample_planned show ?thesis by blast
qed



text \<open>
  C23. The paging loops read the log exactly: over an ordered log of any length, loading the open
  history, the check of the opening and the search for remaining source give what a single pass
  over the events in the range gives, and loading a closed range succeeds exactly if no sequence is
  missing from it.
\<close>

theorem paged_reads_are_exact:
  assumes "log_ok store (CheckpointProjectID plan) (CheckpointAgentID plan)"
    and "EventSequenceStart plan \<le> EventSequenceEnd plan"
  shows "loadContextEventsForCompaction store (CheckpointProjectID plan) (CheckpointAgentID plan) n w =
      Inr (filter (\<lambda>e. n < Sequence e \<and> Sequence e \<le> w) (StoreEvents store (CheckpointProjectID plan) (CheckpointAgentID plan)))
    \<and> openingEventsRequireVerbatimRetention store plan n = Inr (\<not> (\<exists>e \<in> set (StoreEvents store (CheckpointProjectID plan) (CheckpointAgentID plan)).
         n < Sequence e \<and> Sequence e \<le> CheckpointInputEventSequence plan \<and> EventKind e = KindModelOutput))
    \<and> hasRemainingSemanticSource parts store plan n protect = Inr (\<exists>e \<in> set (StoreEvents store (CheckpointProjectID plan) (CheckpointAgentID plan)).
         EventSequenceEnd plan < Sequence e \<and> Sequence e \<le> CheckpointInputEventSequence plan
           \<and> \<not> (protect \<and> n \<le> Sequence e) \<and> compactionEventHasModelSemantics parts e)
    \<and> (loadClosedEventRange store plan = Inr out \<longleftrightarrow>
         out = filter (\<lambda>e. EventSequenceStart plan - 1 < Sequence e \<and> Sequence e \<le> EventSequenceEnd plan)
                 (StoreEvents store (CheckpointProjectID plan) (CheckpointAgentID plan))
         \<and> map Sequence out = [EventSequenceStart plan .. EventSequenceEnd plan])"
proof -
  have "loadClosedEventRange store plan = Inr out \<longleftrightarrow>
         out = filter (\<lambda>e. EventSequenceStart plan - 1 < Sequence e \<and> Sequence e \<le> EventSequenceEnd plan)
                 (StoreEvents store (CheckpointProjectID plan) (CheckpointAgentID plan))
         \<and> map Sequence out = [EventSequenceStart plan .. EventSequenceEnd plan]"
    using loadClosedEventRange_eq [OF assms, of out] by auto
  then show ?thesis
    unfolding loadContextEventsForCompaction_eq [OF assms(1)] openingEventsRequireVerbatimRetention_eq [OF assms(1)]
      hasRemainingSemanticSource_eq [OF assms(1)]
    by auto
qed

theorem paged_reads_are_exact_witness:
  "log_ok sample_store ''p'' ''a''
    \<and> loadClosedEventRange sample_store sample_plan = Inr (take 4 sample_events)"
proof -
  have ok: "log_ok sample_store (CheckpointProjectID sample_plan) (CheckpointAgentID sample_plan)"
    "EventSequenceStart sample_plan \<le> EventSequenceEnd sample_plan" by code_simp+
  have "take 4 sample_events = filter (\<lambda>e. EventSequenceStart sample_plan - 1 < Sequence e \<and> Sequence e \<le> EventSequenceEnd sample_plan)
                 (StoreEvents sample_store (CheckpointProjectID sample_plan) (CheckpointAgentID sample_plan))
         \<and> map Sequence (take 4 sample_events) = [EventSequenceStart sample_plan .. EventSequenceEnd sample_plan]"
    by code_simp
  with paged_reads_are_exact [OF ok, of 0 5 sample_parts True "take 4 sample_events"]
  have "loadClosedEventRange sample_store sample_plan = Inr (take 4 sample_events)" by blast
  with ok(1) show ?thesis by (simp add: sample_plan_def)
qed

text \<open>
  C24. The selection of the boundary is sound and complete: what it returns is one of the safe boundaries
  in the allowed range, and it returns none exactly if there is none.
\<close>

theorem selection_sound_and_complete:
  assumes "RetainFromEventSequenceCandidates parts input = Inr candidates"
  shows "\<exists>r. SelectRetainFromEventSequence parts input = Inr r
    \<and> (case r of None \<Rightarrow> candidates = [] | Some boundary \<Rightarrow> boundary \<in> set candidates)
    \<and> (\<forall>boundary \<in> set candidates. SourceEventSequenceStart input < boundary \<and> boundary \<le> MaximumRetainFromSequence input
         \<and> (\<forall>g \<in> set (AtomicGroups input). \<not> (StartSequence g < boundary \<and> boundary \<le> EndSequence g))
         \<and> (\<exists>e \<in> set (Events input). Sequence e = boundary - 1 \<and> settled (Events input) e))"
proof -
  from assms have "validateRetainBoundaryInput input = Inr ()" by (auto simp: RetainFromEventSequenceCandidates_def)
  then have "\<exists>r. SelectRetainFromEventSequence parts input = Inr r"
    by (simp add: SelectRetainFromEventSequence_def Let_def split_def)
  then obtain r where r: "SelectRetainFromEventSequence parts input = Inr r" ..
  moreover have "case r of None \<Rightarrow> candidates = [] | Some boundary \<Rightarrow> boundary \<in> set candidates"
    using r assms SelectRetain_none [of parts input] SelectRetain_candidate [of parts input]
    by (auto split: option.split)
  moreover have "SourceEventSequenceStart input < b \<and> b \<le> MaximumRetainFromSequence input
         \<and> (\<forall>g \<in> set (AtomicGroups input). \<not> (StartSequence g < b \<and> b \<le> EndSequence g))
         \<and> (\<exists>e \<in> set (Events input). Sequence e = b - 1 \<and> settled (Events input) e)" if b: "b \<in> set candidates" for b
  proof -
    obtain e where "e \<in> set (Events input)" "Sequence e = b - 1" "settled (Events input) e"
      "\<not> in_group (AtomicGroups input) (b - 1)" "SourceEventSequenceStart input \<le> b - 1" "b \<le> MaximumRetainFromSequence input"
      using candidatesE [OF assms b] by metis
    then show ?thesis by (auto simp: in_group_def list_ex_iff)
  qed
  ultimately show ?thesis by blast
qed

theorem selection_sound_and_complete_witness:
  "\<exists>r. SelectRetainFromEventSequence sample_parts
      (context_boundary_input 4000 5 0 5 sample_events [\<lparr>GroupKind = ''tool_call_result'', StartSequence = 2, EndSequence = 3\<rparr>]) = Inr (Some r)
    \<and> r \<in> {2, 4, 5}"
proof -
  have "RetainFromEventSequenceCandidates sample_parts
      (context_boundary_input 4000 5 0 5 sample_events [\<lparr>GroupKind = ''tool_call_result'', StartSequence = 2, EndSequence = 3\<rparr>])
      = Inr [2, 4, 5]" by code_simp
  from selection_sound_and_complete [OF this] show ?thesis by (auto split: option.splits)
qed





text \<open>
  C27. After a truncated summary the source strictly shrinks to another safe end of the window, and the
  run gives up exactly if the window has no smaller one; so a source can be replaced only finitely
  often.
\<close>

theorem smaller_source_is_safe:
  assumes "plan_ok store plan" "loadCompactionBoundaryWindow parts store plan = Inr window"
    and "nextSmallerSourceEnd parts render store plan = Inr n"
  shows "if \<exists>c \<in> set (window_safe_ends parts window). c < EventSequenceEnd plan
    then n \<in> set (window_safe_ends parts window) \<and> EventSequenceStart plan \<le> n \<and> n < EventSequenceEnd plan
    else n = 0"
proof -
  have "0 \<notin> set (window_safe_ends parts window)"
    using window_safe_ends_range [OF assms(1,2), of 0] assms(1) by (auto simp: plan_ok_def)
  then show ?thesis
    using nextSmallerSourceEnd_candidates [OF assms] window_safe_ends_range [OF assms(1,2)] by auto
qed

theorem smaller_source_is_safe_witness:
  "nextSmallerSourceEnd sample_parts (\<lambda>e. Inr (ContentParts e)) sample_store sample_plan = Inr 1
    \<and> (1::int) < EventSequenceEnd sample_plan"
proof -
  let ?w = "\<lparr>SourceEvents = butlast sample_events, WitnessEvents = butlast sample_events,
          WindowGroups = [\<lparr>GroupKind = ''tool_call_result'', StartSequence = 2, EndSequence = 3\<rparr>]\<rparr>"
  have 1: "plan_ok sample_store sample_plan" by code_simp
  have 2: "loadCompactionBoundaryWindow sample_parts sample_store sample_plan = Inr ?w" by code_simp
  have 3: "nextSmallerSourceEnd sample_parts (\<lambda>e. Inr (ContentParts e)) sample_store sample_plan = Inr 1" by code_simp
  have 4: "window_safe_ends sample_parts ?w = [1, 3, 4]" by code_simp
  from smaller_source_is_safe [OF 1 2 3] 3 show ?thesis unfolding 4 by (simp add: sample_plan_def)
qed

text \<open>
  The window reads the events after the source only when the source holds an unanswered input, and
  decides as if it had always read them: the safe ends are those computed with the whole open
  history as witness.
\<close>

theorem lazy_witness_is_exact:
  assumes "plan_ok store plan" "loadCompactionBoundaryWindow parts store plan = Inr window"
  shows "window_safe_ends parts window = safeCompactionSourceEndsWithWitness parts (SourceEvents window)
    (filter (\<lambda>e. EventSequenceStart plan \<le> Sequence e \<and> Sequence e \<le> CheckpointInputEventSequence plan)
      (StoreEvents store (CheckpointProjectID plan) (CheckpointAgentID plan))) (WindowGroups window)"
proof -
  have "EventSequenceStart plan - 1 < n \<longleftrightarrow> EventSequenceStart plan \<le> n" for n by auto
  then show ?thesis using window_safe_ends_whole [OF assms] by (simp add: whole_source_def)
qed

theorem lazy_witness_is_exact_witness:
  "safeCompactionSourceEndsWithWitness sample_parts [sample_event 1 ''t1'' True KindAgentInput] sample_events [] = [1]"
proof -
  let ?plan = "sample_plan\<lparr>EventSequenceEnd := 1\<rparr>"
  let ?w = "\<lparr>SourceEvents = [sample_event 1 ''t1'' True KindAgentInput], WitnessEvents = sample_events, WindowGroups = []\<rparr>"
  have 1: "plan_ok sample_store ?plan" by code_simp
  have 2: "loadCompactionBoundaryWindow sample_parts sample_store ?plan = Inr ?w" by code_simp
  have 3: "window_safe_ends sample_parts ?w = [1]" by code_simp
  have 4: "filter (\<lambda>e. EventSequenceStart ?plan \<le> Sequence e \<and> Sequence e \<le> CheckpointInputEventSequence ?plan)
      (StoreEvents sample_store (CheckpointProjectID ?plan) (CheckpointAgentID ?plan)) = sample_events" by code_simp
  from lazy_witness_is_exact [OF 1 2] show ?thesis unfolding 3 4 by simp
qed

end
