(* ===== verification/Public_Id.thy ===== *)
theory Public_Id
  imports Omnara_Prelude
begin

text \<open>
  Public identifiers (\<open>src/internal/publicid/publicid.go\<close>): a kind prefix, an underscore and the base32 text
  of a 16-byte UUID, and their decoding.

  A byte is a \<open>char\<close>.  Base32 is \<open>encoding/base32\<close> with the lower-case alphabet and no padding: five
  bits per character, most significant first, the last group filled with zeros.  Decoding drops
  line breaks first, and a group of characters that no byte count produces yields no bytes, as in the
  library.
\<close>

section \<open>Base32 without padding\<close>

definition byte_bits :: "char \<Rightarrow> bool list" where
  "byte_bits c = [digit7 c, digit6 c, digit5 c, digit4 c, digit3 c, digit2 c, digit1 c, digit0 c]"

fun bits_byte :: "bool list \<Rightarrow> char" where
  "bits_byte [b7, b6, b5, b4, b3, b2, b1, b0] = Char b0 b1 b2 b3 b4 b5 b6 b7"
| "bits_byte _ = CHR 0x00"

definition base32_alphabet :: string where
  "base32_alphabet = ''abcdefghijklmnopqrstuvwxyz234567''"

fun bits_value :: "bool list \<Rightarrow> nat" where
  "bits_value [] = 0"
| "bits_value (b # bs) = (if b then 2 ^ length bs else 0) + bits_value bs"

fun value_bits :: "nat \<Rightarrow> nat \<Rightarrow> bool list" where
  "value_bits 0 n = []"
| "value_bits (Suc k) n = (2 ^ k \<le> n mod 2 ^ Suc k) # value_bits k n"

fun chunks :: "nat \<Rightarrow> 'a list \<Rightarrow> 'a list list" where
  "chunks 0 xs = []"
| "chunks k [] = []"
| "chunks k xs = take k xs # chunks k (drop k xs)"

definition fill :: "nat \<Rightarrow> bool list \<Rightarrow> bool list" where
  "fill k bs = bs @ replicate (k - length bs) False"

definition EncodeToString :: "string \<Rightarrow> string" where
  "EncodeToString bytes =
     map (\<lambda>group. base32_alphabet ! bits_value (fill 5 group)) (chunks 5 (concat (map byte_bits bytes)))"

definition alphabet_index :: "char \<Rightarrow> nat option" where
  "alphabet_index c = map_of (zip base32_alphabet [0..<32]) c"

text \<open>The number of bytes a group of up to eight characters holds.\<close>

definition quantum_bytes :: "nat \<Rightarrow> nat" where
  "quantum_bytes n = (if n = 8 then 5 else if n = 7 then 4 else if n = 5 then 3 else if n = 4 then 2
     else if n = 2 then 1 else 0)"

definition decode_quantum :: "nat list \<Rightarrow> string" where
  "decode_quantum vs =
     map bits_byte (take (quantum_bytes (length vs)) (chunks 8 (concat (map (value_bits 5) vs))))"

definition DecodeString :: "string \<Rightarrow> string option" where
  "DecodeString text =
     (let text = filter (\<lambda>c. c \<noteq> CHR 0x0A \<and> c \<noteq> CHR 0x0D) text;
          values = map alphabet_index text
      in if None \<in> set values then None
         else Some (concat (map decode_quantum (chunks 8 (map the values)))))"

section \<open>Kinds and identifiers\<close>

datatype kind =
    KindOrganization | KindInstallation | KindUser | KindActor | KindProject | KindAgent | KindAgentConfig
  | KindAgentProfile | KindCronTrigger | KindIntegrationInstall | KindIntegrationTarget | KindAgentEvent
  | KindAgentInputId | KindAgentMachineBinding | KindAgentTurn | KindAgentInteraction | KindModelCallContext
  | KindContextCheckpointId | KindToolCall | KindMachinePool | KindMachine | KindMachineDaemonToken
  | KindDaemonRuntime | KindProjectMachineGrant | KindProjectMachinePoolGrant | KindProcess
  | KindProcessAction | KindArtifact | KindPersonalAccessToken | KindOrgInvitation | KindSecret
  | KindSecretGrant | KindModelProviderConfig | KindConfiguredModel | KindConfiguredModelRevision
  | KindProjectModelGrant | KindSkill | KindSkillRevision | KindSkillGrant | KindOrgAPIKey
  | KindMCPOAuthFlow | KindIntegrationOAuthFlow | KindUnknown string

definition kindPrefixes :: "(kind \<times> string) list" where
  "kindPrefixes =
     [(KindOrganization, ''org''), (KindInstallation, ''inst''), (KindUser, ''usr''), (KindActor, ''actr''),
      (KindProject, ''proj''), (KindAgent, ''agt''), (KindAgentConfig, ''acfg''), (KindAgentProfile, ''aprf''),
      (KindCronTrigger, ''cron''), (KindIntegrationInstall, ''iin''), (KindIntegrationTarget, ''itgt''),
      (KindAgentEvent, ''evt''), (KindAgentInputId, ''ain''), (KindAgentMachineBinding, ''amb''),
      (KindAgentTurn, ''trn''), (KindAgentInteraction, ''int''), (KindModelCallContext, ''mcc''),
      (KindContextCheckpointId, ''ccp''), (KindToolCall, ''tcl''), (KindMachinePool, ''mpo''),
      (KindMachine, ''mch''), (KindMachineDaemonToken, ''mdt''), (KindDaemonRuntime, ''drt''),
      (KindProjectMachineGrant, ''pmg''), (KindProjectMachinePoolGrant, ''pmpg''), (KindProcess, ''prc''),
      (KindProcessAction, ''pac''), (KindArtifact, ''art''), (KindPersonalAccessToken, ''pat''),
      (KindOrgInvitation, ''oinv''), (KindSecret, ''sec''), (KindSecretGrant, ''sgr''),
      (KindModelProviderConfig, ''mpc''), (KindConfiguredModel, ''mdl''), (KindConfiguredModelRevision, ''mrev''),
      (KindProjectModelGrant, ''pmog''), (KindSkill, ''skl''), (KindSkillRevision, ''skr''),
      (KindSkillGrant, ''skg''), (KindOrgAPIKey, ''oak''), (KindMCPOAuthFlow, ''moaf''),
      (KindIntegrationOAuthFlow, ''ioaf'')]"

datatype public_id_error =
    ErrMalformed
  | ErrNilUUID
  | ErrUnknownKind kind
  | WrongPrefixError string string

definition nil_uuid :: string where
  "nil_uuid = replicate 16 (CHR 0x00)"

definition Prefix :: "kind \<Rightarrow> string option" where
  "Prefix kind = map_of kindPrefixes kind"

definition Encode :: "kind \<Rightarrow> string \<Rightarrow> public_id_error + string" where
  "Encode kind uuid =
     (if uuid = nil_uuid then Inl ErrNilUUID
      else case Prefix kind of
             None \<Rightarrow> Inl (ErrUnknownKind kind)
           | Some prefix \<Rightarrow> Inr (prefix @ ''_'' @ EncodeToString uuid))"

text \<open>\<open>strings.Cut\<close> at the first underscore.\<close>

fun cut_underscore :: "string \<Rightarrow> (string \<times> string) option" where
  "cut_underscore [] = None"
| "cut_underscore (c # cs) =
     (if c = CHR ''_'' then Some ([], cs)
      else map_option (\<lambda>(before, after). (c # before, after)) (cut_underscore cs))"

definition Decode :: "kind \<Rightarrow> string \<Rightarrow> public_id_error + string" where
  "Decode kind value =
     (case Prefix kind of
        None \<Rightarrow> Inl (ErrUnknownKind kind)
      | Some prefix \<Rightarrow>
          (case cut_underscore value of
             None \<Rightarrow> Inl ErrMalformed
           | Some (got, token) \<Rightarrow>
               if got = [] \<or> token = [] then Inl ErrMalformed
               else if got \<noteq> prefix then Inl (WrongPrefixError prefix got)
               else if length token \<noteq> 26 then Inl ErrMalformed
               else case DecodeString token of
                      None \<Rightarrow> Inl ErrMalformed
                    | Some raw \<Rightarrow>
                        if length raw \<noteq> 16 \<or> EncodeToString raw \<noteq> token then Inl ErrMalformed
                        else if raw = nil_uuid then Inl ErrNilUUID
                        else Inr raw))"

section \<open>Base32 round trip\<close>

lemma byte_bits_byte [simp]: "bits_byte (byte_bits c) = c"
  by (cases c) (simp add: byte_bits_def)

lemma length_byte_bits [simp]: "length (byte_bits c) = 8"
  by (simp add: byte_bits_def)

lemma bits_value_less: "bits_value bs < 2 ^ length bs"
  by (induction bs) auto

lemma value_bits_value: "value_bits (length bs) (m * 2 ^ length bs + bits_value bs) = bs"
proof (induction bs arbitrary: m)
  case (Cons b bs)
  have "(m * 2 ^ length (b # bs) + bits_value (b # bs)) mod 2 ^ Suc (length bs) = bits_value (b # bs)"
    using bits_value_less [of "b # bs"] by simp
  moreover have "m * 2 ^ length (b # bs) + bits_value (b # bs) = (2 * m + of_bool b) * 2 ^ length bs + bits_value bs"
    by (auto simp: algebra_simps)
  ultimately show ?case
    using Cons [of "2 * m + of_bool b"] bits_value_less [of bs] by (auto simp: algebra_simps)
qed simp

lemma value_bits_list: "value_bits (Suc (Suc (Suc (Suc (Suc 0))))) (bits_value [a, b, c, d, e]) = [a, b, c, d, e]"
  using value_bits_value [of "[a, b, c, d, e]" 0] by (simp del: bits_value.simps value_bits.simps)

lemma length_fill: "length bs \<le> k \<Longrightarrow> length (fill k bs) = k"
  by (simp add: fill_def)

lemma chunks_length: "0 < k \<Longrightarrow> g \<in> set (chunks k xs) \<Longrightarrow> length g \<le> k"
  by (induction k xs rule: chunks.induct) auto

lemma alphabet_distinct: "distinct base32_alphabet" "length base32_alphabet = 32"
  by (simp_all add: base32_alphabet_def)

lemma alphabet_index_nth: "v < 32 \<Longrightarrow> alphabet_index (base32_alphabet ! v) = Some v"
  using alphabet_distinct by (simp add: alphabet_index_def map_of_zip_nth)

lemma alphabet_no_break: "v < 32 \<Longrightarrow> base32_alphabet ! v \<noteq> CHR 0x0A \<and> base32_alphabet ! v \<noteq> CHR 0x0D"
proof -
  have "list_all (\<lambda>c. c \<noteq> CHR 0x0A \<and> c \<noteq> CHR 0x0D \<and> c \<noteq> CHR ''_'') base32_alphabet" by code_simp
  then show "v < 32 \<Longrightarrow> ?thesis" using alphabet_distinct(2) by (simp add: list_all_length)
qed

abbreviation groups_of :: "string \<Rightarrow> bool list list" where
  "groups_of bytes \<equiv> map (fill 5) (chunks 5 (concat (map byte_bits bytes)))"

lemma group_length: "g \<in> set (groups_of bytes) \<Longrightarrow> length g = 5"
  by (auto simp: chunks_length length_fill)

lemma group_value: "g \<in> set (groups_of bytes) \<Longrightarrow> bits_value g < 32"
  using bits_value_less [of g] group_length [of g bytes] by simp

lemma EncodeToString_groups: "EncodeToString bytes = map (\<lambda>g. base32_alphabet ! bits_value g) (groups_of bytes)"
  by (simp add: EncodeToString_def)

lemma DecodeString_values:
  assumes "filter (\<lambda>c. c \<noteq> CHR 0x0A \<and> c \<noteq> CHR 0x0D) text = text" "map alphabet_index text = map Some vs"
  shows "DecodeString text = Some (concat (map decode_quantum (chunks 8 vs)))"
  unfolding DecodeString_def Let_def assms by (auto simp: comp_def)

lemma DecodeString_EncodeToString:
  "DecodeString (EncodeToString bytes) = Some (concat (map decode_quantum (chunks 8 (map bits_value (groups_of bytes)))))"
proof -
  let ?text = "map (\<lambda>g. base32_alphabet ! bits_value g) (groups_of bytes)"
  have "filter (\<lambda>c. c \<noteq> CHR 0x0A \<and> c \<noteq> CHR 0x0D) ?text = ?text"
    using group_value alphabet_no_break by (intro filter_True) auto
  moreover have "map alphabet_index ?text = map Some (map bits_value (groups_of bytes))"
    using group_value alphabet_index_nth by (auto simp: comp_def)
  ultimately show ?thesis
    unfolding EncodeToString_groups by (rule DecodeString_values)
qed

text \<open>The bits come back group by group: of sixteen bytes the last group of characters keeps three bits.\<close>

lemma decode_groups_16:
  assumes "length bytes = 16"
  shows "concat (map decode_quantum (chunks 8 (map bits_value (groups_of bytes)))) = bytes
    \<and> length (groups_of bytes) = 26"
proof -
  obtain c0 c1 c2 c3 c4 c5 c6 c7 c8 c9 ca cb cc cd ce cf where
    bytes: "bytes = [c0, c1, c2, c3, c4, c5, c6, c7, c8, c9, ca, cb, cc, cd, ce, cf]"
    using assms by (auto simp: numeral_eq_Suc length_Suc_conv)
  show ?thesis
    unfolding bytes
    by (simp add: byte_bits_def fill_def numeral_eq_Suc decode_quantum_def quantum_bytes_def
        value_bits_list del: bits_value.simps value_bits.simps)
qed

lemma EncodeToString_16:
  assumes "length bytes = 16"
  shows "DecodeString (EncodeToString bytes) = Some bytes" "length (EncodeToString bytes) = 26"
  using decode_groups_16 [OF assms] by (simp add: DecodeString_EncodeToString, simp add: EncodeToString_groups)

section \<open>Prefixes\<close>

lemma cut_underscore_append: "CHR ''_'' \<notin> set p \<Longrightarrow> cut_underscore (p @ ''_'' @ t) = Some (p, t)"
  by (induction p) auto

lemma cut_underscore_Some: "cut_underscore v = Some (p, t) \<Longrightarrow> v = p @ ''_'' @ t"
  by (induction v arbitrary: p) (auto split: if_splits)

lemma Prefix_wf: "Prefix kind = Some p \<Longrightarrow> p \<noteq> [] \<and> CHR ''_'' \<notin> set p"
proof -
  have "\<forall>p \<in> set (map snd kindPrefixes). p \<noteq> [] \<and> CHR ''_'' \<notin> set p" by code_simp
  then show "Prefix kind = Some p \<Longrightarrow> ?thesis" by (auto simp: Prefix_def dest!: map_of_SomeD)
qed

lemma Prefix_inj:
  assumes "Prefix kind = Some p" "Prefix kind' = Some p"
  shows "kind = kind'"
proof -
  have "distinct (map snd kindPrefixes)" by code_simp
  moreover have "(kind, p) \<in> set kindPrefixes" "(kind', p) \<in> set kindPrefixes"
    using assms by (auto simp: Prefix_def dest: map_of_SomeD)
  ultimately show ?thesis by (auto dest: distinct_map_eq)
qed

section \<open>Round trip\<close>

text \<open>
  C28. Public identifiers round trip: for a UUID and a kind, the text that encodes it is the only text that
  decodes to it, and under any other known kind that text is refused for its prefix.
\<close>

theorem public_id_round_trip:
  assumes "length uuid = 16"
  shows "(Encode kind uuid = Inr text \<longleftrightarrow> Decode kind text = Inr uuid)
    \<and> (Encode kind uuid = Inr text \<and> kind' \<noteq> kind \<and> Prefix kind' = Some prefix
        \<longrightarrow> (\<exists>got. Decode kind' text = Inl (WrongPrefixError prefix got)))"
proof -
  note token = EncodeToString_16 [OF assms]
  have ne: "EncodeToString uuid \<noteq> []" using token(2) by auto
  have "Decode kind text = Inr uuid" if "Encode kind uuid = Inr text"
  proof -
    from that obtain p where p: "Prefix kind = Some p" "text = p @ ''_'' @ EncodeToString uuid" "uuid \<noteq> nil_uuid"
      by (auto simp: Encode_def split: if_splits option.splits)
    have "cut_underscore text = Some (p, EncodeToString uuid)"
      unfolding p(2) by (rule cut_underscore_append) (use Prefix_wf [OF p(1)] in simp)
    with p ne token assms Prefix_wf [OF p(1)] show ?thesis by (simp add: Decode_def)
  qed
  moreover have "Encode kind uuid = Inr text" if "Decode kind text = Inr uuid"
    using that by (auto simp: Encode_def Decode_def dest!: cut_underscore_Some split: if_splits option.splits)
  moreover have "\<exists>got. Decode kind' text = Inl (WrongPrefixError prefix got)"
    if enc: "Encode kind uuid = Inr text" and kind: "kind' \<noteq> kind" "Prefix kind' = Some prefix"
  proof -
    from enc obtain p where p: "Prefix kind = Some p" "text = p @ ''_'' @ EncodeToString uuid"
      by (auto simp: Encode_def split: if_splits option.splits)
    have "p \<noteq> prefix" using p(1) kind Prefix_inj by blast
    moreover have "cut_underscore text = Some (p, EncodeToString uuid)"
      unfolding p(2) by (rule cut_underscore_append) (use Prefix_wf [OF p(1)] in simp)
    ultimately show ?thesis using kind(2) ne Prefix_wf [OF p(1)] by (simp add: Decode_def)
  qed
  ultimately show ?thesis by blast
qed

theorem public_id_round_trip_witness:
  "Decode KindAgent ''agt_mfrggzdfmztwq2lknnwg23tpoa'' = Inr ''abcdefghijklmnop''"
proof -
  have 1: "length ''abcdefghijklmnop'' = 16" by simp
  have "Encode KindAgent ''abcdefghijklmnop'' = Inr ''agt_mfrggzdfmztwq2lknnwg23tpoa''" by code_simp
  with public_id_round_trip [OF 1, of KindAgent "''agt_mfrggzdfmztwq2lknnwg23tpoa''"] show ?thesis by blast
qed

end
