(* ===== verification/Bearer_Token.thy ===== *)
theory Bearer_Token
  imports Omnara_Prelude "HOL-Library.Word"
begin

text \<open>
  Bearer tokens (\<open>src/internal/bearertoken/token.go\<close>): a versioned prefix per kind, 43 base62 characters of
  secret, an underscore and six base62 characters of the CRC-32 of everything before.

  The checksum is \<open>hash/crc32\<close> with the IEEE polynomial in its reflected form, on 32-bit words.  A random
  source is the list of its reads, each the bytes it returned and whether it returned an error; \<open>None\<close>
  means the generator is still waiting for a read.
\<close>

unbundle bit_operations_syntax

section \<open>The checksum\<close>

definition crc_bit :: "32 word \<Rightarrow> 32 word" where
  "crc_bit x = (if bit x 0 then drop_bit 1 x XOR 0xEDB88320 else drop_bit 1 x)"

definition crc_byte :: "char \<Rightarrow> 32 word \<Rightarrow> 32 word" where
  "crc_byte c x = (crc_bit ^^ 8) (x XOR of_char c)"

definition ChecksumIEEE :: "string \<Rightarrow> 32 word" where
  "ChecksumIEEE body = NOT (fold crc_byte body (NOT 0))"

section \<open>Tokens\<close>

datatype token_kind = KindPersonalAccess | KindOrganizationToken | KindDaemon | KindOAuthAccess | KindOtherToken string

datatype token_error =
    ErrTokenKind token_kind
  | ErrTokenVersion
  | ErrTokenLength
  | ErrTokenSeparator
  | ErrPartLength string nat
  | ErrPartCharacter string
  | ErrTokenChecksum
  | ErrWantedKind token_kind token_kind
  | ErrRandomSource
  | ErrNoProgress

definition token_alphabet :: string where
  "token_alphabet = ''0123456789ABCDEFGHIJKLMNOPQRSTUVWXYZabcdefghijklmnopqrstuvwxyz''"

definition secretLength :: nat where
  "secretLength = 43"

definition checksumLength :: nat where
  "checksumLength = 6"


definition personalAccessPrefix :: string where
  "personalAccessPrefix = ''omnara_pat_v1_''"

definition organizationPrefix :: string where
  "organizationPrefix = ''omnara_org_v1_''"

definition daemonPrefix :: string where
  "daemonPrefix = ''omnara_daemon_v1_''"

definition oauthAccessPrefix :: string where
  "oauthAccessPrefix = ''omnara_oauth_v1_''"

definition prefixForKind :: "token_kind \<Rightarrow> string option" where
  "prefixForKind kind =
     (case kind of
        KindPersonalAccess \<Rightarrow> Some personalAccessPrefix
      | KindOrganizationToken \<Rightarrow> Some organizationPrefix
      | KindDaemon \<Rightarrow> Some daemonPrefix
      | KindOAuthAccess \<Rightarrow> Some oauthAccessPrefix
      | KindOtherToken _ \<Rightarrow> None)"

definition has_prefix :: "string \<Rightarrow> string \<Rightarrow> bool" where
  "has_prefix text prefix \<longleftrightarrow> take (length prefix) text = prefix"

definition kindAndPrefix :: "string \<Rightarrow> (token_kind \<times> string) option" where
  "kindAndPrefix token =
     (if has_prefix token personalAccessPrefix then Some (KindPersonalAccess, personalAccessPrefix)
      else if has_prefix token organizationPrefix then Some (KindOrganizationToken, organizationPrefix)
      else if has_prefix token daemonPrefix then Some (KindDaemon, daemonPrefix)
      else if has_prefix token oauthAccessPrefix then Some (KindOAuthAccess, oauthAccessPrefix)
      else None)"

definition base62 :: "char \<Rightarrow> bool" where
  "base62 c \<longleftrightarrow> (let n = of_char c :: nat
     in of_char (CHR ''0'') \<le> n \<and> n \<le> of_char (CHR ''9'')
        \<or> of_char (CHR ''A'') \<le> n \<and> n \<le> of_char (CHR ''Z'')
        \<or> of_char (CHR ''a'') \<le> n \<and> n \<le> of_char (CHR ''z''))"

definition validateBase62 :: "string \<Rightarrow> nat \<Rightarrow> string \<Rightarrow> token_error + unit" where
  "validateBase62 value len part =
     (if length value \<noteq> len then Inl (ErrPartLength part len)
      else if \<not> list_all base62 value then Inl (ErrPartCharacter part)
      else Inr ())"

fun base62_digits :: "nat \<Rightarrow> nat \<Rightarrow> string" where
  "base62_digits 0 value = []"
| "base62_digits (Suc i) value = base62_digits i (value div 62) @ [token_alphabet ! (value mod 62)]"

definition encodeChecksum :: "32 word \<Rightarrow> string" where
  "encodeChecksum value = base62_digits checksumLength (unat value)"

definition format :: "token_kind \<Rightarrow> string \<Rightarrow> token_error + string" where
  "format kind secret =
     (case prefixForKind kind of
        None \<Rightarrow> Inl (ErrTokenKind kind)
      | Some prefix \<Rightarrow>
          bindE (validateBase62 secret secretLength ''secret'') (\<lambda>_.
            let body = prefix @ secret
            in Inr (body @ ''_'' @ encodeChecksum (ChecksumIEEE body))))"

definition Parse :: "string \<Rightarrow> token_error + token_kind" where
  "Parse token =
     (case kindAndPrefix token of
        None \<Rightarrow> Inl ErrTokenVersion
      | Some (kind, prefix) \<Rightarrow>
          if length token \<noteq> length prefix + secretLength + 1 + checksumLength then Inl ErrTokenLength
          else
            let separator = length prefix + secretLength
            in if token ! separator \<noteq> CHR ''_'' then Inl ErrTokenSeparator
               else
                 bindE (validateBase62 (drop (length prefix) (take separator token)) secretLength ''secret'') (\<lambda>_.
                 let presented = drop (separator + 1) token in
                 bindE (validateBase62 presented checksumLength ''checksum'') (\<lambda>_.
                 if presented \<noteq> encodeChecksum (ChecksumIEEE (take separator token)) then Inl ErrTokenChecksum
                 else Inr kind)))"

definition Validate :: "string \<Rightarrow> token_kind \<Rightarrow> token_error + unit" where
  "Validate token want =
     bindE (Parse token) (\<lambda>kind. if kind \<noteq> want then Inl (ErrWantedKind kind want) else Inr ())"

section \<open>Generation\<close>





section \<open>The checksum detects a changed character\<close>

lemma crc_bit_top: "bit (crc_bit x) 31 \<longleftrightarrow> bit x 0"
  by (auto simp: crc_bit_def bit_xor_iff bit_drop_bit_eq dest: bit_imp_le_length)

lemma crc_bit_inj: "crc_bit x = crc_bit y \<Longrightarrow> x = y"
proof -
  assume eq: "crc_bit x = crc_bit y"
  then have low: "bit x 0 \<longleftrightarrow> bit y 0" using crc_bit_top [of x] crc_bit_top [of y] by simp
  have "drop_bit 1 x = drop_bit 1 y"
  proof (cases "bit x 0")
    case True
    with eq low have "(drop_bit 1 x XOR 0xEDB88320) XOR 0xEDB88320 = (drop_bit 1 y XOR 0xEDB88320) XOR 0xEDB88320"
      by (simp only: crc_bit_def if_True)
    then show ?thesis by (simp only: xor.assoc xor_self_eq xor.right_neutral)
  next
    case False
    with eq low show ?thesis by (simp add: crc_bit_def)
  qed
  then have "bit x (Suc n) \<longleftrightarrow> bit y (Suc n)" for n
    by (metis bit_drop_bit_eq comp_apply plus_1_eq_Suc)
  with low show "x = y" by (metis bit_eqI not0_implies_Suc)
qed

lemma crc_bits_inj: "(crc_bit ^^ n) x = (crc_bit ^^ n) y \<Longrightarrow> x = y"
  by (induction n) (auto dest: crc_bit_inj)

lemma xor_cancel: "(x :: 32 word) XOR z = y XOR z \<Longrightarrow> x = y"
  by (metis xor.assoc xor.right_neutral xor_self_eq)

lemma crc_byte_inj_state: "crc_byte c x = crc_byte c y \<Longrightarrow> x = y"
  unfolding crc_byte_def by (drule crc_bits_inj) (rule xor_cancel)

lemma of_char_word_inj: "(of_char c :: 32 word) = of_char d \<Longrightarrow> c = d"
proof -
  assume "(of_char c :: 32 word) = of_char d"
  then have "unat (of_nat (of_char c) :: 32 word) = unat (of_nat (of_char d) :: 32 word)"
    by (simp only: of_nat_of_char)
  moreover have "of_char x < (256 :: nat)" for x
    by (metis mod_less_divisor of_char_mod_256 zero_less_numeral)
  then have "of_char x mod 2 ^ 32 = (of_char x :: nat)" for x
    by (intro mod_less) (rule less_le_trans, assumption, simp)
  ultimately show "c = d" by (simp add: unat_of_nat)
qed

lemma crc_byte_inj_char: "crc_byte c x = crc_byte d x \<Longrightarrow> c = d"
  unfolding crc_byte_def by (drule crc_bits_inj) (metis of_char_word_inj xor.commute xor_cancel)

lemma crc_fold_inj: "fold crc_byte s x = fold crc_byte s y \<Longrightarrow> x = y"
  by (induction s arbitrary: x y) (auto dest: crc_byte_inj_state)

lemma ChecksumIEEE_changed:
  assumes "i < length s" "c \<noteq> s ! i"
  shows "ChecksumIEEE (s[i := c]) \<noteq> ChecksumIEEE s"
proof
  assume "ChecksumIEEE (s[i := c]) = ChecksumIEEE s"
  then have "fold crc_byte (s[i := c]) (NOT 0) = fold crc_byte s (NOT 0)"
    unfolding ChecksumIEEE_def by (metis bit.double_compl)
  moreover have "s = take i s @ s ! i # drop (Suc i) s" "s[i := c] = take i s @ c # drop (Suc i) s"
    using assms(1) by (simp_all add: id_take_nth_drop upd_conv_take_nth_drop)
  ultimately have "fold crc_byte (take i s @ c # drop (Suc i) s) (NOT 0)
      = fold crc_byte (take i s @ s ! i # drop (Suc i) s) (NOT 0)" by metis
  then have "crc_byte c (fold crc_byte (take i s) (NOT 0)) = crc_byte (s ! i) (fold crc_byte (take i s) (NOT 0))"
    by (auto dest: crc_fold_inj)
  with assms(2) show False by (auto dest: crc_byte_inj_char)
qed

section \<open>Base62\<close>

lemma token_alphabet_facts: "length token_alphabet = 62" "distinct token_alphabet" "list_all base62 token_alphabet"
  by code_simp+

lemma alphabet_base62: "n < 62 \<Longrightarrow> base62 (token_alphabet ! n)"
  using token_alphabet_facts by (simp add: list_all_length)

lemma base62_digits_wf: "length (base62_digits k n) = k \<and> list_all base62 (base62_digits k n)"
  by (induction k n rule: base62_digits.induct) (auto simp: alphabet_base62)

lemma base62_digits_inj:
  "base62_digits k n = base62_digits k m \<Longrightarrow> n < 62 ^ k \<Longrightarrow> m < 62 ^ k \<Longrightarrow> n = m"
proof (induction k arbitrary: n m)
  case (Suc k)
  then have "base62_digits k (n div 62) = base62_digits k (m div 62)"
    and "token_alphabet ! (n mod 62) = token_alphabet ! (m mod 62)"
    by (simp_all add: append_eq_append_conv base62_digits_wf)
  moreover have "n div 62 < 62 ^ k" "m div 62 < 62 ^ k"
    using Suc.prems by (auto simp: less_mult_imp_div_less mult.commute)
  ultimately have "n div 62 = m div 62" "n mod 62 = m mod 62"
    using Suc.IH token_alphabet_facts by (auto simp: nth_eq_iff_index_eq)
  then show ?case by (metis div_mult_mod_eq)
qed simp

lemma encodeChecksum_inj: "encodeChecksum v = encodeChecksum w \<Longrightarrow> v = w"
proof -
  have "unat x < 2 ^ LENGTH(32)" for x :: "32 word" by (rule unsigned_less)
  then have "unat x < 62 ^ 6" for x :: "32 word" by (rule less_le_trans) simp
  then show "encodeChecksum v = encodeChecksum w \<Longrightarrow> v = w"
    using base62_digits_inj [of 6 "unat v" "unat w"] by (simp add: encodeChecksum_def checksumLength_def unsigned_word_eqI)
qed

lemma validateBase62_ok: "validateBase62 v n part = Inr u \<longleftrightarrow> length v = n \<and> list_all base62 v"
  by (simp add: validateBase62_def)

section \<open>What is accepted\<close>

lemmas token_prefix_defs = personalAccessPrefix_def organizationPrefix_def daemonPrefix_def oauthAccessPrefix_def

lemma has_prefix_take: "has_prefix t p \<Longrightarrow> n \<le> length p \<Longrightarrow> take n t = take n p"
  by (metis has_prefix_def min.absorb1 take_take)

lemma prefixForKind_length: "prefixForKind kind = Some p \<Longrightarrow> 9 \<le> length p"
  by (cases kind) (auto simp: prefixForKind_def token_prefix_defs)

lemma prefixForKind_inj:
  "prefixForKind kind = Some p \<Longrightarrow> prefixForKind kind' = Some p' \<Longrightarrow> take 9 p = take 9 p' \<Longrightarrow> kind = kind'"
  by (cases kind; cases kind') (auto simp: prefixForKind_def token_prefix_defs)

lemma kindAndPrefix_Some:
  "kindAndPrefix token = Some (kind, prefix) \<Longrightarrow> prefixForKind kind = Some prefix \<and> has_prefix token prefix"
  by (auto simp: kindAndPrefix_def prefixForKind_def split: if_splits)

lemma kindAndPrefix_eq:
  "kindAndPrefix token = Some (kind, prefix) \<longleftrightarrow> prefixForKind kind = Some prefix \<and> has_prefix token prefix"
proof
  assume *: "prefixForKind kind = Some prefix \<and> has_prefix token prefix"
  then have "kindAndPrefix token \<noteq> None"
    by (cases kind) (auto simp: kindAndPrefix_def prefixForKind_def)
  then obtain kind' prefix' where found: "kindAndPrefix token = Some (kind', prefix')" by auto
  with kindAndPrefix_Some have p': "prefixForKind kind' = Some prefix'" "has_prefix token prefix'" by blast+
  have "take 9 prefix = take 9 prefix'"
    using * p' has_prefix_take prefixForKind_length by metis
  with * p' have "kind = kind'" using prefixForKind_inj by blast
  with * p' found show "kindAndPrefix token = Some (kind, prefix)" by simp
qed (rule kindAndPrefix_Some)

text \<open>The tokens \<open>Parse\<close> accepts are exactly those \<open>format\<close> produces.\<close>

lemma format_eq:
  "format kind secret = Inr token \<longleftrightarrow> (\<exists>prefix. prefixForKind kind = Some prefix
     \<and> length secret = secretLength \<and> list_all base62 secret
     \<and> token = prefix @ secret @ ''_'' @ encodeChecksum (ChecksumIEEE (prefix @ secret)))"
  by (auto simp: format_def Let_def validateBase62_ok split: option.splits)

lemma Parse_eq:
  "Parse token = Inr kind \<longleftrightarrow> (\<exists>secret. format kind secret = Inr token)"
proof
  assume "Parse token = Inr kind"
  then obtain prefix where p: "prefixForKind kind = Some prefix" "has_prefix token prefix"
    and parse: "length token = length prefix + secretLength + 1 + checksumLength"
      "token ! (length prefix + secretLength) = CHR ''_''"
      "list_all base62 (drop (length prefix) (take (length prefix + secretLength) token))"
      "drop (length prefix + secretLength + 1) token = encodeChecksum (ChecksumIEEE (take (length prefix + secretLength) token))"
    by (auto simp: Parse_def Let_def validateBase62_ok kindAndPrefix_eq split: option.splits if_splits)
  define body where "body = take (length prefix + secretLength) token"
  define secret where "secret = drop (length prefix) body"
  have "take (length prefix) body = prefix" using p(2) by (simp add: body_def has_prefix_def)
  then have body: "body = prefix @ secret" unfolding secret_def by (metis append_take_drop_id)
  have "token = body @ token ! (length prefix + secretLength) # drop (length prefix + secretLength + 1) token"
    unfolding body_def using parse(1) by (simp add: id_take_nth_drop)
  then have "token = prefix @ secret @ ''_'' @ encodeChecksum (ChecksumIEEE (prefix @ secret))"
    using parse(2,4) body body_def by simp
  moreover have "length secret = secretLength" using parse(1) by (simp add: secret_def body_def)
  moreover have "list_all base62 secret" using parse(3) by (simp add: secret_def body_def)
  ultimately have "format kind secret = Inr token" using p(1) by (simp add: format_eq)
  then show "\<exists>secret. format kind secret = Inr token" ..
next
  assume "\<exists>secret. format kind secret = Inr token"
  then obtain secret prefix where p: "prefixForKind kind = Some prefix" "length secret = secretLength" "list_all base62 secret"
    "token = prefix @ secret @ ''_'' @ encodeChecksum (ChecksumIEEE (prefix @ secret))"
    by (auto simp: format_eq)
  have "kindAndPrefix token = Some (kind, prefix)"
    using p by (simp add: kindAndPrefix_eq has_prefix_def)
  moreover have "token ! (length prefix + secretLength) = CHR ''_''"
    using p by (simp add: nth_append)
  ultimately show "Parse token = Inr kind"
    using p base62_digits_wf by (auto simp: Parse_def Let_def validateBase62_ok encodeChecksum_def)
qed

lemma format_length: "format kind secret = Inr token \<Longrightarrow> \<exists>prefix. prefixForKind kind = Some prefix
    \<and> length token = length prefix + secretLength + 1 + checksumLength"
  using base62_digits_wf by (auto simp: format_eq encodeChecksum_def)

section \<open>Generation\<close>



section \<open>Properties\<close>



text \<open>
  C30. A token with one character changed, anywhere in it, is never accepted: the checksum detects every
  change of a single character of prefix or secret, and a change in the checksum itself shows.
\<close>

theorem changed_token_is_rejected:
  assumes "Parse token = Inr kind" "i < length token" "c \<noteq> token ! i"
  shows "\<exists>err. Parse (token[i := c]) = Inl err"
proof (rule ccontr)
  assume "\<not> ?thesis"
  then obtain kind' where "Parse (token[i := c]) = Inr kind'" by (cases "Parse (token[i := c])") auto
  then obtain secret secret' where f: "format kind secret = Inr token" "format kind' secret' = Inr (token[i := c])"
    using assms(1) unfolding Parse_eq by blast
  then obtain p p' where p: "token = p @ secret @ ''_'' @ encodeChecksum (ChecksumIEEE (p @ secret))" "length secret = secretLength"
    and p': "token[i := c] = p' @ secret' @ ''_'' @ encodeChecksum (ChecksumIEEE (p' @ secret'))" "length secret' = secretLength"
    by (auto simp: format_eq)
  define n where "n = length p + secretLength"
  have len: "length (encodeChecksum x) = checksumLength" for x by (simp add: encodeChecksum_def base62_digits_wf)
  have "length token = n + 1 + checksumLength" by (subst p(1)) (simp add: len n_def p(2))
  moreover have "length (token[i := c]) = length p' + secretLength + 1 + checksumLength"
    by (subst p'(1)) (simp add: len p'(2))
  ultimately have n': "length p' + secretLength = n" by simp
  have body: "take n token = p @ secret" "drop (Suc n) token = encodeChecksum (ChecksumIEEE (p @ secret))" "token ! n = CHR ''_''"
    by (subst p(1), simp add: p(2) nth_append n_def)+
  have body': "take n (token[i := c]) = p' @ secret'" "drop (Suc n) (token[i := c]) = encodeChecksum (ChecksumIEEE (p' @ secret'))"
    "token[i := c] ! n = CHR ''_''"
    by (subst p'(1), simp add: p'(2) nth_append n' [symmetric])+
  consider "i < n" | "i = n" | "n < i" by linarith
  then show False
  proof cases
    case 1
    then have "p' @ secret' = (p @ secret)[i := c]" using body(1) body'(1) by (metis take_update_swap)
    moreover have "encodeChecksum (ChecksumIEEE (p' @ secret')) = encodeChecksum (ChecksumIEEE (p @ secret))"
      using 1 body(2) body'(2) by simp
    moreover have "i < length (p @ secret)" "c \<noteq> (p @ secret) ! i"
      using 1 assms(2,3) body(1) p(2) by (simp_all add: n_def flip: body(1))
    ultimately show False using ChecksumIEEE_changed [of i "p @ secret" c] encodeChecksum_inj by metis
  next
    case 2
    with body(3) body'(3) assms(2,3) show False by simp
  next
    case 3
    then have "p' @ secret' = p @ secret" using body(1) body'(1) by simp
    with body(2) body'(2) have "drop (Suc n) (token[i := c]) = drop (Suc n) token" by simp
    then have "drop (Suc n) (token[i := c]) ! (i - Suc n) = drop (Suc n) token ! (i - Suc n)" by simp
    with 3 assms(2,3) show False by simp
  qed
qed

theorem changed_token_is_rejected_witness:
  "\<exists>err. Parse ((personalAccessPrefix @ replicate 43 (CHR ''a'') @ ''_'' @
      encodeChecksum (ChecksumIEEE (personalAccessPrefix @ replicate 43 (CHR ''a''))))[14 := CHR ''b'']) = Inl err"
proof -
  let ?token = "personalAccessPrefix @ replicate 43 (CHR ''a'') @ ''_'' @
      encodeChecksum (ChecksumIEEE (personalAccessPrefix @ replicate 43 (CHR ''a'')))"
  have "format KindPersonalAccess (replicate 43 (CHR ''a'')) = Inr ?token"
    by (simp add: format_eq prefixForKind_def secretLength_def base62_def list_all_length)
  then have 1: "Parse ?token = Inr KindPersonalAccess" unfolding Parse_eq by blast
  have 2: "14 < length ?token" "CHR ''b'' \<noteq> ?token ! 14"
    by (simp_all add: personalAccessPrefix_def nth_append)
  from changed_token_is_rejected [OF 1 2] show ?thesis .
qed




end
