(* ===== verification/Authz.thy ===== *)
theory Authz
  imports Omnara_Prelude
begin

text \<open>
  Roles and actions (\<open>src/internal/authz/authz.go\<close>).  Actions and roles are strings, as in the source; a Go map
  literal is the list of its entries and a missing key reads as the empty list.  The search through
  the implications shares one set of visited actions, so it is passed along and returned.
\<close>

section \<open>Definitions\<close>

definition OrgRead :: string where "OrgRead = ''org.read''"
definition OrgManage :: string where "OrgManage = ''org.manage''"
definition OrgOwn :: string where "OrgOwn = ''org.own''"
definition OrgSecretsList :: string where "OrgSecretsList = ''org.secrets.list''"
definition OrgSecretsManage :: string where "OrgSecretsManage = ''org.secrets.manage''"
definition ProjectRead :: string where "ProjectRead = ''project.read''"
definition ProjectManage :: string where "ProjectManage = ''project.manage''"
definition ProjectAccessManage :: string where "ProjectAccessManage = ''project.access_manage''"
definition ProjectSecretsList :: string where "ProjectSecretsList = ''project.secrets.list''"
definition ProjectSecretsManage :: string where "ProjectSecretsManage = ''project.secrets.manage''"
definition AgentRead :: string where "AgentRead = ''agent.read''"
definition AgentOperate :: string where "AgentOperate = ''agent.operate''"
definition MachineRead :: string where "MachineRead = ''machine.read''"
definition MachineManage :: string where "MachineManage = ''machine.manage''"

definition OrgRoleOwner :: string where "OrgRoleOwner = ''owner''"
definition OrgRoleAdmin :: string where "OrgRoleAdmin = ''admin''"
definition OrgRoleMember :: string where "OrgRoleMember = ''member''"
definition ProjectRoleAdmin :: string where "ProjectRoleAdmin = ''admin''"
definition ProjectRoleDeveloper :: string where "ProjectRoleDeveloper = ''developer''"
definition ProjectRoleOperator :: string where "ProjectRoleOperator = ''operator''"
definition ProjectRoleViewer :: string where "ProjectRoleViewer = ''viewer''"

lemmas authz_names = OrgRead_def OrgManage_def OrgOwn_def OrgSecretsList_def OrgSecretsManage_def ProjectRead_def
  ProjectManage_def ProjectAccessManage_def ProjectSecretsList_def ProjectSecretsManage_def AgentRead_def
  AgentOperate_def MachineRead_def MachineManage_def OrgRoleOwner_def OrgRoleAdmin_def OrgRoleMember_def
  ProjectRoleAdmin_def ProjectRoleDeveloper_def ProjectRoleOperator_def ProjectRoleViewer_def

definition lookup_list :: "(string \<times> string list) list \<Rightarrow> string \<Rightarrow> string list" where
  "lookup_list m k = (case map_of m k of None \<Rightarrow> [] | Some xs \<Rightarrow> xs)"

definition actionImplications :: "(string \<times> string list) list" where
  "actionImplications =
     [(OrgOwn, [OrgManage]), (OrgManage, [OrgRead, OrgSecretsManage]), (OrgSecretsManage, [OrgSecretsList]),
      (ProjectManage, [ProjectRead, ProjectSecretsManage]), (ProjectSecretsManage, [ProjectSecretsList]),
      (AgentOperate, [AgentRead]), (MachineManage, [MachineRead])]"

definition orgRoleGrants :: "(string \<times> string list) list" where
  "orgRoleGrants = [(OrgRoleOwner, [OrgOwn]), (OrgRoleAdmin, [OrgManage]), (OrgRoleMember, [OrgRead])]"

definition projectRoleGrants :: "(string \<times> string list) list" where
  "projectRoleGrants =
     [(ProjectRoleAdmin, [ProjectAccessManage, ProjectManage, AgentOperate]),
      (ProjectRoleDeveloper, [ProjectManage, AgentOperate]),
      (ProjectRoleOperator, [ProjectRead, AgentOperate]),
      (ProjectRoleViewer, [ProjectRead, AgentRead])]"

text \<open>The search ends because an implied action has a smaller weight than all it is implied by.\<close>

definition action_weight :: "string \<Rightarrow> nat" where
  "action_weight a =
     (if a = OrgOwn then 9 else if a = OrgManage \<or> a = ProjectManage then 7
      else if a \<in> {OrgSecretsManage, ProjectSecretsManage, AgentOperate, MachineManage} then 3 else 1)"

lemma action_weight_implied: "sum_list (map (\<lambda>a. Suc (action_weight a)) (lookup_list actionImplications a)) < action_weight a"
  by (simp add: lookup_list_def actionImplications_def action_weight_def authz_names)

function actionImplies :: "string \<Rightarrow> string \<Rightarrow> string list \<Rightarrow> bool \<times> string list"
  and any_implies :: "string list \<Rightarrow> string \<Rightarrow> string list \<Rightarrow> bool \<times> string list" where
  "actionImplies granted requested seen =
     (if granted = requested then (True, seen)
      else if granted \<in> set seen then (False, seen)
      else any_implies (lookup_list actionImplications granted) requested (granted # seen))"
| "any_implies [] requested seen = (False, seen)"
| "any_implies (implied # rest) requested seen =
     (case actionImplies implied requested seen of
        (found, seen') \<Rightarrow> if found then (True, seen') else any_implies rest requested seen')"
  by pat_completeness auto
termination
  by (relation "measure (case_sum (\<lambda>(a, r, s). action_weight a) (\<lambda>(as, r, s). sum_list (map (\<lambda>a. Suc (action_weight a)) as)))")
    (auto intro: action_weight_implied)

definition ActionImplies :: "string \<Rightarrow> string \<Rightarrow> bool" where
  "ActionImplies granted requested = fst (actionImplies granted requested [])"

definition OrgRoleAllows :: "string \<Rightarrow> string \<Rightarrow> bool" where
  "OrgRoleAllows role action = list_ex (\<lambda>granted. ActionImplies granted action) (lookup_list orgRoleGrants role)"

definition ProjectRoleAllows :: "string \<Rightarrow> string \<Rightarrow> bool" where
  "ProjectRoleAllows role action = list_ex (\<lambda>granted. ActionImplies granted action) (lookup_list projectRoleGrants role)"

definition MachineRoleAllows :: "string \<Rightarrow> bool" where
  "MachineRoleAllows action = ActionImplies MachineManage action"

declare actionImplies.simps [simp del]

section \<open>The search computes the closure\<close>

text \<open>One implication step as the map declares it.\<close>

definition implied_by :: "(string \<times> string) set" where
  "implied_by = {(a, b). b \<in> set (lookup_list actionImplications a)}"

lemma actionImplies_sound:
  "fst (actionImplies g r seen) \<Longrightarrow> (g, r) \<in> implied_by\<^sup>*"
  "fst (any_implies gs r seen) \<Longrightarrow> \<exists>g \<in> set gs. (g, r) \<in> implied_by\<^sup>*"
proof (induction g r seen and gs r seen rule: actionImplies_any_implies.induct)
  case (1 granted requested seen)
  show ?case
  proof (cases "granted = requested")
    case False
    with 1 obtain g where "g \<in> set (lookup_list actionImplications granted)" "(g, requested) \<in> implied_by\<^sup>*"
      by (auto simp: actionImplies.simps [of granted] split: if_splits)
    then show ?thesis by (auto simp: implied_by_def intro: converse_rtrancl_into_rtrancl)
  qed simp
next
  case (3 implied rest requested seen)
  then show ?case by (auto split: prod.splits if_splits)
qed simp

text \<open>
  Completeness: what a failed search has visited is closed under implication, apart from what was
  visited before and is still being searched.
\<close>

definition closed_beyond :: "string list \<Rightarrow> string list \<Rightarrow> bool" where
  "closed_beyond seen seen' \<longleftrightarrow> set seen \<subseteq> set seen'
     \<and> (\<forall>a \<in> set seen' - set seen. \<forall>b. (a, b) \<in> implied_by \<longrightarrow> b \<in> set seen')"

lemma closed_beyond_trans: "closed_beyond a b \<Longrightarrow> closed_beyond b c \<Longrightarrow> closed_beyond a c"
  unfolding closed_beyond_def by blast

lemma actionImplies_complete:
  "\<not> fst (actionImplies g r seen) \<Longrightarrow> r \<notin> set seen \<Longrightarrow>
     closed_beyond seen (snd (actionImplies g r seen)) \<and> g \<in> set (snd (actionImplies g r seen))
     \<and> r \<notin> set (snd (actionImplies g r seen))"
  "\<not> fst (any_implies gs r seen) \<Longrightarrow> r \<notin> set seen \<Longrightarrow>
     closed_beyond seen (snd (any_implies gs r seen)) \<and> set gs \<subseteq> set (snd (any_implies gs r seen))
     \<and> r \<notin> set (snd (any_implies gs r seen))"
proof (induction g r seen and gs r seen rule: actionImplies_any_implies.induct)
  case (1 g r seen)
  note unfold = actionImplies.simps [of g r seen]
  show ?case
  proof (cases "g \<in> set seen")
    case True
    with 1 show ?thesis by (auto simp: unfold closed_beyond_def split: if_splits)
  next
    case False
    let ?s = "snd (any_implies (lookup_list actionImplications g) r (g # seen))"
    from 1 False have "closed_beyond (g # seen) ?s" "set (lookup_list actionImplications g) \<subseteq> set ?s" "r \<notin> set ?s" "g \<noteq> r"
      by (auto simp: unfold split: if_splits)
    with False show ?thesis by (auto simp: unfold closed_beyond_def implied_by_def)
  qed
next
  case (2 r seen)
  then show ?case by (simp add: closed_beyond_def)
next
  case (3 x xs r seen)
  obtain found seen' where x: "actionImplies x r seen = (found, seen')" by force
  with 3 have "\<not> found" by (auto split: if_splits)
  with 3 x have "closed_beyond seen seen'" "x \<in> set seen'" "r \<notin> set seen'" by auto
  moreover from this 3 x \<open>\<not> found\<close> have "closed_beyond seen' (snd (any_implies xs r seen'))"
    "set xs \<subseteq> set (snd (any_implies xs r seen'))" "r \<notin> set (snd (any_implies xs r seen'))" by auto
  ultimately have "closed_beyond seen (snd (any_implies xs r seen'))" "x \<in> set (snd (any_implies xs r seen'))"
    by (blast intro: closed_beyond_trans, auto simp: closed_beyond_def)
  with \<open>set xs \<subseteq> _\<close> \<open>r \<notin> set (snd (any_implies xs r seen'))\<close> show ?case using x \<open>\<not> found\<close> by auto
qed

lemma ActionImplies_iff: "ActionImplies granted requested \<longleftrightarrow> (granted, requested) \<in> implied_by\<^sup>*"
proof
  assume "(granted, requested) \<in> implied_by\<^sup>*"
  show "ActionImplies granted requested"
  proof (rule ccontr)
    assume "\<not> ActionImplies granted requested"
    define s where "s = set (snd (actionImplies granted requested []))"
    have closed: "\<And>a b. a \<in> s \<Longrightarrow> (a, b) \<in> implied_by \<Longrightarrow> b \<in> s" and "granted \<in> s" "requested \<notin> s"
      using actionImplies_complete(1) [of granted requested "[]"] \<open>\<not> ActionImplies granted requested\<close>
      by (auto simp: ActionImplies_def closed_beyond_def s_def)
    from \<open>(granted, requested) \<in> implied_by\<^sup>*\<close> \<open>granted \<in> s\<close> have "requested \<in> s"
      by (induction rule: rtrancl_induct) (auto intro: closed)
    with \<open>requested \<notin> s\<close> show False ..
  qed
qed (auto simp: ActionImplies_def dest: actionImplies_sound(1))

section \<open>What each role allows\<close>

text \<open>One step of the closure, as a rewrite rule for a granted action that is known.\<close>

lemma ActionImplies_step:
  "ActionImplies g r \<longleftrightarrow> g = r \<or> (\<exists>x \<in> set (lookup_list actionImplications g). ActionImplies x r)"
proof -
  have step: "(g, r) \<in> implied_by\<^sup>* \<longleftrightarrow> g = r \<or> (\<exists>x. (g, x) \<in> implied_by \<and> (x, r) \<in> implied_by\<^sup>*)"
    by (blast elim: converse_rtranclE intro: converse_rtrancl_into_rtrancl)
  have "(g, x) \<in> implied_by \<longleftrightarrow> x \<in> set (lookup_list actionImplications g)" for x
    by (simp add: implied_by_def)
  then show ?thesis unfolding ActionImplies_iff step by (simp add: Bex_def)
qed

lemma implications_of [simp]:
  "lookup_list actionImplications OrgOwn = [OrgManage]"
  "lookup_list actionImplications OrgManage = [OrgRead, OrgSecretsManage]"
  "lookup_list actionImplications OrgSecretsManage = [OrgSecretsList]"
  "lookup_list actionImplications ProjectManage = [ProjectRead, ProjectSecretsManage]"
  "lookup_list actionImplications ProjectSecretsManage = [ProjectSecretsList]"
  "lookup_list actionImplications AgentOperate = [AgentRead]"
  "lookup_list actionImplications MachineManage = [MachineRead]"
  "lookup_list actionImplications OrgRead = []"
  "lookup_list actionImplications OrgSecretsList = []"
  "lookup_list actionImplications ProjectRead = []"
  "lookup_list actionImplications ProjectSecretsList = []"
  "lookup_list actionImplications ProjectAccessManage = []"
  "lookup_list actionImplications AgentRead = []"
  "lookup_list actionImplications MachineRead = []"
  by (simp_all add: lookup_list_def actionImplications_def authz_names)

lemma implied_secrets [simp]:
  "ActionImplies OrgSecretsList a \<longleftrightarrow> a = OrgSecretsList"
  "ActionImplies OrgSecretsManage a \<longleftrightarrow> a \<in> {OrgSecretsManage, OrgSecretsList}"
  "ActionImplies ProjectSecretsList a \<longleftrightarrow> a = ProjectSecretsList"
  "ActionImplies ProjectSecretsManage a \<longleftrightarrow> a \<in> {ProjectSecretsManage, ProjectSecretsList}"
proof -
  show list: "ActionImplies OrgSecretsList a \<longleftrightarrow> a = OrgSecretsList"
    and plist: "ActionImplies ProjectSecretsList a \<longleftrightarrow> a = ProjectSecretsList"
    by ((subst ActionImplies_step, force)+)
  show "ActionImplies OrgSecretsManage a \<longleftrightarrow> a \<in> {OrgSecretsManage, OrgSecretsList}"
    and "ActionImplies ProjectSecretsManage a \<longleftrightarrow> a \<in> {ProjectSecretsManage, ProjectSecretsList}"
    by ((subst ActionImplies_step, force simp: list plist)+)
qed

lemma implied_reads [simp]:
  "ActionImplies OrgRead a \<longleftrightarrow> a = OrgRead"
  "ActionImplies ProjectRead a \<longleftrightarrow> a = ProjectRead"
  "ActionImplies AgentRead a \<longleftrightarrow> a = AgentRead"
  "ActionImplies MachineRead a \<longleftrightarrow> a = MachineRead"
  "ActionImplies ProjectAccessManage a \<longleftrightarrow> a = ProjectAccessManage"
  by ((subst ActionImplies_step, force)+)

lemma implied_manages [simp]:
  "ActionImplies OrgManage a \<longleftrightarrow> a \<in> {OrgManage, OrgRead, OrgSecretsManage, OrgSecretsList}"
  "ActionImplies ProjectManage a \<longleftrightarrow> a \<in> {ProjectManage, ProjectRead, ProjectSecretsManage, ProjectSecretsList}"
  "ActionImplies AgentOperate a \<longleftrightarrow> a \<in> {AgentOperate, AgentRead}"
  "ActionImplies MachineManage a \<longleftrightarrow> a \<in> {MachineManage, MachineRead}"
  by ((subst ActionImplies_step, force)+)

lemma implied_own [simp]:
  "ActionImplies OrgOwn a \<longleftrightarrow> a \<in> {OrgOwn, OrgManage, OrgRead, OrgSecretsManage, OrgSecretsList}"
  by (subst ActionImplies_step) auto

lemma OrgRoleAllows_iff:
  "OrgRoleAllows role a \<longleftrightarrow>
     role = OrgRoleOwner \<and> a \<in> {OrgOwn, OrgManage, OrgRead, OrgSecretsManage, OrgSecretsList}
   \<or> role = OrgRoleAdmin \<and> a \<in> {OrgManage, OrgRead, OrgSecretsManage, OrgSecretsList}
   \<or> role = OrgRoleMember \<and> a = OrgRead"
proof -
  have "OrgRoleOwner \<noteq> OrgRoleAdmin" "OrgRoleOwner \<noteq> OrgRoleMember" "OrgRoleAdmin \<noteq> OrgRoleMember"
    by (simp_all add: authz_names)
  then show ?thesis by (auto simp: OrgRoleAllows_def orgRoleGrants_def lookup_list_def)
qed

lemma ProjectRoleAllows_iff:
  "ProjectRoleAllows role a \<longleftrightarrow>
     role = ProjectRoleAdmin \<and> a \<in> {ProjectAccessManage, ProjectManage, ProjectRead, ProjectSecretsManage,
       ProjectSecretsList, AgentOperate, AgentRead}
   \<or> role = ProjectRoleDeveloper \<and> a \<in> {ProjectManage, ProjectRead, ProjectSecretsManage, ProjectSecretsList,
       AgentOperate, AgentRead}
   \<or> role = ProjectRoleOperator \<and> a \<in> {ProjectRead, AgentOperate, AgentRead}
   \<or> role = ProjectRoleViewer \<and> a \<in> {ProjectRead, AgentRead}"
proof -
  have "distinct [ProjectRoleAdmin, ProjectRoleDeveloper, ProjectRoleOperator, ProjectRoleViewer]"
    by (simp add: authz_names)
  then show ?thesis by (auto simp: ProjectRoleAllows_def projectRoleGrants_def lookup_list_def)
qed

text \<open>The actions of the three scopes are told apart by how their names begin.\<close>

lemma role_scopes:
  "OrgRoleAllows r a \<Longrightarrow> take 4 a = ''org.''"
  "ProjectRoleAllows r a \<Longrightarrow> take 4 a \<in> {''proj'', ''agen''}"
  "MachineRoleAllows a \<Longrightarrow> take 4 a = ''mach''"
proof -
  have org: "\<forall>a \<in> {OrgOwn, OrgManage, OrgRead, OrgSecretsManage, OrgSecretsList}. take 4 a = ''org.''"
    and project: "\<forall>a \<in> {ProjectAccessManage, ProjectManage, ProjectRead, ProjectSecretsManage,
       ProjectSecretsList, AgentOperate, AgentRead}. take 4 a \<in> {''proj'', ''agen''}"
    and machine: "\<forall>a \<in> {MachineManage, MachineRead}. take 4 a = ''mach''"
    by (simp_all add: authz_names)
  show "OrgRoleAllows r a \<Longrightarrow> take 4 a = ''org.''"
    using org unfolding OrgRoleAllows_iff by blast
  show "ProjectRoleAllows r a \<Longrightarrow> take 4 a \<in> {''proj'', ''agen''}"
    using project unfolding ProjectRoleAllows_iff by blast
  show "MachineRoleAllows a \<Longrightarrow> take 4 a = ''mach''"
    using machine unfolding MachineRoleAllows_def implied_manages by blast
qed

lemma roles_nested:
  "OrgRoleAllows OrgRoleMember a \<Longrightarrow> OrgRoleAllows OrgRoleAdmin a"
  "OrgRoleAllows OrgRoleAdmin a \<Longrightarrow> OrgRoleAllows OrgRoleOwner a"
  "ProjectRoleAllows ProjectRoleViewer a \<Longrightarrow> ProjectRoleAllows ProjectRoleOperator a"
  "ProjectRoleAllows ProjectRoleOperator a \<Longrightarrow> ProjectRoleAllows ProjectRoleDeveloper a"
  "ProjectRoleAllows ProjectRoleDeveloper a \<Longrightarrow> ProjectRoleAllows ProjectRoleAdmin a"
  unfolding OrgRoleAllows_def ProjectRoleAllows_def orgRoleGrants_def projectRoleGrants_def lookup_list_def
  by (auto simp: authz_names(15-))

lemma reserved_actions:
  "OrgRoleAllows r OrgOwn \<longleftrightarrow> r = OrgRoleOwner"
  "ProjectRoleAllows r ProjectAccessManage \<longleftrightarrow> r = ProjectRoleAdmin"
  "ProjectRoleAllows r ProjectSecretsList \<longleftrightarrow> r \<in> {ProjectRoleAdmin, ProjectRoleDeveloper}"
  unfolding OrgRoleAllows_iff ProjectRoleAllows_iff by (simp_all add: authz_names(1-14))

section \<open>Properties\<close>

text \<open>
  C32. The search through the implications, with its shared set of visited actions, decides exactly the
  reflexive and transitive closure of the declared implications, for all strings.
\<close>

theorem action_search_is_closure:
  "ActionImplies granted requested \<longleftrightarrow>
     (granted, requested) \<in> {(a, b). b \<in> set (lookup_list actionImplications a)}\<^sup>*"
  by (rule ActionImplies_iff [unfolded implied_by_def])

text \<open>
  C33. The roles are nested and separated: every action of a lower role is allowed to the roles above it;
  organisation roles allow no project, agent or machine action and project roles no organisation or
  machine action; only the owner has the owner's action, only the project admin manages access, no
  role below developer sees a project secret, and an unknown role allows nothing.
\<close>

theorem roles_are_nested_and_separated:
  "(OrgRoleAllows OrgRoleMember a \<longrightarrow> OrgRoleAllows OrgRoleAdmin a)
    \<and> (OrgRoleAllows OrgRoleAdmin a \<longrightarrow> OrgRoleAllows OrgRoleOwner a)
    \<and> (ProjectRoleAllows ProjectRoleViewer a \<longrightarrow> ProjectRoleAllows ProjectRoleOperator a)
    \<and> (ProjectRoleAllows ProjectRoleOperator a \<longrightarrow> ProjectRoleAllows ProjectRoleDeveloper a)
    \<and> (ProjectRoleAllows ProjectRoleDeveloper a \<longrightarrow> ProjectRoleAllows ProjectRoleAdmin a)
    \<and> \<not> (OrgRoleAllows r a \<and> (ProjectRoleAllows r' a \<or> MachineRoleAllows a))
    \<and> \<not> (ProjectRoleAllows r' a \<and> MachineRoleAllows a)
    \<and> (OrgRoleAllows r OrgOwn \<longleftrightarrow> r = OrgRoleOwner)
    \<and> (ProjectRoleAllows r' ProjectAccessManage \<longleftrightarrow> r' = ProjectRoleAdmin)
    \<and> (ProjectRoleAllows r' ProjectSecretsList \<longleftrightarrow> r' \<in> {ProjectRoleAdmin, ProjectRoleDeveloper})
    \<and> (r \<notin> {OrgRoleOwner, OrgRoleAdmin, OrgRoleMember} \<longrightarrow> \<not> OrgRoleAllows r a)
    \<and> (r' \<notin> {ProjectRoleAdmin, ProjectRoleDeveloper, ProjectRoleOperator, ProjectRoleViewer} \<longrightarrow> \<not> ProjectRoleAllows r' a)"
proof -
  have "\<not> (OrgRoleAllows r a \<and> (ProjectRoleAllows r' a \<or> MachineRoleAllows a))" "\<not> (ProjectRoleAllows r' a \<and> MachineRoleAllows a)"
    by (auto dest!: role_scopes)
  moreover have "r \<notin> {OrgRoleOwner, OrgRoleAdmin, OrgRoleMember} \<longrightarrow> \<not> OrgRoleAllows r a"
    by (simp add: OrgRoleAllows_iff)
  moreover have "r' \<notin> {ProjectRoleAdmin, ProjectRoleDeveloper, ProjectRoleOperator, ProjectRoleViewer} \<longrightarrow> \<not> ProjectRoleAllows r' a"
    by (simp add: ProjectRoleAllows_iff)
  ultimately show ?thesis
    using roles_nested [of a] reserved_actions by blast
qed

theorem roles_are_nested_and_separated_witness:
  "OrgRoleAllows OrgRoleAdmin OrgRead \<and> \<not> ProjectRoleAllows ''guest'' ProjectRead"
proof -
  have "OrgRoleAllows OrgRoleMember OrgRead" by code_simp
  moreover have "''guest'' \<notin> {ProjectRoleAdmin, ProjectRoleDeveloper, ProjectRoleOperator, ProjectRoleViewer}"
    by (simp add: authz_names)
  ultimately show ?thesis
    using roles_are_nested_and_separated [of OrgRead OrgRoleAdmin "''guest''"]
      roles_are_nested_and_separated [of ProjectRead OrgRoleAdmin "''guest''"] by blast
qed

end
