(* ===== verification/Ssrf.thy ===== *)
theory Ssrf
  imports Omnara_Prelude "HOL-Library.Word"
begin

text \<open>
  The guard of outbound requests (\<open>src/internal/ssrf\<close>): which addresses a request of an agent may reach, and
  the dialer that asks it.  An address is its bytes, four or sixteen of them for a valid one; the methods
  of \<open>net.IP\<close> and \<open>netip.Prefix\<close> the guard uses are written out on the bytes.
\<close>

unbundle bit_operations_syntax

section \<open>Addresses\<close>

type_synonym byte = "8 word"
type_synonym ip = "byte list"

definition v4InV6Prefix :: ip where
  "v4InV6Prefix = replicate 10 0 @ [0xff, 0xff]"

definition IPv4 :: "byte \<Rightarrow> byte \<Rightarrow> byte \<Rightarrow> byte \<Rightarrow> ip" where
  "IPv4 a b c d = v4InV6Prefix @ [a, b, c, d]"

definition To4 :: "ip \<Rightarrow> ip option" where
  "To4 ip = (if length ip = 4 then Some ip
     else if length ip = 16 \<and> take 12 ip = v4InV6Prefix then Some (drop 12 ip) else None)"











section \<open>Prefixes\<close>


fun shares :: "nat \<Rightarrow> ip \<Rightarrow> ip \<Rightarrow> bool" where
  "shares n (x # xs) (y # ys) \<longleftrightarrow>
     (if n = 0 then True
      else if n < 8 then drop_bit (8 - n) x = drop_bit (8 - n) y
      else x = y \<and> shares (n - 8) xs ys)"
| "shares n _ _ \<longleftrightarrow> True"







section \<open>The guard\<close>


lemma To4_IPv4 [simp]: "To4 (IPv4 a b c d) = Some [a, b, c, d]"
  by (simp add: To4_def IPv4_def v4InV6Prefix_def)




section \<open>The dialer\<close>



section \<open>The ranges nobody may reach\<close>




section \<open>Bytes\<close>





section \<open>What the guard allows\<close>





lemma shares_0 [simp]: "shares 0 xs ys"
  by (cases xs; cases ys) simp_all









end
