(* ===== verification/Spec2Isabelle.thy ===== *)
theory Spec2Isabelle
  imports Daemon_Properties Compaction_Properties Public_Id Bearer_Token Authz Ssrf
begin

text \<open>
  A verification development for omnara: the state database of the machine daemon
  (\<open>src/internal/machinedaemon/statedb\<close>).
\<close>

end
